(* ===== verification/Prelude.thy ===== *)
theory Prelude
  imports Main "HOL-Library.Word" "HOL-Library.Char_ord" "HOL-Library.List_Lexorder"
begin

text \<open>
  What the components of the slate runtime share: the machine integer types, the
  saturating arithmetic of Rust's standard library, strings as byte sequences, decimal
  formatting, \<open>BTreeMap\<close> as a sorted association list, half-open address ranges, and
  the collections of facts (\<open>word_arith\<close>, \<open>btree\<close>, \<open>guards\<close>) the component
  proofs use.
\<close>

unbundle bit_operations_syntax

named_theorems word_arith "saturating and wrapping machine arithmetic"
named_theorems btree "lookup laws of the ordered map"
named_theorems guards "equations that decide a guard of the code"

subsection \<open>Machine integers\<close>

type_synonym u8 = "8 word"
type_synonym u16 = "16 word"
type_synonym u32 = "32 word"
type_synonym u64 = "64 word"
type_synonym byte = "8 word"

text \<open>\<open>saturating_add\<close>, \<open>saturating_sub\<close> and \<open>saturating_mul\<close> of the unsigned types.\<close>

definition sat_add :: "'a::len word \<Rightarrow> 'a word \<Rightarrow> 'a word" where
  "sat_add a b = (if unat a + unat b < 2 ^ LENGTH('a) then a + b else - 1)"

definition sat_sub :: "'a::len word \<Rightarrow> 'a word \<Rightarrow> 'a word" where
  "sat_sub a b = (if a < b then 0 else a - b)"

definition sat_mul :: "'a::len word \<Rightarrow> 'a word \<Rightarrow> 'a word" where
  "sat_mul a b = (if unat a * unat b < 2 ^ LENGTH('a) then a * b else - 1)"

text \<open>\<open>checked_add\<close> and \<open>checked_mul\<close>.\<close>

definition checked_add :: "'a::len word \<Rightarrow> 'a word \<Rightarrow> 'a word option" where
  "checked_add a b = (if unat a + unat b < 2 ^ LENGTH('a) then Some (a + b) else None)"

definition checked_mul :: "'a::len word \<Rightarrow> 'a word \<Rightarrow> 'a word option" where
  "checked_mul a b = (if unat a * unat b < 2 ^ LENGTH('a) then Some (a * b) else None)"

lemma unat_max_word: "unat (- 1 :: 'a::len word) = 2 ^ LENGTH('a) - 1"
  by (simp add: unsigned_minus_1_eq_mask mask_eq_exp_minus_1)

lemma unat_add_no_overflow [word_arith]:
  fixes a b :: "'a::len word"
  assumes "unat a + unat b < 2 ^ LENGTH('a)"
  shows "unat (a + b) = unat a + unat b"
  using assms by (simp add: unat_word_ariths)

lemma unat_increment [word_arith]:
  fixes s m :: "'a::len word"
  assumes "s < m"
  shows "unat (s + 1) = unat s + 1"
proof -
  have "unat m < 2 ^ LENGTH('a)" by (rule unsigned_less)
  with assms have "unat s + 1 < 2 ^ LENGTH('a)" unfolding word_less_nat_alt by linarith
  then show ?thesis using unat_add_no_overflow [of s 1] by simp
qed

lemma unat_sat_add [word_arith]:
  fixes a b :: "'a::len word"
  shows "unat (sat_add a b) = min (unat a + unat b) (2 ^ LENGTH('a) - 1)"
proof (cases "unat a + unat b < 2 ^ LENGTH('a)")
  case True
  then have "unat a + unat b \<le> 2 ^ LENGTH('a) - 1" by simp
  with True show ?thesis by (simp only: sat_add_def if_True unat_add_no_overflow min.absorb1)
next
  case False
  then have "2 ^ LENGTH('a) - 1 \<le> unat a + unat b" by linarith
  with False show ?thesis by (simp only: sat_add_def if_False unat_max_word min.absorb2)
qed

lemma unat_sat_sub [word_arith]: "unat (sat_sub a b) = unat a - unat b"
  by (auto simp: sat_sub_def word_less_nat_alt unat_sub_if')

lemma sat_sub_le: "sat_sub a b \<le> a"
  by (simp add: word_le_nat_alt unat_sat_sub)

lemma unat_sat_mul [word_arith]:
  fixes a b :: "'a::len word"
  shows "unat (sat_mul a b) = min (unat a * unat b) (2 ^ LENGTH('a) - 1)"
proof (cases "unat a * unat b < 2 ^ LENGTH('a)")
  case True
  then have "unat a * unat b \<le> 2 ^ LENGTH('a) - 1" by simp
  moreover have "unat (a * b) = unat a * unat b"
    using True by (simp add: unat_word_ariths)
  ultimately show ?thesis using True by (simp only: sat_mul_def if_True min.absorb1)
next
  case False
  then have "2 ^ LENGTH('a) - 1 \<le> unat a * unat b" by linarith
  with False show ?thesis by (simp only: sat_mul_def if_False unat_max_word min.absorb2)
qed

lemma le_sat_add [simp]:
  fixes a b :: "'a::len word"
  shows "a \<le> sat_add a b"
proof -
  have "unat a < 2 ^ LENGTH('a)" by (rule unsigned_less)
  then have "unat a \<le> 2 ^ LENGTH('a) - 1" by linarith
  then show ?thesis by (simp add: word_le_nat_alt unat_sat_add)
qed

lemma unat_of_nat_small [word_arith]:
  assumes "k < 2 ^ LENGTH('a)"
  shows "unat (word_of_nat k :: 'a::len word) = k"
  using assms by (simp only: unsigned_of_nat take_bit_nat_eq_self of_nat_id)

lemma word_of_nat_image:
  "word_of_nat ` {unat a..unat b} = {f :: 'a::len word. a \<le> f \<and> f \<le> b}"
proof (intro set_eqI iffI)
  fix f :: "'a word" assume "f \<in> word_of_nat ` {unat a..unat b}"
  then obtain k where k: "f = word_of_nat k" "unat a \<le> k" "k \<le> unat b" by auto
  have "k < 2 ^ LENGTH('a)"
    using k(3) unsigned_less [of b, where 'a = nat] by (rule le_less_trans)
  then have "unat f = k" using k(1) by (simp only: unsigned_of_nat take_bit_nat_eq_self of_nat_id)
  with k show "f \<in> {f. a \<le> f \<and> f \<le> b}" by (simp add: word_le_nat_alt)
next
  fix f :: "'a word" assume "f \<in> {f. a \<le> f \<and> f \<le> b}"
  then have "unat f \<in> {unat a..unat b}" by (simp add: word_le_nat_alt)
  moreover have "f = word_of_nat (unat f)" by simp
  ultimately show "f \<in> word_of_nat ` {unat a..unat b}" by blast
qed

lemma word_div_le_mono:
  fixes a b c :: "'a::len word"
  assumes "a \<le> b"
  shows "a div c \<le> b div c"
  using assms by (simp add: word_le_nat_alt unat_div div_le_mono)

subsection \<open>Results\<close>

text \<open>\<open>Result<T, E>\<close> is the sum \<open>'e + 'a\<close>, the error on the left.\<close>

abbreviation Err :: "'e \<Rightarrow> 'e + 'a" where "Err \<equiv> Inl"
abbreviation Ok :: "'a \<Rightarrow> 'e + 'a" where "Ok \<equiv> Inr"

definition is_ok :: "'e + 'a \<Rightarrow> bool" where
  "is_ok r = (case r of Inl _ \<Rightarrow> False | Inr _ \<Rightarrow> True)"

lemma is_ok_simps [simp]: "is_ok (Ok x)" "\<not> is_ok (Err e)"
  by (simp_all add: is_ok_def)

lemma is_ok_iff: "is_ok r \<longleftrightarrow> (\<exists>x. r = Ok x)"
  by (cases r) auto

subsection \<open>Half-open ranges \<open>[base, base+len)\<close> with a saturating end\<close>

definition range_contains :: "u64 \<Rightarrow> u64 \<Rightarrow> u64 \<Rightarrow> bool" where
  "range_contains base len x \<longleftrightarrow> base \<le> x \<and> x < sat_add base len"

definition range_overlaps :: "u64 \<Rightarrow> u64 \<Rightarrow> u64 \<Rightarrow> u64 \<Rightarrow> bool" where
  "range_overlaps b1 l1 b2 l2 \<longleftrightarrow> b1 < sat_add b2 l2 \<and> b2 < sat_add b1 l1"

lemma range_overlaps_sym: "range_overlaps b1 l1 b2 l2 = range_overlaps b2 l2 b1 l1"
  by (auto simp: range_overlaps_def)

text \<open>The overlap test is exact: it holds when, and only when, some address is in both.\<close>

lemma range_overlapsI:
  assumes "range_contains b1 l1 x" "range_contains b2 l2 x"
  shows "range_overlaps b1 l1 b2 l2"
  using assms by (auto simp: range_contains_def range_overlaps_def)

lemma range_overlapsD:
  assumes "range_overlaps b1 l1 b2 l2" "b1 < sat_add b1 l1" "b2 < sat_add b2 l2"
  shows "range_contains b1 l1 (max b1 b2) \<and> range_contains b2 l2 (max b1 b2)"
  using assms by (auto simp: range_contains_def range_overlaps_def max_def)

lemma range_contains_offset:
  assumes "range_contains base len x"
  shows "unat (x - base) < unat len"
  using assms
  by (auto simp: range_contains_def word_le_nat_alt word_less_nat_alt unat_sat_add unat_sub_if')

subsection \<open>Strings\<close>

text \<open>
  A Rust \<open>String\<close> is its UTF-8 bytes, so it is a list of (8-bit) characters here and
  \<open>as_bytes\<close> is a relabelling. ASCII operations act on single bytes.
\<close>

definition as_bytes :: "string \<Rightarrow> byte list" where
  "as_bytes s = map of_char s"

lemma length_as_bytes [simp]: "length (as_bytes s) = length s"
  by (simp add: as_bytes_def)

lemma of_char_byte_inject: "(of_char c :: byte) = of_char d \<longleftrightarrow> c = d"
proof
  assume eq: "(of_char c :: byte) = of_char d"
  have "(of_char e :: nat) = unat (of_char e :: byte)" for e
  proof -
    have "unat (word_of_nat (of_char e) :: byte) = of_char e mod 256"
      by (simp add: unsigned_of_nat take_bit_eq_mod del: of_nat_of_char)
    also have "(word_of_nat (of_char e) :: byte) = of_char e" by (rule of_nat_of_char)
    finally show ?thesis by simp
  qed
  with eq have "(of_char c :: nat) = of_char d" by metis
  then show "c = d" by (rule of_char_eqI)
qed simp

lemma as_bytes_inject [simp]: "as_bytes s = as_bytes t \<longleftrightarrow> s = t"
  by (simp add: as_bytes_def inj_map_eq_map inj_def of_char_byte_inject)

definition ascii_lower :: "char \<Rightarrow> char" where
  "ascii_lower c = (if 65 \<le> (of_char c :: nat) \<and> (of_char c :: nat) \<le> 90
                    then char_of ((of_char c :: nat) + 32) else c)"

definition to_ascii_lowercase :: "string \<Rightarrow> string" where
  "to_ascii_lowercase s = map ascii_lower s"

definition eq_ignore_ascii_case :: "string \<Rightarrow> string \<Rightarrow> bool" where
  "eq_ignore_ascii_case s t \<longleftrightarrow> to_ascii_lowercase s = to_ascii_lowercase t"

definition starts_with :: "string \<Rightarrow> string \<Rightarrow> bool" where
  "starts_with s p \<longleftrightarrow> take (length p) s = p"

definition strip_prefix :: "string \<Rightarrow> string \<Rightarrow> string option" where
  "strip_prefix p s = (if starts_with s p then Some (drop (length p) s) else None)"

lemma strip_prefix_append [simp]: "strip_prefix p (p @ s) = Some s"
  by (simp add: strip_prefix_def starts_with_def)

text \<open>\<open>str::trim\<close> on ASCII white space.\<close>

definition is_ascii_space :: "char \<Rightarrow> bool" where
  "is_ascii_space c \<longleftrightarrow> (of_char c :: nat) \<in> {9, 10, 11, 12, 13, 32}"

definition str_trim :: "string \<Rightarrow> string" where
  "str_trim s = rev (dropWhile is_ascii_space (rev (dropWhile is_ascii_space s)))"

text \<open>\<open>str::contains\<close> and \<open>str::lines\<close>: lines end with a line feed, whose carriage return goes too.\<close>

fun str_contains :: "string \<Rightarrow> string \<Rightarrow> bool" where
  "str_contains [] p \<longleftrightarrow> p = []"
| "str_contains (c # s) p \<longleftrightarrow> starts_with (c # s) p \<or> str_contains s p"

definition strip_cr :: "string \<Rightarrow> string" where
  "strip_cr l = (if l \<noteq> [] \<and> last l = CHR 0x0D then butlast l else l)"

fun lines_from :: "string \<Rightarrow> string \<Rightarrow> string list" where
  "lines_from acc [] = (if acc = [] then [] else [acc])"
| "lines_from acc (c # s) =
     (if c = CHR 0x0A then strip_cr acc # lines_from [] s else lines_from (acc @ [c]) s)"

definition str_lines :: "string \<Rightarrow> string list" where
  "str_lines s = lines_from [] s"

subsection \<open>Formatting\<close>

text \<open>The \<open>{}\<close> and \<open>{:06}\<close> formats of an unsigned integer, and \<open>{:?}\<close> of a string.\<close>

definition digit_char :: "nat \<Rightarrow> char" where
  "digit_char d = char_of (48 + d)"

fun show_nat :: "nat \<Rightarrow> string" where
  "show_nat n = (if n < 10 then [digit_char n] else show_nat (n div 10) @ [digit_char (n mod 10)])"

declare show_nat.simps [simp del]

definition pad_left :: "nat \<Rightarrow> char \<Rightarrow> string \<Rightarrow> string" where
  "pad_left w c s = replicate (w - length s) c @ s"

definition show_u64 :: "u64 \<Rightarrow> string" where
  "show_u64 n = show_nat (unat n)"

fun show_hex :: "nat \<Rightarrow> string" where
  "show_hex n = (let d = (\<lambda>k. if k < 10 then char_of (48 + k) else char_of (87 + k :: nat)) in
     if n < 16 then [d n] else show_hex (n div 16) @ [d (n mod 16)])"

declare show_hex.simps [simp del]

text \<open>The escapes of \<open>{:?}\<close> on ASCII: the quote, the backslash and control characters.\<close>

definition debug_char :: "char \<Rightarrow> string" where
  "debug_char c =
     (if c = CHR 0x22 then [CHR 0x5C, CHR 0x22]
      else if c = CHR 0x5C then [CHR 0x5C, CHR 0x5C]
      else if c = CHR 0x0A then [CHR 0x5C, CHR ''n'']
      else if c = CHR 0x0D then [CHR 0x5C, CHR ''r'']
      else if c = CHR 0x09 then [CHR 0x5C, CHR ''t'']
      else if c = CHR 0x00 then [CHR 0x5C, CHR ''0'']
      else if (of_char c :: nat) < 32 \<or> (of_char c :: nat) = 127
      then CHR 0x5C # ''u{'' @ show_hex (of_char c) @ ''}''
      else [c])"

definition debug_str :: "string \<Rightarrow> string" where
  "debug_str s = CHR 0x22 # concat (map debug_char s) @ [CHR 0x22]"

lemma show_nat_nonempty: "show_nat n \<noteq> []"
  by (subst show_nat.simps) simp

text \<open>\<open>from_str_radix(s, 16)\<close> of an unsigned type of so many bits, an error as \<open>None\<close>.\<close>

definition hex_digit_value :: "char \<Rightarrow> nat option" where
  "hex_digit_value c = (let k = (of_char c :: nat) in
     if 48 \<le> k \<and> k \<le> 57 then Some (k - 48)
     else if 97 \<le> k \<and> k \<le> 102 then Some (k - 87)
     else if 65 \<le> k \<and> k \<le> 70 then Some (k - 55) else None)"

fun hex_digits_value :: "nat \<Rightarrow> string \<Rightarrow> nat option" where
  "hex_digits_value acc [] = Some acc"
| "hex_digits_value acc (c # cs) =
     (case hex_digit_value c of Some d \<Rightarrow> hex_digits_value (16 * acc + d) cs | None \<Rightarrow> None)"

definition from_str_radix_16 :: "nat \<Rightarrow> string \<Rightarrow> nat option" where
  "from_str_radix_16 bits s =
     (let digits = (case s of [] \<Rightarrow> [] | c # cs \<Rightarrow> if c = CHR ''+'' then cs else s) in
      if digits = [] then None
      else case hex_digits_value 0 digits of
        Some v \<Rightarrow> if v < 2 ^ bits then Some v else None
      | None \<Rightarrow> None)"

text \<open>\<open>parse\<close> to an unsigned type of so many bits: an optional plus sign and decimal digits.\<close>

definition digit_value :: "char \<Rightarrow> nat option" where
  "digit_value c = (let k = (of_char c :: nat) in if 48 \<le> k \<and> k \<le> 57 then Some (k - 48) else None)"

fun digits_value :: "nat \<Rightarrow> string \<Rightarrow> nat option" where
  "digits_value acc [] = Some acc"
| "digits_value acc (c # cs) =
     (case digit_value c of Some d \<Rightarrow> digits_value (10 * acc + d) cs | None \<Rightarrow> None)"

definition parse_unsigned :: "nat \<Rightarrow> string \<Rightarrow> nat option" where
  "parse_unsigned bits s =
     (let digits = (case s of [] \<Rightarrow> [] | c # cs \<Rightarrow> if c = CHR ''+'' then cs else s) in
      if digits = [] then None
      else case digits_value 0 digits of
        Some v \<Rightarrow> if v < 2 ^ bits then Some v else None
      | None \<Rightarrow> None)"

lemma digit_value_char: "d < 10 \<Longrightarrow> digit_value (digit_char d) = Some d"
  by (simp add: digit_value_def digit_char_def Let_def take_bit_eq_mod)

lemma digits_value_append:
  "digits_value acc (s @ t) = Option.bind (digits_value acc s) (\<lambda>v. digits_value v t)"
  by (induction acc s rule: digits_value.induct) (auto split: option.splits)

lemma digits_value_show: "digits_value 0 (show_nat n) = Some n"
proof (induction n rule: show_nat.induct)
  case (1 n)
  show ?case
    using 1 by (cases "n < 10") (subst show_nat.simps, simp add: digits_value_append digit_value_char)+
qed

lemma hd_show_nat: "\<exists>d < 10. hd (show_nat n) = digit_char d"
proof (induction n rule: show_nat.induct)
  case (1 n)
  then show ?case
    using show_nat_nonempty [of "n div 10"] by (subst show_nat.simps) (auto simp: hd_append)
qed

text \<open>What is printed is parsed back, if it fits.\<close>

lemma parse_show: "n < 2 ^ bits \<Longrightarrow> parse_unsigned bits (show_nat n) = Some n"
proof -
  assume n: "n < 2 ^ bits"
  obtain c s where cs: "show_nat n = c # s" using show_nat_nonempty [of n] by (cases "show_nat n") auto
  from hd_show_nat [of n] cs obtain d where "d < 10" "c = digit_char d" by auto
  moreover have "digit_value (CHR ''+'') = None" by (simp add: digit_value_def Let_def)
  ultimately have "c \<noteq> CHR ''+''" using digit_value_char [of d] by auto
  then show ?thesis using n digits_value_show [of n] by (simp add: parse_unsigned_def cs Let_def)
qed

subsection \<open>\<open>Iterator::find\<close>\<close>

lemma find_None_list_ex: "find P xs = None \<longleftrightarrow> \<not> list_ex P xs"
  by (induction xs) auto

lemma find_ex_list_ex: "(\<exists>x. find P xs = Some x) \<longleftrightarrow> list_ex P xs"
  by (induction xs) auto

lemma find_Some_list_ex: "find P xs = Some x \<Longrightarrow> list_ex P xs"
  by (metis find_ex_list_ex)

subsection \<open>\<open>BTreeMap\<close>: a sorted association list\<close>

type_synonym ('k, 'v) btree_map = "('k \<times> 'v) list"

fun bt_insert :: "'k::linorder \<Rightarrow> 'v \<Rightarrow> ('k, 'v) btree_map \<Rightarrow> ('k, 'v) btree_map" where
  "bt_insert k v [] = [(k, v)]"
| "bt_insert k v ((k', v') # m) =
     (if k < k' then (k, v) # (k', v') # m
      else if k = k' then (k, v) # m
      else (k', v') # bt_insert k v m)"

definition bt_remove :: "'k \<Rightarrow> ('k, 'v) btree_map \<Rightarrow> ('k, 'v) btree_map" where
  "bt_remove k m = filter (\<lambda>(k', v). k' \<noteq> k) m"

definition bt_get :: "('k, 'v) btree_map \<Rightarrow> 'k \<Rightarrow> 'v option" where
  "bt_get m k = map_of m k"

definition bt_values :: "('k, 'v) btree_map \<Rightarrow> 'v list" where
  "bt_values m = map snd m"

definition bt_sorted :: "('k::linorder, 'v) btree_map \<Rightarrow> bool" where
  "bt_sorted m \<longleftrightarrow> sorted_wrt (<) (map fst m)"

text \<open>The interface the clients rely on, and its interpretation on the list.\<close>

locale ordered_map =
  fixes empty :: "'m"
    and insert :: "'k \<Rightarrow> 'v \<Rightarrow> 'm \<Rightarrow> 'm"
    and remove :: "'k \<Rightarrow> 'm \<Rightarrow> 'm"
    and get :: "'m \<Rightarrow> 'k \<Rightarrow> 'v option"
  assumes get_empty: "get empty k = None"
    and get_insert: "get (insert k v m) = (get m)(k \<mapsto> v)"
    and get_remove: "get (remove k m) = (get m)(k := None)"
begin

lemma get_insert_same: "get (insert k v m) k = Some v"
  by (simp add: get_insert)

lemma get_insert_other: "k' \<noteq> k \<Longrightarrow> get (insert k v m) k' = get m k'"
  by (simp add: get_insert)

lemma get_remove_same: "get (remove k m) k = None"
  by (simp add: get_remove)

lemma dom_insert_map: "dom (get (insert k v m)) = {k} \<union> dom (get m)"
  by (auto simp: get_insert)

lemma remove_insert_fresh: "get m k = None \<Longrightarrow> get (remove k (insert k v m)) = get m"
  by (auto simp: get_insert get_remove)

end

lemma map_of_bt_insert: "map_of (bt_insert k v m) = (map_of m)(k \<mapsto> v)"
  by (induction k v m rule: bt_insert.induct) (auto simp: fun_eq_iff)

lemma map_of_bt_remove: "map_of (bt_remove k m) = (map_of m)(k := None)"
  by (induction m) (auto simp: bt_remove_def fun_eq_iff)

interpretation bt: ordered_map "[] :: ('k::linorder, 'v) btree_map" bt_insert bt_remove bt_get
  by unfold_locales (simp_all add: bt_get_def fun_eq_iff map_of_bt_insert map_of_bt_remove)

lemmas bt_get_laws [btree, simp] =
  bt.get_empty bt.get_insert bt.get_remove

lemma bt_get_Nil [simp]: "bt_get [] = Map.empty"
  by (simp add: bt_get_def fun_eq_iff)

lemma set_bt_insert_subset: "set (bt_insert k v m) \<subseteq> insert (k, v) (set m)"
  by (induction k v m rule: bt_insert.induct) auto

lemma set_bt_insert_memb: "(k, v) \<in> set (bt_insert k v m)"
  by (induction k v m rule: bt_insert.induct) auto

lemma keys_bt_insert: "fst ` set (bt_insert k v m) = insert k (fst ` set m)"
  by (induction k v m rule: bt_insert.induct) auto

lemma bt_sorted_empty [simp, intro]: "bt_sorted []"
  by (simp add: bt_sorted_def)

lemma bt_sorted_insert [intro]: "bt_sorted m \<Longrightarrow> bt_sorted (bt_insert k v m)"
proof (induction k v m rule: bt_insert.induct)
  case (2 k v k' v' m)
  have keys: "fst ` set (bt_insert k v m) = insert k (fst ` set m)"
    by (rule keys_bt_insert)
  show ?case
  proof (cases "k' < k")
    case True
    with "2.prems" "2.IH" have "bt_sorted (bt_insert k v m)"
      by (auto simp: bt_sorted_def)
    moreover have "\<forall>x \<in> fst ` set (bt_insert k v m). k' < x"
      using True "2.prems" keys by (auto simp: bt_sorted_def)
    ultimately show ?thesis using True by (auto simp: bt_sorted_def)
  next
    case False
    with "2.prems" show ?thesis by (auto simp: bt_sorted_def)
  qed
qed (simp add: bt_sorted_def)

lemma bt_sorted_remove [intro]: "bt_sorted m \<Longrightarrow> bt_sorted (bt_remove k m)"
proof (induction m)
  case (Cons a m)
  then show ?case by (cases a) (auto simp: bt_sorted_def bt_remove_def)
qed (simp add: bt_remove_def)

lemma bt_sorted_distinct: "bt_sorted m \<Longrightarrow> distinct (map fst m)"
  by (induction m) (auto simp: bt_sorted_def)

lemma bt_get_in_set: "bt_get m k = Some v \<Longrightarrow> (k, v) \<in> set m"
  by (auto simp: bt_get_def dest: map_of_SomeD)

lemma bt_get_iff: "bt_sorted m \<Longrightarrow> bt_get m k = Some v \<longleftrightarrow> (k, v) \<in> set m"
  using bt_sorted_distinct [of m] by (simp add: bt_get_def)

text \<open>A key above all others goes to the end, so iteration order is insertion order.\<close>

lemma bt_insert_append: "\<forall>k' \<in> fst ` set m. k' < k \<Longrightarrow> bt_insert k v m = m @ [(k, v)]"
  by (induction k v m rule: bt_insert.induct) auto

subsection \<open>First match in a list\<close>

lemma find_Some_split:
  "find P xs = Some x \<longleftrightarrow>
     (\<exists>ys zs. xs = ys @ x # zs \<and> P x \<and> (\<forall>y \<in> set ys. \<not> P y))"
proof (induction xs)
  case (Cons a xs)
  show ?case
  proof (cases "P a")
    case True
    then show ?thesis by (auto simp: Cons_eq_append_conv)
  next
    case False
    with Cons.IH show ?thesis
      by (auto simp: Cons_eq_append_conv) (metis append_Cons list.set_intros set_ConsD)+
  qed
qed simp

lemma find_SomeD: "find P xs = Some x \<Longrightarrow> x \<in> set xs \<and> P x"
  by (auto simp: find_Some_iff)

lemma find_append: "find P (xs @ ys) = (case find P xs of Some x \<Rightarrow> Some x | None \<Rightarrow> find P ys)"
  by (induction xs) auto

text \<open>When no two elements satisfy the predicate, the search finds the one that does.\<close>

lemma find_unique:
  assumes "sorted_wrt (\<lambda>x y. \<not> (P x \<and> P y)) xs" "x \<in> set xs" "P x"
  shows "find P xs = Some x"
  using assms by (induction xs) auto

lemma filter_at_most_one:
  "sorted_wrt (\<lambda>x y. \<not> (P x \<and> P y)) xs \<Longrightarrow> length (filter P xs) \<le> 1"
proof (induction xs)
  case (Cons x xs)
  then have "filter P xs = []" if "P x" using that by (auto simp: filter_empty_conv)
  with Cons show ?case by (cases "P x") simp_all
qed simp

lemma find_snoc_hit: "P x \<Longrightarrow> find P (xs @ [x]) \<noteq> None"
  by (auto simp: find_None_iff)

lemma find_filter_irrelevant:
  assumes "\<And>x. x \<in> set xs \<Longrightarrow> \<not> Q x \<Longrightarrow> \<not> P x"
  shows "find P (filter Q xs) = find P xs"
  using assms by (induction xs) auto

end
