(* ===== verification/Mm.thy ===== *)
theory Mm
  imports Prelude
begin

text \<open>
  The guest memory model of \<open>hyper-mm\<close>: the in-memory nested page table, the
  page zeroizer, the enforcing wrapper \<open>NestedPageTable\<close>, the memory quota, the MMIO
  trap registry and the guest memory map. The trait \<open>Npt\<close> is a record of operations
  \<open>npt_ops\<close>, so that the wrapper is generic in the table it wraps, as in the code; the
  locale \<open>npt\<close> states what an implementation promises, and it is interpreted on the
  in-memory table and on the wrapper around it.
\<close>

subsection \<open>Addresses, permissions, regions and ranges\<close>

type_synonym gpa = u64
type_synonym hpa = u64
type_synonym vm_id = string

definition PAGE_SIZE :: u64 where "PAGE_SIZE = 4096"

definition MM_SCHEMA_VERSION :: u32 where "MM_SCHEMA_VERSION = 1"

record perms =
  perm_r :: bool
  perm_w :: bool
  perm_x :: bool

definition perms_RO :: perms where "perms_RO = \<lparr>perm_r = True, perm_w = False, perm_x = False\<rparr>"
definition perms_RW :: perms where "perms_RW = \<lparr>perm_r = True, perm_w = True, perm_x = False\<rparr>"
definition perms_RX :: perms where "perms_RX = \<lparr>perm_r = True, perm_w = False, perm_x = True\<rparr>"

definition is_write_execute :: "perms \<Rightarrow> bool" where
  "is_write_execute p \<longleftrightarrow> perm_w p \<and> perm_x p"

datatype region_kind = GuestRam | GuestRom | MmioTrap | SharedVirtioRing | GuardPage

record guest_memory_region =
  gpa_start :: gpa
  region_len :: u64
  region_kind :: region_kind
  region_perms :: perms

definition gpa_end :: "guest_memory_region \<Rightarrow> u64" where
  "gpa_end r = sat_add (gpa_start r) (region_len r)"

record guest_phys_range =
  gr_start :: gpa
  gr_len :: u64

record host_phys_range =
  hr_start :: hpa
  hr_len :: u64

definition hr_end :: "host_phys_range \<Rightarrow> u64" where
  "hr_end r = sat_add (hr_start r) (hr_len r)"

definition hr_overlaps :: "host_phys_range \<Rightarrow> host_phys_range \<Rightarrow> bool" where
  "hr_overlaps r s \<longleftrightarrow> hr_start r < hr_end s \<and> hr_start s < hr_end r"

datatype mm_error =
    ZeroLength
  | WriteExecuteForbidden
  | OverlapsReservedHostRange
  | PageNotZeroed
  | PagePoisoned
  | UnknownMapping u64
  | QuotaExceeded u64 u64

subsection \<open>The page-table trait and the in-memory implementation\<close>

record npt_mapping =
  m_id :: u64
  m_gpa :: gpa
  m_hpa :: hpa
  m_len :: u64
  m_perms :: perms

record 'n npt_ops =
  op_map :: "'n \<Rightarrow> gpa \<Rightarrow> hpa \<Rightarrow> u64 \<Rightarrow> perms \<Rightarrow> 'n \<times> (mm_error + u64)"
  op_unmap :: "'n \<Rightarrow> u64 \<Rightarrow> 'n \<times> (mm_error + unit)"
  op_translate :: "'n \<Rightarrow> gpa \<Rightarrow> hpa option"

record in_memory_npt =
  npt_next_id :: u64
  npt_mappings :: "(u64, npt_mapping) btree_map"

definition in_memory_new :: in_memory_npt where
  "in_memory_new = \<lparr>npt_next_id = 0, npt_mappings = []\<rparr>"

definition in_memory_mappings :: "in_memory_npt \<Rightarrow> npt_mapping list" where
  "in_memory_mappings n = bt_values (npt_mappings n)"

definition in_memory_len :: "in_memory_npt \<Rightarrow> nat" where
  "in_memory_len n = length (npt_mappings n)"

definition in_memory_is_empty :: "in_memory_npt \<Rightarrow> bool" where
  "in_memory_is_empty n \<longleftrightarrow> npt_mappings n = []"

definition in_memory_map ::
  "in_memory_npt \<Rightarrow> gpa \<Rightarrow> hpa \<Rightarrow> u64 \<Rightarrow> perms \<Rightarrow> in_memory_npt \<times> (mm_error + u64)" where
  "in_memory_map n gpa hpa len p =
     (if len = 0 then (n, Err ZeroLength)
      else let mid = npt_next_id n in
        (n\<lparr>npt_next_id := npt_next_id n + 1,
           npt_mappings := bt_insert mid \<lparr>m_id = mid, m_gpa = gpa, m_hpa = hpa, m_len = len, m_perms = p\<rparr>
                             (npt_mappings n)\<rparr>,
         Ok mid))"

definition in_memory_unmap :: "in_memory_npt \<Rightarrow> u64 \<Rightarrow> in_memory_npt \<times> (mm_error + unit)" where
  "in_memory_unmap n mid =
     (n\<lparr>npt_mappings := bt_remove mid (npt_mappings n)\<rparr>,
      case bt_get (npt_mappings n) mid of Some _ \<Rightarrow> Ok () | None \<Rightarrow> Err (UnknownMapping mid))"

definition mapping_covers :: "gpa \<Rightarrow> npt_mapping \<Rightarrow> bool" where
  "mapping_covers g m \<longleftrightarrow> m_gpa m \<le> g \<and> g < sat_add (m_gpa m) (m_len m)"

fun translate_scan :: "npt_mapping list \<Rightarrow> gpa \<Rightarrow> hpa option" where
  "translate_scan [] g = None"
| "translate_scan (m # ms) g =
     (let start = m_gpa m; end = sat_add start (m_len m) in
      if start \<le> g \<and> g < end then
        let off = g - start in Some (sat_add (m_hpa m) off)
      else translate_scan ms g)"

definition in_memory_translate :: "in_memory_npt \<Rightarrow> gpa \<Rightarrow> hpa option" where
  "in_memory_translate n g = translate_scan (bt_values (npt_mappings n)) g"

definition in_memory_ops :: "in_memory_npt npt_ops" where
  "in_memory_ops = \<lparr>op_map = in_memory_map, op_unmap = in_memory_unmap,
                    op_translate = in_memory_translate\<rparr>"

lemma in_memory_ops_simps [simp]:
  "op_map in_memory_ops = in_memory_map"
  "op_unmap in_memory_ops = in_memory_unmap"
  "op_translate in_memory_ops = in_memory_translate"
  by (simp_all add: in_memory_ops_def)

subsection \<open>The page zeroizer\<close>

datatype page_state = Zeroed | Assigned | Poisoned

text \<open>
  Only lookups and insertions by frame number are made on \<open>frames\<close>, so it is a map.
\<close>

record page_zeroizer =
  frames :: "u64 \<rightharpoonup> page_state"

definition zeroizer_new :: page_zeroizer where
  "zeroizer_new = \<lparr>frames = Map.empty\<rparr>"

definition frame_range :: "u64 \<Rightarrow> u64 \<Rightarrow> u64 \<times> u64" where
  "frame_range start len = (start div PAGE_SIZE, sat_add start (len - 1) div PAGE_SIZE)"

text \<open>The frames of the loop \<open>for f in first..=last\<close>, in order.\<close>

definition frame_list :: "u64 \<Rightarrow> u64 \<Rightarrow> u64 list" where
  "frame_list start len =
     (let (first, last) = frame_range start len in
      map word_of_nat [unat first ..< Suc (unat last)])"

definition set_frames :: "page_state \<Rightarrow> u64 list \<Rightarrow> (u64 \<rightharpoonup> page_state) \<Rightarrow> (u64 \<rightharpoonup> page_state)" where
  "set_frames s fs m = fold (\<lambda>f m. m(f \<mapsto> s)) fs m"

definition mark_zeroed :: "page_zeroizer \<Rightarrow> hpa \<Rightarrow> u64 \<Rightarrow> page_zeroizer" where
  "mark_zeroed z hpa len =
     (if len = 0 then z else z\<lparr>frames := set_frames Zeroed (frame_list hpa len) (frames z)\<rparr>)"

definition zeroizer_state :: "page_zeroizer \<Rightarrow> hpa \<Rightarrow> page_state option" where
  "zeroizer_state z hpa = frames z (hpa div PAGE_SIZE)"

definition is_zeroed :: "page_zeroizer \<Rightarrow> hpa \<Rightarrow> u64 \<Rightarrow> bool" where
  "is_zeroed z hpa len =
     (if len = 0 then False
      else list_all (\<lambda>f. frames z f = Some Zeroed) (frame_list hpa len))"

fun check_frames :: "(u64 \<rightharpoonup> page_state) \<Rightarrow> u64 list \<Rightarrow> mm_error + unit" where
  "check_frames m [] = Ok ()"
| "check_frames m (f # fs) =
     (case m f of
        Some Zeroed \<Rightarrow> check_frames m fs
      | Some Poisoned \<Rightarrow> Err PagePoisoned
      | _ \<Rightarrow> Err PageNotZeroed)"

definition zeroizer_assign :: "page_zeroizer \<Rightarrow> hpa \<Rightarrow> u64 \<Rightarrow> page_zeroizer \<times> (mm_error + unit)" where
  "zeroizer_assign z hpa len =
     (if len = 0 then (z, Err ZeroLength)
      else case check_frames (frames z) (frame_list hpa len) of
             Inl e \<Rightarrow> (z, Err e)
           | Inr _ \<Rightarrow> (z\<lparr>frames := set_frames Assigned (frame_list hpa len) (frames z)\<rparr>, Ok ()))"

definition zeroizer_poison :: "page_zeroizer \<Rightarrow> hpa \<Rightarrow> u64 \<Rightarrow> page_zeroizer" where
  "zeroizer_poison z hpa len =
     (if len = 0 then z else z\<lparr>frames := set_frames Poisoned (frame_list hpa len) (frames z)\<rparr>)"

subsection \<open>The enforcing wrapper\<close>

record 'n nested_page_table =
  nt_npt :: 'n
  nt_reserved_host :: "host_phys_range option"
  nt_zeroizer :: page_zeroizer
  nt_records :: "(u64, npt_mapping) btree_map"

definition nested_new :: "'n \<Rightarrow> 'n nested_page_table" where
  "nested_new n = \<lparr>nt_npt = n, nt_reserved_host = None, nt_zeroizer = zeroizer_new, nt_records = []\<rparr>"

definition with_reserved_host_range :: "'n \<Rightarrow> host_phys_range \<Rightarrow> 'n nested_page_table" where
  "with_reserved_host_range n r = (nested_new n)\<lparr>nt_reserved_host := Some r\<rparr>"

definition set_reserved_host_range ::
  "'n nested_page_table \<Rightarrow> host_phys_range \<Rightarrow> 'n nested_page_table" where
  "set_reserved_host_range t r = t\<lparr>nt_reserved_host := Some r\<rparr>"

definition mapping_host_range :: "npt_mapping \<Rightarrow> host_phys_range" where
  "mapping_host_range m = \<lparr>hr_start = m_hpa m, hr_len = m_len m\<rparr>"

definition maps_host_hypervisor_text :: "'n nested_page_table \<Rightarrow> bool" where
  "maps_host_hypervisor_text t =
     (case nt_reserved_host t of
        Some r \<Rightarrow> list_ex (\<lambda>m. hr_overlaps (mapping_host_range m) r) (bt_values (nt_records t))
      | None \<Rightarrow> False)"

definition has_writable_executable_pages :: "'n nested_page_table \<Rightarrow> bool" where
  "has_writable_executable_pages t =
     list_ex (\<lambda>m. is_write_execute (m_perms m)) (bt_values (nt_records t))"

definition enforce :: "'n nested_page_table \<Rightarrow> hpa \<Rightarrow> u64 \<Rightarrow> perms \<Rightarrow> mm_error + unit" where
  "enforce t hpa len p =
     (if len = 0 then Err ZeroLength
      else if is_write_execute p then Err WriteExecuteForbidden
      else case nt_reserved_host t of
             Some r \<Rightarrow>
               if hr_overlaps \<lparr>hr_start = hpa, hr_len = len\<rparr> r
               then Err OverlapsReservedHostRange else Ok ()
           | None \<Rightarrow> Ok ())"

definition nested_map ::
  "'n npt_ops \<Rightarrow> 'n nested_page_table \<Rightarrow> gpa \<Rightarrow> hpa \<Rightarrow> u64 \<Rightarrow> perms
     \<Rightarrow> 'n nested_page_table \<times> (mm_error + u64)" where
  "nested_map ops t gpa hpa len p =
     (case enforce t hpa len p of
        Inl e \<Rightarrow> (t, Err e)
      | Inr _ \<Rightarrow>
          (case zeroizer_assign (nt_zeroizer t) hpa len of
             (z, Inl e) \<Rightarrow> (t\<lparr>nt_zeroizer := z\<rparr>, Err e)
           | (z, Inr _) \<Rightarrow>
               (case op_map ops (nt_npt t) gpa hpa len p of
                  (n, Inl e) \<Rightarrow> (t\<lparr>nt_zeroizer := z, nt_npt := n\<rparr>, Err e)
                | (n, Inr mid) \<Rightarrow>
                    (t\<lparr>nt_zeroizer := z, nt_npt := n,
                       nt_records := bt_insert mid
                         \<lparr>m_id = mid, m_gpa = gpa, m_hpa = hpa, m_len = len, m_perms = p\<rparr>
                         (nt_records t)\<rparr>,
                     Ok mid))))"

definition nested_unmap ::
  "'n npt_ops \<Rightarrow> 'n nested_page_table \<Rightarrow> u64 \<Rightarrow> 'n nested_page_table \<times> (mm_error + unit)" where
  "nested_unmap ops t mid =
     (case op_unmap ops (nt_npt t) mid of
        (n, Inl e) \<Rightarrow> (t\<lparr>nt_npt := n\<rparr>, Err e)
      | (n, Inr _) \<Rightarrow>
          (case bt_get (nt_records t) mid of
             Some m \<Rightarrow>
               (t\<lparr>nt_npt := n, nt_records := bt_remove mid (nt_records t),
                  nt_zeroizer := zeroizer_poison (nt_zeroizer t) (m_hpa m) (m_len m)\<rparr>, Ok ())
           | None \<Rightarrow> (t\<lparr>nt_npt := n\<rparr>, Ok ())))"

definition nested_translate :: "'n npt_ops \<Rightarrow> 'n nested_page_table \<Rightarrow> gpa \<Rightarrow> hpa option" where
  "nested_translate ops t g = op_translate ops (nt_npt t) g"

definition nested_ops :: "'n npt_ops \<Rightarrow> 'n nested_page_table npt_ops" where
  "nested_ops ops = \<lparr>op_map = nested_map ops, op_unmap = nested_unmap ops,
                     op_translate = nested_translate ops\<rparr>"

record allocation_record =
  guest_physical_range :: guest_phys_range
  host_physical_range :: host_phys_range
  npt_mapping_id :: u64
  owner_vm_id :: vm_id
  zeroed_before_assign :: bool

definition allocate ::
  "'n npt_ops \<Rightarrow> 'n nested_page_table \<Rightarrow> vm_id \<Rightarrow> gpa \<Rightarrow> hpa \<Rightarrow> u64 \<Rightarrow> perms
     \<Rightarrow> 'n nested_page_table \<times> (mm_error + allocation_record)" where
  "allocate ops t owner gpa hpa len p =
     (case enforce t hpa len p of
        Inl e \<Rightarrow> (t, Err e)
      | Inr _ \<Rightarrow>
          (case nested_map ops (t\<lparr>nt_zeroizer := mark_zeroed (nt_zeroizer t) hpa len\<rparr>) gpa hpa len p of
             (t', Inl e) \<Rightarrow> (t', Err e)
           | (t', Inr mid) \<Rightarrow>
               (t', Ok \<lparr>guest_physical_range = \<lparr>gr_start = gpa, gr_len = len\<rparr>,
                        host_physical_range = \<lparr>hr_start = hpa, hr_len = len\<rparr>,
                        npt_mapping_id = mid, owner_vm_id = owner,
                        zeroed_before_assign = True\<rparr>)))"

subsection \<open>Memory quota\<close>

record memory_quota_manager =
  max_mb :: u64
  used_mb :: u64

definition quota_new :: "u64 \<Rightarrow> memory_quota_manager" where
  "quota_new m = \<lparr>max_mb = m, used_mb = 0\<rparr>"

definition available_mb :: "memory_quota_manager \<Rightarrow> u64" where
  "available_mb q = sat_sub (max_mb q) (used_mb q)"

definition try_reserve :: "memory_quota_manager \<Rightarrow> u64 \<Rightarrow> memory_quota_manager \<times> (mm_error + unit)" where
  "try_reserve q mb =
     (let available = available_mb q in
      if available < mb then (q, Err (QuotaExceeded mb available))
      else (q\<lparr>used_mb := used_mb q + mb\<rparr>, Ok ()))"

definition quota_release :: "memory_quota_manager \<Rightarrow> u64 \<Rightarrow> memory_quota_manager" where
  "quota_release q mb = q\<lparr>used_mb := sat_sub (used_mb q) mb\<rparr>"

subsection \<open>MMIO traps and the guest memory map\<close>

record mmio_trap_range =
  trap_range :: guest_phys_range
  trap_device :: string

type_synonym mmio_trap_registry = "mmio_trap_range list"

definition trap_register :: "mmio_trap_registry \<Rightarrow> guest_phys_range \<Rightarrow> string \<Rightarrow> mmio_trap_registry" where
  "trap_register ts r dev = ts @ [\<lparr>trap_range = r, trap_device = dev\<rparr>]"

definition trap_lookup :: "mmio_trap_registry \<Rightarrow> gpa \<Rightarrow> mmio_trap_range option" where
  "trap_lookup ts g =
     find (\<lambda>t. let start = gr_start (trap_range t); end = sat_add start (gr_len (trap_range t)) in
               start \<le> g \<and> g < end) ts"

record guest_memory_map =
  gm_schema_version :: u32
  gm_vm_id :: vm_id
  gm_regions :: "guest_memory_region list"
  gm_npt_root :: u64
  gm_mmio_traps :: mmio_trap_registry

definition memory_map_new :: "vm_id \<Rightarrow> u64 \<Rightarrow> guest_memory_map" where
  "memory_map_new vm root =
     \<lparr>gm_schema_version = MM_SCHEMA_VERSION, gm_vm_id = vm, gm_regions = [],
      gm_npt_root = root, gm_mmio_traps = []\<rparr>"

definition add_region :: "guest_memory_map \<Rightarrow> guest_memory_region \<Rightarrow> string \<Rightarrow> guest_memory_map" where
  "add_region g r dev =
     (let g' = (if region_kind r = MmioTrap
                then g\<lparr>gm_mmio_traps := trap_register (gm_mmio_traps g)
                         \<lparr>gr_start = gpa_start r, gr_len = region_len r\<rparr> dev\<rparr>
                else g)
      in g'\<lparr>gm_regions := gm_regions g' @ [r]\<rparr>)"

definition region_at :: "guest_memory_map \<Rightarrow> gpa \<Rightarrow> guest_memory_region option" where
  "region_at g a = find (\<lambda>r. gpa_start r \<le> a \<and> a < gpa_end r) (gm_regions g)"

subsection \<open>Frames: the closed form of the loops\<close>

lemma set_frames_apply [guards]:
  "set_frames s fs m f = (if f \<in> set fs then Some s else m f)"
  unfolding set_frames_def by (induction fs arbitrary: m) auto

lemma set_frame_list:
  "set (frame_list h len) =
     {f. h div PAGE_SIZE \<le> f \<and> f \<le> sat_add h (len - 1) div PAGE_SIZE}"
proof -
  show ?thesis
    by (simp add: frame_list_def frame_range_def atLeastLessThanSuc_atLeastAtMost
        word_of_nat_image del: upt_Suc)
qed

lemma first_frame_memb: "h div PAGE_SIZE \<in> set (frame_list h len)"
  by (simp add: set_frame_list word_div_le_mono)

lemma check_frames_Ok_iff [guards]:
  "check_frames m fs = Ok u \<longleftrightarrow> (\<forall>f \<in> set fs. m f = Some Zeroed)"
  by (induction fs) (auto split: option.splits page_state.splits)

lemma check_frames_poisoned:
  assumes "\<forall>f \<in> set fs. m f = Some Poisoned" "fs \<noteq> []"
  shows "check_frames m fs = Err PagePoisoned"
  using assms by (cases fs) auto

lemma frames_mark_zeroed:
  "frames (mark_zeroed z h len) f =
     (if len \<noteq> 0 \<and> f \<in> set (frame_list h len) then Some Zeroed else frames z f)"
  by (simp add: mark_zeroed_def set_frames_apply)

lemma frames_zeroizer_poison:
  "frames (zeroizer_poison z h len) f =
     (if len \<noteq> 0 \<and> f \<in> set (frame_list h len) then Some Poisoned else frames z f)"
  by (simp add: zeroizer_poison_def set_frames_apply)

lemma is_zeroed_iff:
  "is_zeroed z h len \<longleftrightarrow> len \<noteq> 0 \<and> (\<forall>f \<in> set (frame_list h len). frames z f = Some Zeroed)"
  by (simp add: is_zeroed_def list_all_iff)

text \<open>Validate and consume: assignment succeeds exactly on a zeroed range.\<close>

lemma zeroizer_assign_cases:
  obtains (ok) z' where "zeroizer_assign z h len = (z', Ok ())" "is_zeroed z h len"
      "frames z' = set_frames Assigned (frame_list h len) (frames z)"
  | (fail) e where "zeroizer_assign z h len = (z, Err e)" "\<not> is_zeroed z h len"
proof (cases "is_zeroed z h len")
  case True
  then have "len \<noteq> 0" "check_frames (frames z) (frame_list h len) = Ok ()"
    by (simp_all add: is_zeroed_iff check_frames_Ok_iff)
  then show thesis
    using ok [of "z\<lparr>frames := set_frames Assigned (frame_list h len) (frames z)\<rparr>"] True
    by (simp add: zeroizer_assign_def)
next
  case False
  show thesis
  proof (cases "len = 0")
    case True
    then show thesis using fail [of ZeroLength] False by (simp add: zeroizer_assign_def)
  next
    case nz: False
    with False have "check_frames (frames z) (frame_list h len) \<noteq> Ok ()"
      by (auto simp: is_zeroed_iff check_frames_Ok_iff)
    then obtain e where "check_frames (frames z) (frame_list h len) = Err e"
      by (cases "check_frames (frames z) (frame_list h len)") auto
    then show thesis using fail [of e] nz False by (simp add: zeroizer_assign_def)
  qed
qed

lemma is_zeroed_mark_zeroed: "len \<noteq> 0 \<Longrightarrow> is_zeroed (mark_zeroed z h len) h len"
  by (simp add: is_zeroed_iff frames_mark_zeroed)

lemma assign_after_poison:
  assumes "len \<noteq> 0"
  shows "zeroizer_assign (zeroizer_poison z h len) h len
         = (zeroizer_poison z h len, Err PagePoisoned)"
proof -
  have "check_frames (frames (zeroizer_poison z h len)) (frame_list h len) = Err PagePoisoned"
    using assms first_frame_memb [of h len]
    by (intro check_frames_poisoned) (auto simp: frames_zeroizer_poison)
  with assms show ?thesis by (simp add: zeroizer_assign_def)
qed

subsection \<open>Guards of the wrapper\<close>

definition map_allowed :: "'n nested_page_table \<Rightarrow> hpa \<Rightarrow> u64 \<Rightarrow> perms \<Rightarrow> bool" where
  "map_allowed t hpa len p \<longleftrightarrow>
     len \<noteq> 0 \<and> \<not> is_write_execute p \<and>
     (\<forall>r. nt_reserved_host t = Some r \<longrightarrow> \<not> hr_overlaps \<lparr>hr_start = hpa, hr_len = len\<rparr> r)"

lemma enforce_Ok_iff [guards]: "enforce t h len p = Ok u \<longleftrightarrow> map_allowed t h len p"
  by (auto simp: enforce_def map_allowed_def split: option.splits)

lemma enforce_cases:
  obtains (ok) "enforce t h len p = Ok ()" "map_allowed t h len p"
  | (fail) e where "enforce t h len p = Err e" "\<not> map_allowed t h len p"
proof (cases "enforce t h len p")
  case (Inl e)
  then show thesis using fail [of e] enforce_Ok_iff [of t h len p "()"] by simp
next
  case (Inr u)
  then show thesis using ok enforce_Ok_iff [of t h len p u] by simp
qed

lemma enforce_zeroizer [simp]: "enforce (t\<lparr>nt_zeroizer := z\<rparr>) h len p = enforce t h len p"
  by (simp add: enforce_def)

subsection \<open>What a page table promises\<close>

text \<open>
  \<open>contents\<close> is the abstract table: the mapping stored under each id. The laws are
  those the wrapper relies on; \<open>permissive_npt\<close> adds that a non-empty mapping is
  never refused.
\<close>

definition new_mapping :: "u64 \<Rightarrow> gpa \<Rightarrow> hpa \<Rightarrow> u64 \<Rightarrow> perms \<Rightarrow> npt_mapping" where
  "new_mapping i g h l p = \<lparr>m_id = i, m_gpa = g, m_hpa = h, m_len = l, m_perms = p\<rparr>"

lemma new_mapping_sel [simp]:
  "m_id (new_mapping i g h l p) = i" "m_gpa (new_mapping i g h l p) = g"
  "m_hpa (new_mapping i g h l p) = h" "m_len (new_mapping i g h l p) = l"
  "m_perms (new_mapping i g h l p) = p"
  by (simp_all add: new_mapping_def)

locale npt =
  fixes ops :: "'n npt_ops"
    and inv :: "'n \<Rightarrow> bool"
    and contents :: "'n \<Rightarrow> u64 \<rightharpoonup> npt_mapping"
  assumes map_Ok: "inv n \<Longrightarrow> op_map ops n g h l p = (n', Ok i) \<Longrightarrow>
        l \<noteq> 0 \<and> inv n' \<and> contents n' = (contents n)(i \<mapsto> new_mapping i g h l p)"
    and map_Err: "inv n \<Longrightarrow> op_map ops n g h l p = (n', Err e) \<Longrightarrow>
        inv n' \<and> contents n' = contents n"
    and unmap_law: "inv n \<Longrightarrow> op_unmap ops n i = (n', r) \<Longrightarrow>
        inv n' \<and> contents n' = (contents n)(i := None) \<and> (is_ok r \<longleftrightarrow> contents n i \<noteq> None)"
    and translate_None: "inv n \<Longrightarrow>
        op_translate ops n a = None \<longleftrightarrow> (\<forall>m \<in> ran (contents n). \<not> mapping_covers a m)"
    and translate_Some: "inv n \<Longrightarrow> op_translate ops n a = Some h \<Longrightarrow>
        \<exists>m \<in> ran (contents n). mapping_covers a m \<and> h = sat_add (m_hpa m) (a - m_gpa m)"

locale permissive_npt = npt +
  assumes map_total: "inv n \<Longrightarrow> l \<noteq> 0 \<Longrightarrow> \<exists>n' i. op_map ops n g h l p = (n', Ok i)"

text \<open>The wrapper's own invariant, and what it guarantees of every stored mapping.\<close>

definition nested_agrees :: "('n \<Rightarrow> u64 \<rightharpoonup> npt_mapping) \<Rightarrow> 'n nested_page_table \<Rightarrow> bool" where
  "nested_agrees contents t \<longleftrightarrow>
     bt_sorted (nt_records t) \<and> bt_get (nt_records t) = contents (nt_npt t)"

definition mapping_legal :: "'n nested_page_table \<Rightarrow> npt_mapping \<Rightarrow> bool" where
  "mapping_legal t m \<longleftrightarrow> map_allowed t (m_hpa m) (m_len m) (m_perms m)"

definition nested_sound :: "('n \<Rightarrow> u64 \<rightharpoonup> npt_mapping) \<Rightarrow> 'n nested_page_table \<Rightarrow> bool" where
  "nested_sound contents t \<longleftrightarrow>
     nested_agrees contents t \<and> (\<forall>m \<in> ran (contents (nt_npt t)). mapping_legal t m)"

lemma mapping_legal_cong:
  "nt_reserved_host t' = nt_reserved_host t \<Longrightarrow> mapping_legal t' m = mapping_legal t m"
  by (simp add: mapping_legal_def map_allowed_def)

lemma ran_updD: "m \<in> ran (f(i \<mapsto> v)) \<Longrightarrow> m = v \<or> m \<in> ran f"
  by (auto simp: ran_def split: if_splits)

lemma ran_removeD: "m \<in> ran (f(i := None)) \<Longrightarrow> m \<in> ran f"
  by (auto simp: ran_def split: if_splits)

lemma nested_sound_no_text:
  assumes "nested_sound contents t"
  shows "\<not> maps_host_hypervisor_text t" "\<not> has_writable_executable_pages t"
proof -
  have legal: "mapping_legal t m" if "m \<in> set (bt_values (nt_records t))" for m
  proof -
    from that obtain i where "(i, m) \<in> set (nt_records t)" by (auto simp: bt_values_def)
    moreover have "bt_sorted (nt_records t)"
      using assms by (simp add: nested_sound_def nested_agrees_def)
    ultimately have "bt_get (nt_records t) i = Some m" by (simp add: bt_get_iff)
    with assms show ?thesis
      by (auto simp: nested_sound_def nested_agrees_def ran_def)
  qed
  then show "\<not> has_writable_executable_pages t"
    by (auto simp: has_writable_executable_pages_def list_ex_iff mapping_legal_def map_allowed_def)
  from legal show "\<not> maps_host_hypervisor_text t"
    by (auto simp: maps_host_hypervisor_text_def list_ex_iff mapping_legal_def map_allowed_def
        mapping_host_range_def split: option.splits)
qed

context npt
begin

lemma nested_map_cases:
  assumes "inv (nt_npt t)"
  obtains (ok) t' i where "nested_map ops t g h l p = (t', Ok i)"
      "map_allowed t h l p" "is_zeroed (nt_zeroizer t) h l"
      "inv (nt_npt t')" "nt_reserved_host t' = nt_reserved_host t"
      "contents (nt_npt t') = (contents (nt_npt t))(i \<mapsto> new_mapping i g h l p)"
      "nt_records t' = bt_insert i (new_mapping i g h l p) (nt_records t)"
      "frames (nt_zeroizer t') = set_frames Assigned (frame_list h l) (frames (nt_zeroizer t))"
  | (guard) e where "nested_map ops t g h l p = (t, Err e)"
      "\<not> (map_allowed t h l p \<and> is_zeroed (nt_zeroizer t) h l)"
  | (inner) t' e n' where "nested_map ops t g h l p = (t', Err e)" "inv (nt_npt t')"
      "map_allowed t h l p" "is_zeroed (nt_zeroizer t) h l"
      "op_map ops (nt_npt t) g h l p = (n', Err e)"
      "nt_reserved_host t' = nt_reserved_host t" "nt_records t' = nt_records t"
      "contents (nt_npt t') = contents (nt_npt t)"
      "frames (nt_zeroizer t') = set_frames Assigned (frame_list h l) (frames (nt_zeroizer t))"
proof (cases rule: enforce_cases [of t h l p])
  case (fail e)
  then show thesis using guard [of e] by (simp add: nested_map_def)
next
  case enf: ok
  show thesis
  proof (cases rule: zeroizer_assign_cases [of "nt_zeroizer t" h l])
    case (fail e)
    then show thesis using guard [of e] enf by (simp add: nested_map_def)
  next
    case as: (ok z)
    show thesis
    proof (cases "op_map ops (nt_npt t) g h l p")
      case (Pair n r)
      show thesis
      proof (cases r)
        case (Inl e)
        with map_Err [of "nt_npt t" g h l p n e] Pair assms
        show thesis
          using inner [of "t\<lparr>nt_zeroizer := z, nt_npt := n\<rparr>" e n] enf as
          by (simp add: nested_map_def)
      next
        case (Inr i)
        with map_Ok [of "nt_npt t" g h l p n i] Pair assms
        show thesis
          using ok [of "t\<lparr>nt_zeroizer := z, nt_npt := n,
              nt_records := bt_insert i (new_mapping i g h l p) (nt_records t)\<rparr>" i] enf as
          by (simp add: nested_map_def new_mapping_def)
      qed
    qed
  qed
qed

lemma nested_unmap_cases:
  assumes "inv (nt_npt t)" "nested_agrees contents t"
  obtains (ok) t' m where "nested_unmap ops t i = (t', Ok ())"
      "bt_get (nt_records t) i = Some m" "contents (nt_npt t) i = Some m"
      "inv (nt_npt t')" "nt_reserved_host t' = nt_reserved_host t"
      "contents (nt_npt t') = (contents (nt_npt t))(i := None)"
      "nt_records t' = bt_remove i (nt_records t)"
      "nt_zeroizer t' = zeroizer_poison (nt_zeroizer t) (m_hpa m) (m_len m)"
  | (unknown) t' e where "nested_unmap ops t i = (t', Err e)"
      "bt_get (nt_records t) i = None" "inv (nt_npt t')"
      "contents (nt_npt t') = contents (nt_npt t)" "nt_records t' = nt_records t"
      "nt_zeroizer t' = nt_zeroizer t" "nt_reserved_host t' = nt_reserved_host t"
proof (cases "op_unmap ops (nt_npt t) i")
  case (Pair n r)
  with unmap_law [of "nt_npt t" i n r] assms
  have n: "inv n" "contents n = (contents (nt_npt t))(i := None)"
    "is_ok r \<longleftrightarrow> contents (nt_npt t) i \<noteq> None" by simp_all
  have rec: "bt_get (nt_records t) = contents (nt_npt t)"
    using assms by (simp add: nested_agrees_def)
  show thesis
  proof (cases r)
    case (Inl e)
    with n have "contents (nt_npt t) i = None" by simp
    with n have "contents n = contents (nt_npt t)" by (simp add: fun_upd_idem)
    with \<open>contents (nt_npt t) i = None\<close> show thesis
      using unknown [of "t\<lparr>nt_npt := n\<rparr>" e] Pair Inl n rec by (simp add: nested_unmap_def)
  next
    case (Inr u)
    with n obtain m where "contents (nt_npt t) i = Some m" by auto
    then show thesis
      using ok [of "t\<lparr>nt_npt := n, nt_records := bt_remove i (nt_records t),
          nt_zeroizer := zeroizer_poison (nt_zeroizer t) (m_hpa m) (m_len m)\<rparr>" m] Pair Inr n rec
      by (simp add: nested_unmap_def)
  qed
qed

lemma nested_map_sound:
  assumes "inv (nt_npt t)" "nested_sound contents t"
  shows "inv (nt_npt (fst (nested_map ops t g h l p)))
       \<and> nested_sound contents (fst (nested_map ops t g h l p))
       \<and> nt_reserved_host (fst (nested_map ops t g h l p)) = nt_reserved_host t"
using assms(1)
proof (cases rule: nested_map_cases [where g = g and h = h and l = l and p = p])
  case (ok t' i)
  have "mapping_legal t' m" if "m \<in> ran (contents (nt_npt t'))" for m
  proof -
    from that ok have "m = new_mapping i g h l p \<or> m \<in> ran (contents (nt_npt t))"
      by (auto dest: ran_updD)
    then show ?thesis
    proof
      assume "m = new_mapping i g h l p"
      with ok(2) have "mapping_legal t m" by (simp add: mapping_legal_def)
      then show ?thesis by (simp only: mapping_legal_cong [OF ok(5)])
    next
      assume "m \<in> ran (contents (nt_npt t))"
      with assms(2) have "mapping_legal t m" by (simp add: nested_sound_def)
      then show ?thesis by (simp only: mapping_legal_cong [OF ok(5)])
    qed
  qed
  with ok assms show ?thesis
    by (simp add: nested_sound_def nested_agrees_def bt_sorted_insert)
next
  case (inner t' e)
  with assms show ?thesis
    by (simp add: nested_sound_def nested_agrees_def mapping_legal_cong [OF inner(6)])
qed (use assms in simp)

lemma nested_unmap_sound:
  assumes "inv (nt_npt t)" "nested_sound contents t"
  shows "inv (nt_npt (fst (nested_unmap ops t i)))
       \<and> nested_sound contents (fst (nested_unmap ops t i))
       \<and> nt_reserved_host (fst (nested_unmap ops t i)) = nt_reserved_host t"
proof -
  have "nested_agrees contents t" using assms(2) by (simp add: nested_sound_def)
  with assms(1) show ?thesis
  proof (cases rule: nested_unmap_cases [where i = i])
    case (ok t' m)
    with assms(2) have "\<forall>m \<in> ran (contents (nt_npt t')). mapping_legal t m"
      by (auto simp: nested_sound_def dest: ran_removeD)
    with ok assms show ?thesis
      by (simp add: nested_sound_def nested_agrees_def bt_sorted_remove
          mapping_legal_cong [OF ok(5)])
  next
    case (unknown t' e)
    with assms show ?thesis
      by (simp add: nested_sound_def nested_agrees_def mapping_legal_cong [OF unknown(7)])
  qed
qed

lemma nested_zero_sound:
  assumes "nested_sound contents t"
  shows "nested_sound contents (t\<lparr>nt_zeroizer := z\<rparr>)"
  using assms by (simp add: nested_sound_def nested_agrees_def mapping_legal_def map_allowed_def)

end

text \<open>The wrapper around a lawful table is itself a lawful table.\<close>

locale nested_client = permissive_npt
begin

lemma nested_map_Ok_iff:
  assumes "inv (nt_npt t)"
  shows "is_ok (snd (nested_map ops t g h l p)) \<longleftrightarrow> map_allowed t h l p \<and> is_zeroed (nt_zeroizer t) h l"
  using assms
proof (cases rule: nested_map_cases [where g = g and h = h and l = l and p = p])
  case (inner t' e n')
  have "l \<noteq> 0" using inner(3) by (simp add: map_allowed_def)
  with map_total [OF assms, of l g h p] inner(5) show ?thesis by auto
qed auto

lemma allocate_Ok_iff:
  assumes "inv (nt_npt t)"
  shows "is_ok (snd (allocate ops t vm g h l p)) \<longleftrightarrow> map_allowed t h l p"
proof -
  let ?t = "t\<lparr>nt_zeroizer := mark_zeroed (nt_zeroizer t) h l\<rparr>"
  have "is_ok (snd (nested_map ops ?t g h l p)) \<longleftrightarrow> map_allowed t h l p"
    using nested_map_Ok_iff [of ?t g h l p] assms is_zeroed_mark_zeroed [of l "nt_zeroizer t" h]
    by (auto simp: map_allowed_def)
  then show ?thesis
    by (cases rule: enforce_cases [of t h l p])
       (auto simp: allocate_def split: prod.splits sum.splits)
qed

end

sublocale nested_client \<subseteq> nested: npt "nested_ops ops"
  "\<lambda>t. inv (nt_npt t) \<and> nested_agrees contents t" "\<lambda>t. contents (nt_npt t)"
proof unfold_locales
  fix t g h l p t' i
  assume "inv (nt_npt t) \<and> nested_agrees contents t"
    and op: "op_map (nested_ops ops) t g h l p = (t', Ok i)"
  then have inv: "inv (nt_npt t)" and agr: "nested_agrees contents t" by simp_all
  from op have op': "nested_map ops t g h l p = (t', Ok i)" by (simp add: nested_ops_def)
  from inv show "l \<noteq> 0 \<and> (inv (nt_npt t') \<and> nested_agrees contents t')
      \<and> contents (nt_npt t') = (contents (nt_npt t))(i \<mapsto> new_mapping i g h l p)"
  proof (cases rule: nested_map_cases [where g = g and h = h and l = l and p = p])
    case (ok u j)
    with op' agr show ?thesis
      by (simp add: nested_agrees_def map_allowed_def bt_sorted_insert)
  qed (use op' in auto)
next
  fix t g h l p t' e
  assume "inv (nt_npt t) \<and> nested_agrees contents t"
    and op: "op_map (nested_ops ops) t g h l p = (t', Err e)"
  then have inv: "inv (nt_npt t)" and agr: "nested_agrees contents t" by simp_all
  from op have op': "nested_map ops t g h l p = (t', Err e)" by (simp add: nested_ops_def)
  from inv show "(inv (nt_npt t') \<and> nested_agrees contents t')
      \<and> contents (nt_npt t') = contents (nt_npt t)"
    by (cases rule: nested_map_cases [where g = g and h = h and l = l and p = p])
       (use op' inv agr in \<open>auto simp: nested_agrees_def\<close>)
next
  fix t i t' r
  assume "inv (nt_npt t) \<and> nested_agrees contents t"
    and op: "op_unmap (nested_ops ops) t i = (t', r)"
  then have inv: "inv (nt_npt t)" and agr: "nested_agrees contents t" by simp_all
  from op have op': "nested_unmap ops t i = (t', r)" by (simp add: nested_ops_def)
  from inv agr show "(inv (nt_npt t') \<and> nested_agrees contents t')
      \<and> contents (nt_npt t') = (contents (nt_npt t))(i := None)
      \<and> (is_ok r \<longleftrightarrow> contents (nt_npt t) i \<noteq> None)"
  proof (cases rule: nested_unmap_cases [where i = i])
    case (ok u m)
    with op' agr show ?thesis by (auto simp: nested_agrees_def bt_sorted_remove)
  next
    case (unknown u e)
    with op' agr have "contents (nt_npt t) i = None" by (simp add: nested_agrees_def)
    with unknown op' agr show ?thesis by (simp add: nested_agrees_def fun_upd_idem)
  qed
qed (auto simp: nested_ops_def nested_translate_def translate_None dest: translate_Some)

subsection \<open>The in-memory table keeps the promise\<close>

lemma translate_scan_find:
  "translate_scan ms a = map_option (\<lambda>m. sat_add (m_hpa m) (a - m_gpa m)) (find (mapping_covers a) ms)"
  by (induction ms) (auto simp: mapping_covers_def Let_def)

lemma ran_bt_get: "bt_sorted m \<Longrightarrow> ran (bt_get m) = set (bt_values m)"
  by (force simp: ran_def bt_get_iff bt_values_def)

lemma in_memory_translate_None:
  "bt_sorted (npt_mappings n) \<Longrightarrow> in_memory_translate n a = None \<longleftrightarrow>
     (\<forall>m \<in> ran (bt_get (npt_mappings n)). \<not> mapping_covers a m)"
  by (auto simp: in_memory_translate_def translate_scan_find find_None_iff ran_bt_get)

lemma in_memory_translate_Some:
  "bt_sorted (npt_mappings n) \<Longrightarrow> in_memory_translate n a = Some h \<Longrightarrow>
     \<exists>m \<in> ran (bt_get (npt_mappings n)). mapping_covers a m \<and> h = sat_add (m_hpa m) (a - m_gpa m)"
  by (auto simp: in_memory_translate_def translate_scan_find ran_bt_get dest!: find_SomeD)

interpretation in_memory: nested_client in_memory_ops
  "\<lambda>n. bt_sorted (npt_mappings n)" "\<lambda>n. bt_get (npt_mappings n)"
proof unfold_locales
  fix n g h l p n' i
  assume "bt_sorted (npt_mappings n)" "op_map in_memory_ops n g h l p = (n', Ok i)"
  then show "l \<noteq> 0 \<and> bt_sorted (npt_mappings n')
      \<and> bt_get (npt_mappings n') = (bt_get (npt_mappings n))(i \<mapsto> new_mapping i g h l p)"
    by (auto simp: in_memory_map_def Let_def new_mapping_def split: if_splits)
next
  fix n i n' r
  assume "bt_sorted (npt_mappings n)" "op_unmap in_memory_ops n i = (n', r)"
  then show "bt_sorted (npt_mappings n')
      \<and> bt_get (npt_mappings n') = (bt_get (npt_mappings n))(i := None)
      \<and> (is_ok r \<longleftrightarrow> bt_get (npt_mappings n) i \<noteq> None)"
    by (auto simp: in_memory_unmap_def split: option.splits)
qed (auto simp: in_memory_map_def Let_def in_memory_translate_None
     dest: in_memory_translate_Some split: if_splits)

subsection \<open>Reachable tables\<close>

type_synonym guest_table = "in_memory_npt nested_page_table"

abbreviation table_contents :: "guest_table \<Rightarrow> u64 \<rightharpoonup> npt_mapping" where
  "table_contents t \<equiv> bt_get (npt_mappings (nt_npt t))"

text \<open>Any sequence of the table's operations, whatever their outcome.\<close>

inductive table_reachable :: "host_phys_range \<Rightarrow> guest_table \<Rightarrow> bool" for reserved where
  start: "table_reachable reserved (with_reserved_host_range in_memory_new reserved)"
| zeroing: "table_reachable reserved t \<Longrightarrow>
    table_reachable reserved (t\<lparr>nt_zeroizer := mark_zeroed (nt_zeroizer t) h l\<rparr>)"
| poisoning: "table_reachable reserved t \<Longrightarrow>
    table_reachable reserved (t\<lparr>nt_zeroizer := zeroizer_poison (nt_zeroizer t) h l\<rparr>)"
| mapping: "table_reachable reserved t \<Longrightarrow>
    table_reachable reserved (fst (nested_map in_memory_ops t g h l p))"
| unmapping: "table_reachable reserved t \<Longrightarrow>
    table_reachable reserved (fst (nested_unmap in_memory_ops t i))"
| allocating: "table_reachable reserved t \<Longrightarrow>
    table_reachable reserved (fst (allocate in_memory_ops t vm g h l p))"

lemma fst_allocate:
  "fst (allocate ops t vm g h l p) =
     (if is_ok (enforce t h l p)
      then fst (nested_map ops (t\<lparr>nt_zeroizer := mark_zeroed (nt_zeroizer t) h l\<rparr>) g h l p) else t)"
  by (auto simp: allocate_def split: prod.splits sum.splits)

lemma table_reachable_sound:
  assumes "table_reachable reserved t"
  shows "bt_sorted (npt_mappings (nt_npt t))
       \<and> nested_sound (\<lambda>n. bt_get (npt_mappings n)) t \<and> nt_reserved_host t = Some reserved"
  using assms
proof induction
  case start
  show ?case
    by (simp add: with_reserved_host_range_def nested_new_def in_memory_new_def
        nested_sound_def nested_agrees_def)
next
  case (mapping t g h l p)
  then show ?case using in_memory.nested_map_sound [of t g h l p] by simp
next
  case (unmapping t i)
  then show ?case using in_memory.nested_unmap_sound [of t i] by simp
next
  case (allocating t vm g h l p)
  let ?t = "t\<lparr>nt_zeroizer := mark_zeroed (nt_zeroizer t) h l\<rparr>"
  show ?case
    using allocating.IH in_memory.nested_map_sound [of ?t g h l p] in_memory.nested_zero_sound [of t]
    by (simp add: fst_allocate)
qed (use in_memory.nested_zero_sound in \<open>auto\<close>)

text \<open>
  Tables whose pages are zeroed only when no live mapping holds them. \<open>allocate\<close> is not
  among the steps: it zeroes the range itself, live or not.
\<close>

inductive careful_reachable :: "host_phys_range \<Rightarrow> guest_table \<Rightarrow> bool" for reserved where
  careful_start: "careful_reachable reserved (with_reserved_host_range in_memory_new reserved)"
| careful_zeroing: "careful_reachable reserved t \<Longrightarrow>
    \<forall>f \<in> set (frame_list h l). frames (nt_zeroizer t) f \<noteq> Some Assigned \<Longrightarrow>
    careful_reachable reserved (t\<lparr>nt_zeroizer := mark_zeroed (nt_zeroizer t) h l\<rparr>)"
| careful_mapping: "careful_reachable reserved t \<Longrightarrow>
    careful_reachable reserved (fst (nested_map in_memory_ops t g h l p))"
| careful_unmapping: "careful_reachable reserved t \<Longrightarrow>
    careful_reachable reserved (fst (nested_unmap in_memory_ops t i))"

lemma careful_is_reachable: "careful_reachable reserved t \<Longrightarrow> table_reachable reserved t"
  by (induction rule: careful_reachable.induct) (auto intro: table_reachable.intros)

definition mapping_frames :: "npt_mapping \<Rightarrow> u64 set" where
  "mapping_frames m = set (frame_list (m_hpa m) (m_len m))"

definition frames_owned :: "guest_table \<Rightarrow> bool" where
  "frames_owned t \<longleftrightarrow>
     (\<forall>i m. table_contents t i = Some m \<longrightarrow>
        (\<forall>f \<in> mapping_frames m. frames (nt_zeroizer t) f = Some Assigned))"

definition frames_exclusive :: "guest_table \<Rightarrow> bool" where
  "frames_exclusive t \<longleftrightarrow>
     (\<forall>i j m m'. table_contents t i = Some m \<longrightarrow> table_contents t j = Some m' \<longrightarrow> i \<noteq> j \<longrightarrow>
        mapping_frames m \<inter> mapping_frames m' = {})"

lemma careful_map_step:
  assumes owned: "frames_owned t" and excl: "frames_exclusive t"
    and inv: "bt_sorted (npt_mappings (nt_npt t))"
  shows "frames_owned (fst (nested_map in_memory_ops t g h l p))
       \<and> frames_exclusive (fst (nested_map in_memory_ops t g h l p))"
  using inv
proof (cases rule: in_memory.nested_map_cases [where g = g and h = h and l = l and p = p])
  case (ok t' i)
  have fresh: "mapping_frames m \<inter> set (frame_list h l) = {}" if "table_contents t j = Some m" for j m
    using that owned ok(3) by (fastforce simp: frames_owned_def is_zeroed_iff)
  have "frames_owned t'"
    using owned ok(6,8) by (auto simp: frames_owned_def set_frames_apply mapping_frames_def)
  moreover have "frames_exclusive t'"
    unfolding frames_exclusive_def
  proof (intro allI impI)
    fix a b m m'
    assume "table_contents t' a = Some m" "table_contents t' b = Some m'" "a \<noteq> b"
    then show "mapping_frames m \<inter> mapping_frames m' = {}"
      using ok(6) fresh excl
      by (cases "a = i"; cases "b = i")
         (auto simp: mapping_frames_def frames_exclusive_def dest: fresh, blast+)
  qed
  ultimately show ?thesis using ok(1) by simp
next
  case (inner t' e n')
  have "l \<noteq> 0" using inner(3) by (simp add: map_allowed_def)
  with inner(5) show ?thesis by (auto simp: in_memory_map_def Let_def)
qed (use owned excl in simp)

lemma careful_unmap_step:
  assumes owned: "frames_owned t" and excl: "frames_exclusive t"
    and inv: "bt_sorted (npt_mappings (nt_npt t))"
    and agr: "nested_agrees (\<lambda>n. bt_get (npt_mappings n)) t"
  shows "frames_owned (fst (nested_unmap in_memory_ops t i))
       \<and> frames_exclusive (fst (nested_unmap in_memory_ops t i))"
  using inv agr
proof (cases rule: in_memory.nested_unmap_cases [where i = i])
  case (ok t' m)
  have "mapping_frames m' \<inter> mapping_frames m = {}"
    if "table_contents t j = Some m'" "j \<noteq> i" for j m'
    using that excl ok(3) unfolding frames_exclusive_def by blast
  then have "frames_owned t'"
    using owned ok(6,8)
    by (auto simp: frames_owned_def frames_zeroizer_poison mapping_frames_def split: if_splits)
  moreover have "frames_exclusive t'"
    using excl ok(6) by (auto simp: frames_exclusive_def split: if_splits)
  ultimately show ?thesis using ok(1) by simp
next
  case (unknown t' e)
  with owned excl show ?thesis by (simp add: frames_owned_def frames_exclusive_def)
qed

lemma careful_frames:
  "careful_reachable reserved t \<Longrightarrow> frames_owned t \<and> frames_exclusive t"
proof (induction rule: careful_reachable.induct)
  case careful_start
  show ?case
    by (simp add: with_reserved_host_range_def nested_new_def in_memory_new_def frames_owned_def
        frames_exclusive_def bt_get_def)
next
  case (careful_zeroing t h l)
  then show ?case
    by (fastforce simp: frames_owned_def frames_exclusive_def frames_mark_zeroed)
next
  case (careful_mapping t g h l p)
  then show ?case
    using careful_map_step table_reachable_sound careful_is_reachable by blast
next
  case (careful_unmapping t i)
  then show ?case
    using careful_unmap_step table_reachable_sound careful_is_reachable
    unfolding nested_sound_def by blast
qed

lemma overlap_shares_frame:
  assumes "hr_overlaps (mapping_host_range m) (mapping_host_range m')"
    and "m_len m \<noteq> 0" "m_len m' \<noteq> 0"
  shows "mapping_frames m \<inter> mapping_frames m' \<noteq> {}"
proof -
  have memb: "x div PAGE_SIZE \<in> set (frame_list h l)"
    if "h \<le> x" "x < sat_add h l" "l \<noteq> 0" for h l x
  proof -
    have "unat (l - 1) = unat l - 1"
      using that(3) by (metis unat_minus_one)
    then have "x \<le> sat_add h (l - 1)"
      using that by (auto simp: word_le_nat_alt word_less_nat_alt unat_sat_add)
    then show ?thesis using that(1) by (simp add: set_frame_list word_div_le_mono)
  qed
  define x where "x = max (m_hpa m) (m_hpa m')"
  have o: "m_hpa m < sat_add (m_hpa m') (m_len m')" "m_hpa m' < sat_add (m_hpa m) (m_len m)"
    using assms(1) by (simp_all add: hr_overlaps_def hr_end_def mapping_host_range_def)
  have self: "h < sat_add h l" if "h < y" "l \<noteq> 0" for h l y :: u64
  proof -
    have "0 < unat l" using that(2) by (simp add: unat_gt_0)
    moreover have "unat h < 2 ^ 64 - 1"
      using that(1) unsigned_less [of y, where 'a = nat] by (simp add: word_less_nat_alt)
    ultimately show ?thesis by (simp add: word_less_nat_alt unat_sat_add)
  qed
  have "x < sat_add (m_hpa m) (m_len m)" "x < sat_add (m_hpa m') (m_len m')"
    using o self assms(2,3) by (auto simp: x_def max_def)
  then have "x div PAGE_SIZE \<in> mapping_frames m \<inter> mapping_frames m'"
    using memb assms(2,3) by (simp add: mapping_frames_def x_def)
  then show ?thesis by blast
qed

subsection \<open>Properties\<close>

text \<open>C13: In every table reachable from \<open>with_reserved_host_range\<close> by zeroing, poisoning,
  mapping, unmapping and allocating (each succeeding or failing), no mapping overlaps the
  reserved host range, none is writable and executable, and the wrapper's records are the
  inner table's mappings.\<close>

theorem reachable_table_invariants:
  assumes "table_reachable reserved t"
  shows "\<not> maps_host_hypervisor_text t \<and> \<not> has_writable_executable_pages t
       \<and> (\<forall>i. bt_get (nt_records t) i = bt_get (npt_mappings (nt_npt t)) i)"
proof -
  from table_reachable_sound [OF assms]
  have "nested_sound (\<lambda>n. bt_get (npt_mappings n)) t" by simp
  with nested_sound_no_text [OF this] show ?thesis
    by (simp add: nested_sound_def nested_agrees_def)
qed

definition sample_reserved :: host_phys_range where
  "sample_reserved = \<lparr>hr_start = 0x100000, hr_len = 0x1000\<rparr>"

lemma reachable_table_invariants_witness:
  "let t = fst (allocate in_memory_ops (with_reserved_host_range in_memory_new sample_reserved)
                  ''vm'' 0 0x10000 0x2000 perms_RW)
   in \<not> maps_host_hypervisor_text t \<and> \<not> has_writable_executable_pages t
    \<and> (\<forall>i. bt_get (nt_records t) i = bt_get (npt_mappings (nt_npt t)) i)"
  unfolding Let_def
  by (rule reachable_table_invariants [where reserved = sample_reserved])
     (intro table_reachable.intros)

text \<open>C14: Mapping through the wrapper succeeds exactly when the length is not zero, the
  permissions are not W+X, the host range does not meet the reserved range and every frame
  of it is zeroed; the successful map stores the mapping in both tables and marks its
  frames assigned.\<close>

theorem nested_map_exact:
  assumes "table_reachable reserved t"
  shows "(is_ok (snd (nested_map in_memory_ops t g h l p)) \<longleftrightarrow>
            l \<noteq> 0 \<and> \<not> is_write_execute p \<and> \<not> hr_overlaps \<lparr>hr_start = h, hr_len = l\<rparr> reserved
            \<and> is_zeroed (nt_zeroizer t) h l)
       \<and> (nested_map in_memory_ops t g h l p = (t', Ok i) \<longrightarrow>
            bt_get (nt_records t') = (bt_get (nt_records t))(i \<mapsto> new_mapping i g h l p)
            \<and> bt_get (npt_mappings (nt_npt t')) =
                (bt_get (npt_mappings (nt_npt t)))(i \<mapsto> new_mapping i g h l p)
            \<and> (\<forall>f. frames (nt_zeroizer t') f =
                 (if f \<in> set (frame_list h l) then Some Assigned else frames (nt_zeroizer t) f)))"
proof -
  from table_reachable_sound [OF assms]
  have inv: "bt_sorted (npt_mappings (nt_npt t))" and res: "nt_reserved_host t = Some reserved"
    by simp_all
  have allowed: "map_allowed t h l p \<longleftrightarrow>
      l \<noteq> 0 \<and> \<not> is_write_execute p \<and> \<not> hr_overlaps \<lparr>hr_start = h, hr_len = l\<rparr> reserved"
    by (simp add: map_allowed_def res)
  from inv have "nested_map in_memory_ops t g h l p = (t', Ok i) \<longrightarrow>
            bt_get (nt_records t') = (bt_get (nt_records t))(i \<mapsto> new_mapping i g h l p)
            \<and> bt_get (npt_mappings (nt_npt t')) =
                (bt_get (npt_mappings (nt_npt t)))(i \<mapsto> new_mapping i g h l p)
            \<and> (\<forall>f. frames (nt_zeroizer t') f =
                 (if f \<in> set (frame_list h l) then Some Assigned else frames (nt_zeroizer t) f))"
    by (cases rule: in_memory.nested_map_cases [where g = g and h = h and l = l and p = p])
       (auto simp: set_frames_apply)
  with in_memory.nested_map_Ok_iff [OF inv] show ?thesis by (simp add: allowed)
qed

lemma nested_map_exact_witness:
  "let t0 = with_reserved_host_range in_memory_new sample_reserved;
       t = t0\<lparr>nt_zeroizer := mark_zeroed (nt_zeroizer t0) 0x10000 0x2000\<rparr>
   in is_ok (snd (nested_map in_memory_ops t 0 0x10000 0x2000 perms_RW)) \<and>
      \<not> is_ok (snd (nested_map in_memory_ops t 0 0xFFFFF 2 perms_RW))"
proof -
  let ?t0 = "with_reserved_host_range in_memory_new sample_reserved"
  let ?t = "?t0\<lparr>nt_zeroizer := mark_zeroed (nt_zeroizer ?t0) 0x10000 0x2000\<rparr>"
  have r: "table_reachable sample_reserved ?t" by (intro table_reachable.intros)
  have "is_ok (snd (nested_map in_memory_ops ?t 0 0x10000 0x2000 perms_RW))"
    using nested_map_exact [OF r, where g = 0 and h = "0x10000" and l = "0x2000" and p = perms_RW]
    by (simp add: is_zeroed_mark_zeroed is_write_execute_def perms_RW_def hr_overlaps_def hr_end_def sample_reserved_def
        sat_add_def)
  moreover have "\<not> is_ok (snd (nested_map in_memory_ops ?t 0 0xFFFFF 2 perms_RW))"
    using nested_map_exact [OF r, where g = 0 and h = "0xFFFFF" and l = 2 and p = perms_RW]
    by (simp add: hr_overlaps_def hr_end_def sample_reserved_def sat_add_def)
  ultimately show ?thesis by (simp add: Let_def)
qed

text \<open>C15: Unmapping a live mapping of a reachable table poisons its pages: mapping the same
  host range again, at any guest address, is refused with \<open>PagePoisoned\<close> and changes
  nothing, and is accepted once the range has been zeroed again.\<close>

theorem unmap_poisons_until_zeroed:
  assumes "table_reachable reserved t"
    and "bt_get (nt_records t) i = Some m"
    and "nested_unmap in_memory_ops t i = (t', r)"
    and "\<not> is_write_execute p"
  shows "r = Ok () \<and> bt_get (nt_records t') i = None
       \<and> nested_map in_memory_ops t' g (m_hpa m) (m_len m) p = (t', Err PagePoisoned)
       \<and> is_ok (snd (nested_map in_memory_ops
             (t'\<lparr>nt_zeroizer := mark_zeroed (nt_zeroizer t') (m_hpa m) (m_len m)\<rparr>)
             g (m_hpa m) (m_len m) p))"
proof -
  have inv: "bt_sorted (npt_mappings (nt_npt t))"
    and snd: "nested_sound (\<lambda>n. bt_get (npt_mappings n)) t"
    using table_reachable_sound [OF assms(1)] by simp_all
  then have agr: "nested_agrees (\<lambda>n. bt_get (npt_mappings n)) t" by (simp add: nested_sound_def)
  have "m \<in> ran (table_contents t)"
    using assms(2) agr by (auto simp: nested_agrees_def intro: ranI)
  with snd have legal: "map_allowed t (m_hpa m) (m_len m) (m_perms m)"
    by (simp add: nested_sound_def mapping_legal_def)
  from inv agr show ?thesis
  proof (cases rule: in_memory.nested_unmap_cases [where i = i])
    case (ok u m')
    with assms(2,3) have [simp]: "u = t'" "m' = m" "r = Ok ()" by simp_all
    have allowed: "map_allowed t' (m_hpa m) (m_len m) p"
      using legal assms(4) ok(5) by (simp add: map_allowed_def)
    then have len: "m_len m \<noteq> 0" by (simp add: map_allowed_def)
    have "enforce t' (m_hpa m) (m_len m) p = Ok ()"
      using allowed by (simp add: enforce_Ok_iff)
    then have "nested_map in_memory_ops t' g (m_hpa m) (m_len m) p = (t', Err PagePoisoned)"
      using ok(8) assign_after_poison [OF len] by (simp add: nested_map_def)
    moreover have "is_ok (snd (nested_map in_memory_ops
             (t'\<lparr>nt_zeroizer := mark_zeroed (nt_zeroizer t') (m_hpa m) (m_len m)\<rparr>)
             g (m_hpa m) (m_len m) p))"
      using in_memory.nested_map_Ok_iff
          [of "t'\<lparr>nt_zeroizer := mark_zeroed (nt_zeroizer t') (m_hpa m) (m_len m)\<rparr>"]
        ok(4) allowed is_zeroed_mark_zeroed [OF len] by (simp add: map_allowed_def)
    ultimately show ?thesis using ok(7) by simp
  next
    case (unknown u e)
    with assms(2) show ?thesis by simp
  qed
qed

lemma unmap_poisons_until_zeroed_witness:
  "let t = fst (allocate in_memory_ops (with_reserved_host_range in_memory_new sample_reserved)
                  ''vm'' 0 0x10000 0x2000 perms_RW);
       t' = fst (nested_unmap in_memory_ops t 0)
   in nested_map in_memory_ops t' 0x5000 0x10000 0x2000 perms_RX = (t', Err PagePoisoned)"
proof -
  let ?t0 = "with_reserved_host_range in_memory_new sample_reserved"
  let ?t = "fst (allocate in_memory_ops ?t0 ''vm'' 0 0x10000 0x2000 perms_RW)"
  have r: "table_reachable sample_reserved ?t" by (intro table_reachable.intros)
  have z: "check_frames (set_frames Zeroed (frame_list 0x10000 0x2000) Map.empty)
      (frame_list 0x10000 0x2000) = Ok ()"
    by (simp add: check_frames_Ok_iff set_frames_apply)
  have rec: "nt_records ?t = [(0, new_mapping 0 0 0x10000 0x2000 perms_RW)]"
    using z by (simp add: allocate_def enforce_def with_reserved_host_range_def nested_new_def
        in_memory_new_def zeroizer_new_def mark_zeroed_def nested_map_def zeroizer_assign_def
        in_memory_map_def Let_def new_mapping_def is_write_execute_def perms_RW_def
        hr_overlaps_def hr_end_def sample_reserved_def sat_add_def)
  have "bt_get (nt_records ?t) 0 = Some (new_mapping 0 0 0x10000 0x2000 perms_RW)"
    by (simp add: rec bt_get_def)
  from unmap_poisons_until_zeroed [OF r this prod.collapse [symmetric],
      where p = perms_RX and g = "0x5000"]
  show ?thesis by (simp add: Let_def is_write_execute_def perms_RX_def)
qed

text \<open>C16: When pages are only ever zeroed while no live mapping holds them, two live mappings
  never share a host byte: their host ranges do not overlap. The tables are those that the
  operations of the table itself and such zeroing lead to: neither the allocation that
  bypasses the page states nor a direct call that poisons pages is among their steps.\<close>

theorem live_mappings_disjoint:
  assumes "careful_reachable reserved t"
    and "bt_get (nt_records t) i = Some m" "bt_get (nt_records t) j = Some m'" "i \<noteq> j"
  shows "\<not> hr_overlaps (mapping_host_range m) (mapping_host_range m')"
proof
  assume ov: "hr_overlaps (mapping_host_range m) (mapping_host_range m')"
  have snd: "nested_sound (\<lambda>n. bt_get (npt_mappings n)) t"
    using table_reachable_sound careful_is_reachable [OF assms(1)] by simp
  then have c: "table_contents t i = Some m" "table_contents t j = Some m'"
    using assms(2,3) by (simp_all add: nested_sound_def nested_agrees_def)
  then have "m_len m \<noteq> 0" "m_len m' \<noteq> 0"
    using snd ranI [of "table_contents t"]
    by (auto simp: nested_sound_def mapping_legal_def map_allowed_def)
  from overlap_shares_frame [OF ov this]
  show False
    using careful_frames [OF assms(1)] c assms(4) unfolding frames_exclusive_def by blast
qed

lemma live_mappings_disjoint_witness:
  "let t0 = with_reserved_host_range in_memory_new sample_reserved;
       t1 = t0\<lparr>nt_zeroizer := mark_zeroed (nt_zeroizer t0) 0x10000 0x2000\<rparr>;
       t2 = fst (nested_map in_memory_ops t1 0 0x10000 0x800 perms_RW);
       t3 = fst (nested_map in_memory_ops t2 0x1000 0x11000 0x1000 perms_RX)
   in \<exists>m m'. bt_get (nt_records t3) 0 = Some m \<and> bt_get (nt_records t3) 1 = Some m'
        \<and> \<not> hr_overlaps (mapping_host_range m) (mapping_host_range m')"
proof -
  let ?t0 = "with_reserved_host_range in_memory_new sample_reserved"
  let ?t1 = "?t0\<lparr>nt_zeroizer := mark_zeroed (nt_zeroizer ?t0) 0x10000 0x2000\<rparr>"
  let ?t2 = "fst (nested_map in_memory_ops ?t1 0 0x10000 0x800 perms_RW)"
  let ?t3 = "fst (nested_map in_memory_ops ?t2 0x1000 0x11000 0x1000 perms_RX)"
  have r: "careful_reachable sample_reserved ?t3"
    by (intro careful_reachable.intros)
       (simp_all add: with_reserved_host_range_def nested_new_def zeroizer_new_def)
  have z1: "check_frames (set_frames Zeroed (frame_list 0x10000 0x2000) Map.empty)
      (frame_list 0x10000 0x800) = Ok ()"
    by (auto simp: check_frames_Ok_iff set_frames_apply set_frame_list PAGE_SIZE_def sat_add_def)
  have z2: "check_frames (set_frames Assigned (frame_list 0x10000 0x800)
      (set_frames Zeroed (frame_list 0x10000 0x2000) Map.empty)) (frame_list 0x11000 0x1000) = Ok ()"
    by (auto simp: check_frames_Ok_iff set_frames_apply set_frame_list PAGE_SIZE_def sat_add_def)
  note defs = enforce_def with_reserved_host_range_def nested_new_def in_memory_new_def
    zeroizer_new_def mark_zeroed_def nested_map_def zeroizer_assign_def in_memory_map_def Let_def
    new_mapping_def is_write_execute_def perms_RW_def perms_RX_def hr_overlaps_def hr_end_def
    sample_reserved_def sat_add_def
  have "nt_records ?t3 = [(0, new_mapping 0 0 0x10000 0x800 perms_RW),
      (1, new_mapping 1 0x1000 0x11000 0x1000 perms_RX)]"
    using z1 z2 by (simp add: defs)
  then have "bt_get (nt_records ?t3) 0 = Some (new_mapping 0 0 0x10000 0x800 perms_RW)"
    "bt_get (nt_records ?t3) 1 = Some (new_mapping 1 0x1000 0x11000 0x1000 perms_RX)"
    by (simp_all add: bt_get_def)
  with live_mappings_disjoint [OF r this] show ?thesis by (auto simp: Let_def)
qed

text \<open>Allocation looks at the guards only, never at the page states: it succeeds exactly
  when the length, permissions and reserved range allow the mapping, so a range that a live
  mapping already holds is handed out a second time.\<close>

theorem allocate_ignores_page_states:
  assumes "table_reachable reserved t"
  shows "is_ok (snd (allocate in_memory_ops t vm g h l p)) \<longleftrightarrow>
           l \<noteq> 0 \<and> \<not> is_write_execute p \<and> \<not> hr_overlaps \<lparr>hr_start = h, hr_len = l\<rparr> reserved"
  using in_memory.allocate_Ok_iff [of t vm g h l p] table_reachable_sound [OF assms]
  by (simp add: map_allowed_def)

lemma allocate_ignores_page_states_witness:
  "let t0 = with_reserved_host_range in_memory_new sample_reserved;
       t1 = fst (allocate in_memory_ops t0 ''a'' 0 0x10000 0x1000 perms_RW)
   in is_ok (snd (allocate in_memory_ops t1 ''b'' 0 0x10000 0x1000 perms_RW))"
  unfolding Let_def
  by (subst allocate_ignores_page_states [where reserved = sample_reserved])
     (auto intro: table_reachable.intros
       simp: is_write_execute_def perms_RW_def hr_overlaps_def hr_end_def sample_reserved_def sat_add_def)

subsection \<open>Quota, translation and the memory map\<close>

lemma try_reserve_exact:
  assumes "used_mb q \<le> max_mb q"
  shows "is_ok (snd (try_reserve q mb)) \<longleftrightarrow> unat (used_mb q) + unat mb \<le> unat (max_mb q)"
  using assms
  by (auto simp: try_reserve_def available_mb_def Let_def word_le_nat_alt word_less_nat_alt unat_sat_sub)

lemma try_reserve_within:
  assumes "used_mb q \<le> max_mb q"
  shows "used_mb (fst (try_reserve q mb)) \<le> max_mb (fst (try_reserve q mb))"
proof (cases "is_ok (snd (try_reserve q mb))")
  case True
  with try_reserve_exact [OF assms] have "unat (used_mb q) + unat mb \<le> unat (max_mb q)" by simp
  moreover have "unat (max_mb q) < 2 ^ 64" using unsigned_less [of "max_mb q", where 'a = nat] by simp
  ultimately have "unat (used_mb q + mb) \<le> unat (max_mb q)"
    by (subst unat_add_no_overflow) simp_all
  then show ?thesis using assms
    by (auto simp: try_reserve_def Let_def word_le_nat_alt)
next
  case False
  with assms show ?thesis by (auto simp: try_reserve_def Let_def split: if_splits)
qed

lemma release_within: "used_mb q \<le> max_mb q \<Longrightarrow> used_mb (quota_release q mb) \<le> max_mb (quota_release q mb)"
  by (auto simp: quota_release_def intro: order_trans [OF sat_sub_le])

lemma reserve_release:
  assumes "used_mb q \<le> max_mb q" "try_reserve q mb = (q', Ok ())"
  shows "quota_release q' mb = q"
proof -
  have "unat (used_mb q) + unat mb \<le> unat (max_mb q)"
    using try_reserve_exact [OF assms(1), of mb] assms(2) by simp
  moreover have "unat (max_mb q) < 2 ^ 64" using unsigned_less [of "max_mb q", where 'a = nat] by simp
  ultimately have "unat (used_mb q + mb) = unat (used_mb q) + unat mb"
    by (subst unat_add_no_overflow) simp_all
  then have "\<not> used_mb q + mb < mb" by (simp add: word_less_nat_alt)
  then show ?thesis
    using assms(2) by (auto simp: try_reserve_def Let_def quota_release_def sat_sub_def split: if_splits)
qed

lemma trap_lookup_covers:
  "trap_lookup ts a = Some r \<Longrightarrow> r \<in> set ts \<and> range_contains (gr_start (trap_range r)) (gr_len (trap_range r)) a"
  by (auto simp: trap_lookup_def range_contains_def Let_def dest!: find_SomeD)

lemma add_mmio_region_traps:
  assumes "region_kind r = MmioTrap" "range_contains (gpa_start r) (region_len r) a"
  shows "trap_lookup (gm_mmio_traps (add_region g r dev)) a \<noteq> None
       \<and> region_at (add_region g r dev) a \<noteq> None"
  using assms
  by (simp add: add_region_def trap_lookup_def trap_register_def region_at_def gpa_end_def
      range_contains_def Let_def find_snoc_hit del: not_None_eq)

end
