(* ===== verification/Vcpu.thy ===== *)
theory Vcpu
  imports Mm
begin

text \<open>
  The vCPU control plane of \<open>hyper-vcpu\<close>: the vCPU record, the fail-closed exit
  dispatcher, the run loop over an abstract backend, and the priority round-robin
  scheduler. The trait \<open>SvmBackend\<close> is the function argument \<open>run\<close> of the loop;
  the locale \<open>svm_backend\<close> states what the dispatcher's accounting needs of it, and
  the scripted \<open>FakeBackend\<close> of the crate provides it.
\<close>

subsection \<open>vCPU state\<close>

type_synonym vcpu_id = u32

record vcpu_id_allocator =
  alloc_next :: u32

definition allocator_new :: vcpu_id_allocator where
  "allocator_new = \<lparr>alloc_next = 0\<rparr>"

definition alloc_vcpu_id :: "vcpu_id_allocator \<Rightarrow> vcpu_id_allocator \<times> vcpu_id" where
  "alloc_vcpu_id a = (let id' = alloc_next a in (a\<lparr>alloc_next := alloc_next a + 1\<rparr>, id'))"

datatype vcpu_state = Ready | Running | Blocked | Halted | Killed | Quarantined

definition is_runnable :: "vcpu_state \<Rightarrow> bool" where
  "is_runnable s = (case s of Ready \<Rightarrow> True | Running \<Rightarrow> True | _ \<Rightarrow> False)"

definition is_terminal :: "vcpu_state \<Rightarrow> bool" where
  "is_terminal s = (case s of Halted \<Rightarrow> True | Killed \<Rightarrow> True | Quarantined \<Rightarrow> True | _ \<Rightarrow> False)"

datatype vcpu_error = NotRunnable vcpu_id vcpu_state | StepBudgetExceeded u64

record intercept_policy =
  ip_cpuid :: bool
  ip_msr :: bool
  ip_io :: bool
  ip_hlt :: bool

definition intercept_default :: intercept_policy where
  "intercept_default = \<lparr>ip_cpuid = True, ip_msr = True, ip_io = True, ip_hlt = True\<rparr>"

datatype vm_exit_reason =
    Cpuid u32
  | MsrRead u32
  | MsrWrite u32 u64
  | Io u16 bool
  | Hlt
  | NestedPageFault u64
  | ExternalIrq u8
  | ShutdownExit
  | UnknownExit u64

datatype vm_exit_action =
    Resume
  | InjectException u8
  | EmulateAndResume
  | BlockVcpu
  | KillVm
  | QuarantineVm
  | HaltHost

record vcpu_run_stats =
  st_exits :: u64
  st_last_exit_reason :: "vm_exit_reason option"

record vcpu =
  v_id :: vcpu_id
  v_vm_id :: vm_id
  v_state :: vcpu_state
  v_run_stats :: vcpu_run_stats
  v_intercept_policy :: intercept_policy

definition vcpu_new :: "vcpu_id \<Rightarrow> vm_id \<Rightarrow> vcpu" where
  "vcpu_new i vm = \<lparr>v_id = i, v_vm_id = vm, v_state = Ready,
     v_run_stats = \<lparr>st_exits = 0, st_last_exit_reason = None\<rparr>,
     v_intercept_policy = intercept_default\<rparr>"

definition record_exit :: "vcpu \<Rightarrow> vm_exit_reason \<Rightarrow> vcpu" where
  "record_exit v r = v\<lparr>v_run_stats := (v_run_stats v)\<lparr>st_exits := sat_add (st_exits (v_run_stats v)) 1,
                                                       st_last_exit_reason := Some r\<rparr>\<rparr>"

subsection \<open>The scripted backend\<close>

record fake_backend =
  fb_scripted :: "vm_exit_reason list"
  fb_cursor :: nat

definition fake_new :: "vm_exit_reason list \<Rightarrow> fake_backend" where
  "fake_new rs = \<lparr>fb_scripted = rs, fb_cursor = 0\<rparr>"

definition fake_is_exhausted :: "fake_backend \<Rightarrow> bool" where
  "fake_is_exhausted b \<longleftrightarrow> length (fb_scripted b) \<le> fb_cursor b"

definition fake_run :: "fake_backend \<Rightarrow> vcpu \<Rightarrow> fake_backend \<times> vcpu \<times> vm_exit_reason" where
  "fake_run b v =
     (let v' = v\<lparr>v_state := Running\<rparr>;
          reason = (if fb_cursor b < length (fb_scripted b) then fb_scripted b ! fb_cursor b
                    else ShutdownExit);
          b' = (if fb_cursor b < length (fb_scripted b) then b\<lparr>fb_cursor := fb_cursor b + 1\<rparr> else b)
      in (b', v', reason))"

subsection \<open>The exit dispatcher\<close>

definition GP_FAULT_VECTOR :: u8 where "GP_FAULT_VECTOR = 13"

record exit_dispatcher =
  msr_allow :: "u32 set"
  io_allow :: "u16 set"
  exit_storm_limit :: u64

definition dispatcher_default :: exit_dispatcher where
  "dispatcher_default = \<lparr>msr_allow = {}, io_allow = {}, exit_storm_limit = 1024\<rparr>"

definition dispatcher_new :: "u32 set \<Rightarrow> u16 set \<Rightarrow> u64 \<Rightarrow> exit_dispatcher" where
  "dispatcher_new ms ios l = \<lparr>msr_allow = ms, io_allow = ios, exit_storm_limit = l\<rparr>"

fun apply_action :: "vcpu \<Rightarrow> vm_exit_action \<Rightarrow> vcpu \<times> vm_exit_action" where
  "apply_action v Resume = (if \<not> is_terminal (v_state v) then v\<lparr>v_state := Running\<rparr> else v, Resume)"
| "apply_action v EmulateAndResume =
     (if \<not> is_terminal (v_state v) then v\<lparr>v_state := Running\<rparr> else v, EmulateAndResume)"
| "apply_action v (InjectException n) =
     (if \<not> is_terminal (v_state v) then v\<lparr>v_state := Running\<rparr> else v, InjectException n)"
| "apply_action v BlockVcpu = (v\<lparr>v_state := Blocked\<rparr>, BlockVcpu)"
| "apply_action v KillVm = (v\<lparr>v_state := Killed\<rparr>, KillVm)"
| "apply_action v QuarantineVm = (v\<lparr>v_state := Quarantined\<rparr>, QuarantineVm)"
| "apply_action v HaltHost = (v\<lparr>v_state := Halted\<rparr>, HaltHost)"

definition exit_action :: "exit_dispatcher \<Rightarrow> vm_exit_reason \<Rightarrow> vcpu \<Rightarrow> vm_exit_action" where
  "exit_action d reason v =
     (case reason of
        Cpuid leaf \<Rightarrow> if ip_cpuid (v_intercept_policy v) then EmulateAndResume else Resume
      | MsrRead msr \<Rightarrow>
          if \<not> ip_msr (v_intercept_policy v) then Resume
          else if msr \<in> msr_allow d then EmulateAndResume
          else InjectException GP_FAULT_VECTOR
      | MsrWrite msr val \<Rightarrow>
          if \<not> ip_msr (v_intercept_policy v) then Resume
          else if msr \<in> msr_allow d then EmulateAndResume
          else InjectException GP_FAULT_VECTOR
      | Io port write \<Rightarrow>
          if \<not> ip_io (v_intercept_policy v) then Resume
          else if port \<in> io_allow d then EmulateAndResume
          else QuarantineVm
      | Hlt \<Rightarrow> if ip_hlt (v_intercept_policy v) then BlockVcpu else Resume
      | NestedPageFault g \<Rightarrow> if g = 0 then KillVm else EmulateAndResume
      | ExternalIrq vec \<Rightarrow> Resume
      | ShutdownExit \<Rightarrow> KillVm
      | UnknownExit c \<Rightarrow> KillVm)"

definition handle_exit :: "exit_dispatcher \<Rightarrow> vm_exit_reason \<Rightarrow> vcpu \<Rightarrow> vcpu \<times> vm_exit_action" where
  "handle_exit d reason v =
     (let v1 = record_exit v reason in
      if exit_storm_limit d < st_exits (v_run_stats v1) then apply_action v1 KillVm
      else apply_action v1 (exit_action d reason v1))"

subsection \<open>The run loop\<close>

text \<open>The body of the \<open>while\<close>, from \<open>steps\<close> on; the distance to the budget decreases.\<close>

function run_loop_from ::
  "('b \<Rightarrow> vcpu \<Rightarrow> 'b \<times> vcpu \<times> vm_exit_reason) \<Rightarrow> exit_dispatcher \<Rightarrow> u64 \<Rightarrow> 'b \<Rightarrow> vcpu \<Rightarrow> u64
     \<Rightarrow> 'b \<times> vcpu \<times> (vcpu_error + u64)" where
  "run_loop_from run d max_steps b v steps =
     (if \<not> is_runnable (v_state v) then (b, v, Ok steps)
      else if max_steps \<le> steps then (b, v, Err (StepBudgetExceeded max_steps))
      else let (b1, v1, reason) = run b v;
               (v2, action) = handle_exit d reason v1
           in if action = HaltHost then (b1, v2, Ok (steps + 1))
              else run_loop_from run d max_steps b1 v2 (steps + 1))"
  by pat_completeness auto

termination
  by (relation "measure (\<lambda>(run, d, m, b, v, s). unat m - unat s)")
     (auto simp: not_le unat_increment word_less_nat_alt)

declare run_loop_from.simps [simp del]

definition run_loop ::
  "('b \<Rightarrow> vcpu \<Rightarrow> 'b \<times> vcpu \<times> vm_exit_reason) \<Rightarrow> exit_dispatcher \<Rightarrow> 'b \<Rightarrow> vcpu \<Rightarrow> u64
     \<Rightarrow> 'b \<times> vcpu \<times> (vcpu_error + u64)" where
  "run_loop run d b v max_steps =
     (if \<not> is_runnable (v_state v) then (b, v, Err (NotRunnable (v_id v) (v_state v)))
      else run_loop_from run d max_steps b v 0)"

subsection \<open>The scheduler\<close>

datatype sched_class =
  CriticalHost | ControlVm | NormalGuest | SandboxGuest | DetonationGuest | BackgroundGuest

definition PRIORITY_ORDER :: "sched_class list" where
  "PRIORITY_ORDER = [CriticalHost, ControlVm, NormalGuest, SandboxGuest, DetonationGuest,
                     BackgroundGuest]"

definition class_index :: "sched_class \<Rightarrow> nat" where
  "class_index c = (case c of CriticalHost \<Rightarrow> 0 | ControlVm \<Rightarrow> 1 | NormalGuest \<Rightarrow> 2
     | SandboxGuest \<Rightarrow> 3 | DetonationGuest \<Rightarrow> 4 | BackgroundGuest \<Rightarrow> 5)"

record scheduler =
  sc_queues :: "vcpu_id list list"
  sc_blocked :: "vcpu_id set"

definition scheduler_new :: scheduler where
  "scheduler_new = \<lparr>sc_queues = replicate 6 [], sc_blocked = {}\<rparr>"

definition sched_enqueue :: "scheduler \<Rightarrow> vcpu_id \<Rightarrow> sched_class \<Rightarrow> scheduler" where
  "sched_enqueue s v c =
     (let s1 = s\<lparr>sc_blocked := sc_blocked s - {v}\<rparr>;
          q = sc_queues s1 ! class_index c
      in if v \<notin> set q then s1\<lparr>sc_queues := (sc_queues s1)[class_index c := q @ [v]]\<rparr> else s1)"

definition sched_block :: "scheduler \<Rightarrow> vcpu_id \<Rightarrow> scheduler" where
  "sched_block s v =
     s\<lparr>sc_blocked := insert v (sc_blocked s),
       sc_queues := map (filter (\<lambda>q. q \<noteq> v)) (sc_queues s)\<rparr>"

text \<open>The inner \<open>while let\<close> pops one queue until it finds an entry that is not blocked.\<close>

fun pop_unblocked :: "vcpu_id set \<Rightarrow> vcpu_id list \<Rightarrow> vcpu_id list \<times> vcpu_id option" where
  "pop_unblocked bs [] = ([], None)"
| "pop_unblocked bs (v # q) = (if v \<in> bs then pop_unblocked bs q else (q @ [v], Some v))"

fun next_in_queues :: "vcpu_id set \<Rightarrow> vcpu_id list list \<Rightarrow> vcpu_id list list \<times> vcpu_id option" where
  "next_in_queues bs [] = ([], None)"
| "next_in_queues bs (q # qs) =
     (case pop_unblocked bs q of
        (q', Some v) \<Rightarrow> (q' # qs, Some v)
      | (q', None) \<Rightarrow> (let (qs', r) = next_in_queues bs qs in (q' # qs', r)))"

definition next_runnable :: "scheduler \<Rightarrow> scheduler \<times> vcpu_id option" where
  "next_runnable s =
     (let (qs, r) = next_in_queues (sc_blocked s) (sc_queues s) in (s\<lparr>sc_queues := qs\<rparr>, r))"

definition sched_len :: "scheduler \<Rightarrow> nat" where
  "sched_len s = sum_list (map length (sc_queues s))"

definition sched_is_empty :: "scheduler \<Rightarrow> bool" where
  "sched_is_empty s \<longleftrightarrow> sched_len s = 0"

subsection \<open>The dispatcher fails closed\<close>

definition exit_permitted :: "exit_dispatcher \<Rightarrow> intercept_policy \<Rightarrow> vm_exit_reason \<Rightarrow> bool" where
  "exit_permitted d p reason =
     (case reason of
        Cpuid leaf \<Rightarrow> True
      | MsrRead msr \<Rightarrow> ip_msr p \<longrightarrow> msr \<in> msr_allow d
      | MsrWrite msr val \<Rightarrow> ip_msr p \<longrightarrow> msr \<in> msr_allow d
      | Io port write \<Rightarrow> ip_io p \<longrightarrow> port \<in> io_allow d
      | Hlt \<Rightarrow> \<not> ip_hlt p
      | NestedPageFault g \<Rightarrow> g \<noteq> 0
      | ExternalIrq vec \<Rightarrow> True
      | ShutdownExit \<Rightarrow> False
      | UnknownExit c \<Rightarrow> False)"

lemma apply_action_snd [simp]: "snd (apply_action v a) = a"
  by (cases a) auto

lemma apply_action_stats [simp]:
  "v_run_stats (fst (apply_action v a)) = v_run_stats v"
  "v_intercept_policy (fst (apply_action v a)) = v_intercept_policy v"
  "v_id (fst (apply_action v a)) = v_id v" "v_vm_id (fst (apply_action v a)) = v_vm_id v"
  by (cases a; simp)+

lemma record_exit_sel [simp]:
  "v_state (record_exit v r) = v_state v" "v_id (record_exit v r) = v_id v"
  "v_vm_id (record_exit v r) = v_vm_id v"
  "v_intercept_policy (record_exit v r) = v_intercept_policy v"
  "st_exits (v_run_stats (record_exit v r)) = sat_add (st_exits (v_run_stats v)) 1"
  "st_last_exit_reason (v_run_stats (record_exit v r)) = Some r"
  by (simp_all add: record_exit_def)

lemma handle_exit_stats:
  "v_run_stats (fst (handle_exit d r v)) = v_run_stats (record_exit v r)"
  "v_intercept_policy (fst (handle_exit d r v)) = v_intercept_policy v"
  "v_id (fst (handle_exit d r v)) = v_id v"
  by (simp_all add: handle_exit_def Let_def)

lemma handle_exit_never_halts: "snd (handle_exit d r v) \<noteq> HaltHost"
  by (simp add: handle_exit_def exit_action_def Let_def split: vm_exit_reason.splits)

lemma handle_exit_storm:
  "exit_storm_limit d < sat_add (st_exits (v_run_stats v)) 1 \<Longrightarrow>
     handle_exit d r v = (record_exit v r\<lparr>v_state := Killed\<rparr>, KillVm)"
  by (simp add: handle_exit_def)

lemma exit_action_resumes_iff:
  "exit_action d r v \<in> {Resume, EmulateAndResume} \<longleftrightarrow> exit_permitted d (v_intercept_policy v) r"
  by (auto simp: exit_action_def exit_permitted_def split: vm_exit_reason.splits)

subsection \<open>The storm budget bounds the run loop\<close>

lemma run_loop_from_stop:
  "\<not> is_runnable (v_state v) \<Longrightarrow> run_loop_from run d m b v s = (b, v, Ok s)"
  by (subst run_loop_from.simps) simp

lemma run_loop_from_budget:
  "is_runnable (v_state v) \<Longrightarrow> m \<le> s \<Longrightarrow>
     run_loop_from run d m b v s = (b, v, Err (StepBudgetExceeded m))"
  by (subst run_loop_from.simps) simp

lemma run_loop_from_step:
  assumes "is_runnable (v_state v)" "s < m" "run b v = (b1, v1, r)" "handle_exit d r v1 = (v2, a)"
    and "a \<noteq> HaltHost"
  shows "run_loop_from run d m b v s = run_loop_from run d m b1 v2 (s + 1)"
  using assms by (subst run_loop_from.simps) (simp add: not_le [symmetric])

text \<open>
  What the accounting needs of a backend: running a vCPU leaves its exit statistics,
  its identity and its intercept policy to the dispatcher.
\<close>

locale svm_backend =
  fixes run :: "'b \<Rightarrow> vcpu \<Rightarrow> 'b \<times> vcpu \<times> vm_exit_reason"
  assumes run_keeps: "run b v = (b', v', r) \<Longrightarrow>
    v_run_stats v' = v_run_stats v \<and> v_intercept_policy v' = v_intercept_policy v \<and> v_id v' = v_id v"
begin

text \<open>One iteration: the exit counter advances by one, or the vCPU is killed.\<close>

lemma iteration:
  assumes "run b v = (b1, v1, r)" "handle_exit d r v1 = (v2, a)"
  shows "st_exits (v_run_stats v2) = sat_add (st_exits (v_run_stats v)) 1"
    and "a \<noteq> HaltHost"
    and "exit_storm_limit d < sat_add (st_exits (v_run_stats v)) 1 \<Longrightarrow> v_state v2 = Killed"
proof -
  have stats: "v_run_stats v1 = v_run_stats v" using run_keeps [OF assms(1)] by simp
  show "st_exits (v_run_stats v2) = sat_add (st_exits (v_run_stats v)) 1"
    using handle_exit_stats(1) [of d r v1] assms(2) stats by simp
  show "a \<noteq> HaltHost"
    using handle_exit_never_halts [of d r v1] assms(2) by simp
  show "v_state v2 = Killed" if "exit_storm_limit d < sat_add (st_exits (v_run_stats v)) 1"
    using handle_exit_storm [of d v1 r] that assms(2) stats by auto
qed

lemma run_loop_from_bounded:
  assumes "st_exits (v_run_stats v) \<le> exit_storm_limit d" "exit_storm_limit d < - 1"
    and "unat s + (unat (exit_storm_limit d) - unat (st_exits (v_run_stats v))) < unat m"
  shows "\<exists>b' v' n. run_loop_from run d m b v s = (b', v', Ok n) \<and> \<not> is_runnable (v_state v')
       \<and> unat n \<le> unat s + (unat (exit_storm_limit d) - unat (st_exits (v_run_stats v))) + 1"
  using assms
proof (induction "unat (exit_storm_limit d) - unat (st_exits (v_run_stats v))" arbitrary: b v s)
  case (0 v b s)
  show ?case
  proof (cases "is_runnable (v_state v)")
    case False
    then show ?thesis by (simp add: run_loop_from_stop)
  next
    case True
    from 0 have lt: "s < m" by (simp add: word_less_nat_alt)
    obtain b1 v1 r where run: "run b v = (b1, v1, r)" by (metis prod_cases3)
    obtain v2 a where h: "handle_exit d r v1 = (v2, a)" by fastforce
    have "st_exits (v_run_stats v) = exit_storm_limit d"
      using 0 by (simp add: word_le_nat_alt word_unat_eq_iff)
    then have "exit_storm_limit d < sat_add (st_exits (v_run_stats v)) 1"
      using 0(3) by (simp add: word_less_nat_alt unat_sat_add unat_max_word)
    then have "v_state v2 = Killed" by (rule iteration(3) [OF run h])
    moreover have "a \<noteq> HaltHost" by (rule iteration(2) [OF run h])
    ultimately have "run_loop_from run d m b v s = (b1, v2, Ok (s + 1))"
      using run_loop_from_step [where run = run, OF True lt run h]
      by (simp add: run_loop_from_stop is_runnable_def)
    then show ?thesis
      using \<open>v_state v2 = Killed\<close> unat_increment [OF lt] by (simp add: is_runnable_def)
  qed
next
  case (Suc k v b s)
  show ?case
  proof (cases "is_runnable (v_state v)")
    case False
    then show ?thesis by (simp add: run_loop_from_stop)
  next
    case True
    from Suc.prems have lt: "s < m" by (simp add: word_less_nat_alt)
    obtain b1 v1 r where run: "run b v = (b1, v1, r)" by (metis prod_cases3)
    obtain v2 a where h: "handle_exit d r v1 = (v2, a)" by fastforce
    have e: "unat (st_exits (v_run_stats v)) < unat (exit_storm_limit d)"
      using Suc.hyps(2) by simp
    then have e2: "unat (st_exits (v_run_stats v2)) = unat (st_exits (v_run_stats v)) + 1"
      using iteration(1) [OF run h] Suc.prems(2)
      by (simp add: unat_sat_add word_less_nat_alt unat_max_word)
    have s2: "unat (s + 1) = unat s + 1" by (rule unat_increment [OF lt])
    have "\<exists>b' v' n. run_loop_from run d m b1 v2 (s + 1) = (b', v', Ok n) \<and> \<not> is_runnable (v_state v')
       \<and> unat n \<le> unat (s + 1) + (unat (exit_storm_limit d) - unat (st_exits (v_run_stats v2))) + 1"
    proof (rule Suc.hyps(1))
      show "k = unat (exit_storm_limit d) - unat (st_exits (v_run_stats v2))"
        using Suc.hyps(2) e2 by simp
      show "st_exits (v_run_stats v2) \<le> exit_storm_limit d"
        using e e2 by (simp add: word_le_nat_alt)
      show "unat (s + 1) + (unat (exit_storm_limit d) - unat (st_exits (v_run_stats v2))) < unat m"
        using Suc.prems(3) e e2 s2 by simp
    qed (rule Suc.prems(2))
    moreover have "run_loop_from run d m b v s = run_loop_from run d m b1 v2 (s + 1)"
      by (rule run_loop_from_step [where run = run, OF True lt run h iteration(2) [OF run h]])
    ultimately show ?thesis using e e2 s2 by auto
  qed
qed

lemma run_loop_from_steps:
  assumes "s \<le> m" "run_loop_from run d m b v s = (b', v', Ok n)"
  shows "s \<le> n \<and> n \<le> m \<and> \<not> is_runnable (v_state v')"
  using assms
proof (induction "unat m - unat s" arbitrary: b v s rule: less_induct)
  case less
  show ?case
  proof (cases "is_runnable (v_state v) \<and> s < m")
    case False
    with less.prems show ?thesis
      by (cases "is_runnable (v_state v)")
         (auto simp: run_loop_from_stop run_loop_from_budget not_less)
  next
    case True
    then have lt: "s < m" by simp
    have s2: "unat (s + 1) = unat s + 1" by (rule unat_increment [OF lt])
    obtain b1 v1 r where run: "run b v = (b1, v1, r)" by (metis prod_cases3)
    obtain v2 a where h: "handle_exit d r v1 = (v2, a)" by fastforce
    have "run_loop_from run d m b1 v2 (s + 1) = (b', v', Ok n)"
      using run_loop_from_step [where run = run, OF _ lt run h iteration(2) [OF run h]] True less.prems(2) by simp
    moreover have "unat m - unat (s + 1) < unat m - unat s" "s + 1 \<le> m"
      using lt s2 by (simp_all add: word_less_nat_alt word_le_nat_alt)
    ultimately have "s + 1 \<le> n \<and> n \<le> m \<and> \<not> is_runnable (v_state v')"
      using less.hyps by blast
    moreover have "s \<le> s + 1" using s2 by (simp add: word_le_nat_alt)
    ultimately show ?thesis by (blast intro: order_trans)
  qed
qed

end

interpretation fake: svm_backend fake_run
  by unfold_locales (auto simp: fake_run_def Let_def split: if_splits)

subsection \<open>The scheduler's invariant\<close>

definition sched_ok :: "scheduler \<Rightarrow> bool" where
  "sched_ok s \<longleftrightarrow> length (sc_queues s) = 6 \<and>
     (\<forall>q \<in> set (sc_queues s). distinct q \<and> set q \<inter> sc_blocked s = {})"

lemma class_index_less: "class_index c < 6"
  by (simp add: class_index_def split: sched_class.splits)

lemma sched_ok_enqueue:
  assumes "sched_ok s"
  shows "sched_ok (sched_enqueue s v c)"
proof -
  have "sc_queues s ! class_index c \<in> set (sc_queues s)"
    using assms class_index_less [of c] by (simp add: sched_ok_def)
  with assms show ?thesis
    using set_update_subset_insert [of "sc_queues s" "class_index c"]
    by (fastforce simp: sched_ok_def sched_enqueue_def Let_def)
qed

lemma sched_ok_block: "sched_ok s \<Longrightarrow> sched_ok (sched_block s v)"
  by (fastforce simp: sched_ok_def sched_block_def)

lemma pop_unblocked_clean:
  "set q \<inter> bs = {} \<Longrightarrow> pop_unblocked bs q = (rotate1 q, if q = [] then None else Some (hd q))"
  by (cases q) auto

text \<open>Under the invariant the pick is the head of the first queue that is not empty.\<close>

lemma next_in_queues_pick:
  assumes "\<forall>q \<in> set qs. set q \<inter> bs = {}" "k < length qs" "\<forall>j < k. qs ! j = []" "qs ! k \<noteq> []"
  shows "next_in_queues bs qs = (qs[k := rotate1 (qs ! k)], Some (hd (qs ! k)))"
  using assms
proof (induction qs arbitrary: k)
  case (Cons q qs)
  show ?case
  proof (cases k)
    case 0
    with Cons.prems show ?thesis by (simp add: pop_unblocked_clean)
  next
    case (Suc k')
    with Cons.prems have "q = []" by auto
    moreover have "next_in_queues bs qs = (qs[k' := rotate1 (qs ! k')], Some (hd (qs ! k')))"
      using Cons.prems Suc by (intro Cons.IH) auto
    ultimately show ?thesis using Suc by simp
  qed
qed simp

lemma next_in_queues_none:
  "\<forall>q \<in> set qs. q = [] \<Longrightarrow> next_in_queues bs qs = (qs, None)"
  by (induction qs) auto

lemma first_nonempty:
  assumes "\<not> (\<forall>q \<in> set qs. q = [])"
  obtains k where "k < length qs" "\<forall>j < k. qs ! j = []" "qs ! k \<noteq> []"
proof -
  from assms have "\<exists>i. i < length qs \<and> qs ! i \<noteq> []" by (auto simp: in_set_conv_nth)
  then obtain k where k: "k < length qs" "qs ! k \<noteq> []"
    and least: "\<forall>j < k. \<not> (j < length qs \<and> qs ! j \<noteq> [])"
    unfolding exists_least_iff [of "\<lambda>i. i < length qs \<and> qs ! i \<noteq> []"] by blast
  from least k(1) have "\<forall>j < k. qs ! j = []" by (auto dest: less_trans)
  with k show thesis using that by blast
qed

lemma next_runnable_cases:
  assumes "sched_ok s"
  obtains (idle) "next_runnable s = (s, None)" "\<forall>q \<in> set (sc_queues s). q = []"
  | (pick) k where "k < 6" "\<forall>j < k. sc_queues s ! j = []" "sc_queues s ! k \<noteq> []"
      "next_runnable s =
        (s\<lparr>sc_queues := (sc_queues s)[k := rotate1 (sc_queues s ! k)]\<rparr>, Some (hd (sc_queues s ! k)))"
proof (cases "\<forall>q \<in> set (sc_queues s). q = []")
  case True
  then show thesis using idle by (simp add: next_runnable_def next_in_queues_none)
next
  case False
  then obtain k where "k < length (sc_queues s)" "\<forall>j < k. sc_queues s ! j = []" "sc_queues s ! k \<noteq> []"
    by (rule first_nonempty)
  with assms show thesis
    using pick [of k] by (simp add: next_runnable_def next_in_queues_pick sched_ok_def)
qed

lemma sched_ok_next:
  assumes ok: "sched_ok s"
  shows "sched_ok (fst (next_runnable s))"
  using ok
proof (cases rule: next_runnable_cases)
  case (pick k)
  from ok have "sc_queues s ! k \<in> set (sc_queues s)" using pick(1) by (simp add: sched_ok_def)
  with ok pick(4) show ?thesis
    using set_update_subset_insert [of "sc_queues s" k] by (fastforce simp: sched_ok_def)
qed (simp add: ok)

inductive sched_reachable :: "scheduler \<Rightarrow> bool" where
  sr_new: "sched_reachable scheduler_new"
| sr_enqueue: "sched_reachable s \<Longrightarrow> sched_reachable (sched_enqueue s v c)"
| sr_block: "sched_reachable s \<Longrightarrow> sched_reachable (sched_block s v)"
| sr_next: "sched_reachable s \<Longrightarrow> sched_reachable (fst (next_runnable s))"

lemma sched_reachable_ok: "sched_reachable s \<Longrightarrow> sched_ok s"
proof (induction rule: sched_reachable.induct)
  case sr_new
  show ?case by (simp add: scheduler_new_def sched_ok_def)
qed (auto intro: sched_ok_enqueue sched_ok_block sched_ok_next)

text \<open>\<open>n\<close> successive picks.\<close>

fun next_n :: "nat \<Rightarrow> scheduler \<Rightarrow> scheduler \<times> vcpu_id option list" where
  "next_n 0 s = (s, [])"
| "next_n (Suc n) s =
     (let (s1, r) = next_runnable s; (s2, rs) = next_n n s1 in (s2, r # rs))"

lemma next_n_rotates:
  assumes "sched_ok s" "k < 6" "\<forall>j < k. sc_queues s ! j = []" "n \<le> length (sc_queues s ! k)"
  shows "next_n n s = (s\<lparr>sc_queues := (sc_queues s)[k := rotate n (sc_queues s ! k)]\<rparr>,
                       map Some (take n (sc_queues s ! k)))"
  using assms
proof (induction n arbitrary: s)
  case 0
  then show ?case by simp
next
  case (Suc n)
  let ?q = "sc_queues s ! k" and ?s1 = "s\<lparr>sc_queues := (sc_queues s)[k := rotate1 (sc_queues s ! k)]\<rparr>"
  from Suc.prems have ne: "?q \<noteq> []" and len: "k < length (sc_queues s)"
    by (auto simp: sched_ok_def)
  with Suc.prems have nx: "next_runnable s = (?s1, Some (hd ?q))"
    by (simp add: next_runnable_def next_in_queues_pick sched_ok_def)
  have "sched_ok ?s1" using sched_ok_next [OF Suc.prems(1)] nx by simp
  with Suc.prems len have "next_n n ?s1 =
      (?s1\<lparr>sc_queues := (sc_queues ?s1)[k := rotate n (sc_queues ?s1 ! k)]\<rparr>,
       map Some (take n (sc_queues ?s1 ! k)))"
    by (intro Suc.IH) simp_all
  moreover have "take (Suc n) ?q = hd ?q # take n (rotate1 ?q)"
    using ne Suc.prems(4) by (cases ?q) simp_all
  moreover have "rotate n (rotate1 ?q) = rotate (Suc n) ?q"
    by (simp add: rotate1_rotate_swap)
  ultimately show ?case using nx len by simp
qed

subsection \<open>Properties\<close>

text \<open>C17: The dispatcher fails closed: an exit is resumed only while the exit count is within
  the storm limit and the policy permits its reason (an intercepted MSR or port only when it
  is allow-listed, a fault only at a non-null address, a shutdown or an unknown exit never),
  and the vCPU stays runnable only after a resumed exit or an injected \<open>#GP\<close>.\<close>

theorem dispatch_fails_closed:
  "(snd (handle_exit d r v) \<in> {Resume, EmulateAndResume} \<longleftrightarrow>
      sat_add (st_exits (v_run_stats v)) 1 \<le> exit_storm_limit d
      \<and> exit_permitted d (v_intercept_policy v) r)
   \<and> (is_runnable (v_state (fst (handle_exit d r v))) \<longleftrightarrow>
      \<not> is_terminal (v_state v)
      \<and> snd (handle_exit d r v) \<in> {Resume, EmulateAndResume, InjectException GP_FAULT_VECTOR})"
proof (cases "exit_storm_limit d < sat_add (st_exits (v_run_stats v)) 1")
  case True
  then show ?thesis by (simp add: handle_exit_storm is_runnable_def not_le)
next
  case False
  then have h: "handle_exit d r v =
      apply_action (record_exit v r) (exit_action d r (record_exit v r))"
    by (simp add: handle_exit_def Let_def)
  have "is_runnable (v_state (fst (handle_exit d r v))) \<longleftrightarrow>
      \<not> is_terminal (v_state v)
      \<and> snd (handle_exit d r v) \<in> {Resume, EmulateAndResume, InjectException GP_FAULT_VECTOR}"
    unfolding h
    by (cases "v_state v"; cases r)
       (auto simp: exit_action_def is_runnable_def is_terminal_def)
  then show ?thesis
    using False exit_action_resumes_iff [of d r "record_exit v r"] by (simp add: h not_less)
qed

text \<open>C18: Whatever the guest does and whatever the backend reports, a run loop whose step
  budget exceeds what is left of the storm limit returns: the vCPU is no longer runnable and
  at most \<open>limit - exits + 1\<close> exits were handled. The limit is any but the greatest integer,
  which the saturating counter of exits never passes.\<close>

theorem storm_limit_ends_run_loop:
  assumes "\<And>b v b' v' r. run b v = (b', v', r) \<Longrightarrow> v_run_stats v' = v_run_stats v
       \<and> v_intercept_policy v' = v_intercept_policy v \<and> v_id v' = v_id v"
    and "is_runnable (v_state v)"
    and "st_exits (v_run_stats v) \<le> exit_storm_limit d" "exit_storm_limit d < - 1"
    and "unat (exit_storm_limit d) - unat (st_exits (v_run_stats v)) < unat m"
  shows "\<exists>b' v' n. run_loop run d b v m = (b', v', Ok n) \<and> \<not> is_runnable (v_state v')
       \<and> unat n \<le> unat (exit_storm_limit d) - unat (st_exits (v_run_stats v)) + 1"
proof -
  have "svm_backend run" using assms(1) by (intro svm_backend.intro) blast
  from svm_backend.run_loop_from_bounded [OF this assms(3,4), of 0 m b] assms(2,5)
  show ?thesis by (simp add: run_loop_def)
qed

lemma storm_limit_ends_run_loop_witness:
  "\<exists>b' v' n. run_loop fake_run dispatcher_default (fake_new (replicate 5000 (ExternalIrq 32)))
       (vcpu_new 0 ''vm'') 2000 = (b', v', Ok n) \<and> \<not> is_runnable (v_state v') \<and> unat n \<le> 1025"
  using storm_limit_ends_run_loop [where run = fake_run and d = dispatcher_default
      and v = "vcpu_new 0 ''vm''" and m = 2000 and b = "fake_new (replicate 5000 (ExternalIrq 32))"]
  by (simp add: fake.run_keeps is_runnable_def vcpu_new_def dispatcher_default_def
      word_less_nat_alt unat_max_word)

text \<open>C19: Strict priority: in every reachable scheduler the pick is the head of the highest
  priority queue that is not empty, it is not a blocked vCPU, it goes to the back of its own
  queue and every other queue is untouched; nothing is picked exactly when all queues are
  empty.\<close>

theorem scheduler_strict_priority:
  assumes "sched_reachable s"
  shows "(snd (next_runnable s) = None \<longleftrightarrow> sched_is_empty s)
     \<and> (\<forall>v. snd (next_runnable s) = Some v \<longrightarrow>
          v \<notin> sc_blocked s
          \<and> (\<exists>k q. k < 6 \<and> sc_queues s ! k = v # q \<and> (\<forall>j < k. sc_queues s ! j = [])
               \<and> fst (next_runnable s) = s\<lparr>sc_queues := (sc_queues s)[k := q @ [v]]\<rparr>))"
proof -
  have ok: "sched_ok s" by (rule sched_reachable_ok [OF assms])
  then show ?thesis
  proof (cases rule: next_runnable_cases)
    case idle
    then show ?thesis by (simp add: sched_is_empty_def sched_len_def)
  next
    case (pick k)
    then obtain v q where q: "sc_queues s ! k = v # q" by (cases "sc_queues s ! k") auto
    have "sc_queues s ! k \<in> set (sc_queues s)" using ok pick(1) by (simp add: sched_ok_def)
    then have "v \<notin> sc_blocked s" "\<not> sched_is_empty s"
      using ok q by (auto simp: sched_ok_def sched_is_empty_def sched_len_def)
    with pick q show ?thesis by auto
  qed
qed

definition sample_scheduler :: scheduler where
  "sample_scheduler = sched_enqueue (sched_enqueue (sched_enqueue scheduler_new 7 NormalGuest)
     3 NormalGuest) 9 BackgroundGuest"

lemma sample_scheduler_reachable: "sched_reachable sample_scheduler"
  unfolding sample_scheduler_def by (intro sched_reachable.intros)

lemma sample_scheduler_queues:
  "sc_queues sample_scheduler = [[], [], [7, 3], [], [], [9]]" "sc_blocked sample_scheduler = {}"
  by code_simp+

lemma scheduler_strict_priority_witness:
  "snd (next_runnable sample_scheduler) = Some 7 \<and> \<not> sched_is_empty sample_scheduler"
proof -
  have "snd (next_runnable sample_scheduler) = Some 7"
    by (simp add: next_runnable_def sample_scheduler_queues)
  with scheduler_strict_priority [OF sample_scheduler_reachable] show ?thesis by auto
qed

text \<open>C20: Round robin: while no class above it has work, a class of \<open>n\<close> vCPUs gets its next
  \<open>n\<close> picks in queue order, each vCPU exactly once, and the scheduler is back where it was.\<close>

theorem scheduler_round_robin:
  assumes "sched_reachable s" "k < 6" "\<forall>j < k. sc_queues s ! j = []"
  shows "next_n (length (sc_queues s ! k)) s = (s, map Some (sc_queues s ! k))
       \<and> distinct (sc_queues s ! k)"
proof -
  have ok: "sched_ok s" by (rule sched_reachable_ok [OF assms(1)])
  then have "sc_queues s ! k \<in> set (sc_queues s)" using assms(2) by (simp add: sched_ok_def)
  then have "distinct (sc_queues s ! k)" using ok by (simp add: sched_ok_def)
  then show ?thesis using next_n_rotates [OF ok assms(2,3) le_refl] by simp
qed

lemma scheduler_round_robin_witness:
  "next_n 2 sample_scheduler = (sample_scheduler, [Some 7, Some 3])"
proof -
  have "\<forall>j < 2. sc_queues sample_scheduler ! j = []"
    by (auto simp: sample_scheduler_queues less_Suc_eq numeral_2_eq_2)
  from scheduler_round_robin [OF sample_scheduler_reachable _ this]
  show ?thesis by (simp add: sample_scheduler_queues numeral_2_eq_2)
qed

end
