(* ===== verification/Devices.thy ===== *)
theory Devices
  imports Mm
begin

text \<open>
  The device bus of \<open>hyper-devices\<close>: access widths, MMIO / port / interrupt route
  tables, the device graph with its deny-by-default dispatch, and the reference
  \<open>TestDevice\<close>. A boxed \<open>dyn VirtualDevice\<close> is a state of type \<open>'d\<close> together
  with the record \<open>dev_ops\<close> of its methods; the locale \<open>virtual_device\<close> states what
  every implementation in the repository promises.
\<close>

subsection \<open>Widths, errors, actions\<close>

type_synonym device_id = u32

datatype width = WByte | WWord | WDword | WQword

definition width_bytes :: "width \<Rightarrow> u64" where
  "width_bytes w = (case w of WByte \<Rightarrow> 1 | WWord \<Rightarrow> 2 | WDword \<Rightarrow> 4 | WQword \<Rightarrow> 8)"

definition width_bits :: "width \<Rightarrow> u32" where
  "width_bits w = ucast (width_bytes w * 8)"

definition width_mask :: "width \<Rightarrow> u64" where
  "width_mask w = (case w of WQword \<Rightarrow> - 1 | other \<Rightarrow> push_bit (unat (width_bits other)) 1 - 1)"

datatype dev_error =
    UnmappedAddress u64
  | UnknownPort u16
  | UnknownDevice nat
  | UnsupportedWidth u64 width
  | OffsetOutOfRange u64
  | ValueTooWide u64 width

datatype device_action = NoAction | RaiseIrq u8 | NeedsReset

text \<open>The trait \<open>VirtualDevice\<close>: every \<open>&mut self\<close> method returns the new state.\<close>

record 'd dev_ops =
  op_device_id :: "'d \<Rightarrow> device_id"
  op_mmio_read :: "'d \<Rightarrow> u64 \<Rightarrow> width \<Rightarrow> 'd \<times> (dev_error + u64)"
  op_mmio_write :: "'d \<Rightarrow> u64 \<Rightarrow> width \<Rightarrow> u64 \<Rightarrow> 'd \<times> (dev_error + unit)"
  op_io_read :: "'d \<Rightarrow> u16 \<Rightarrow> width \<Rightarrow> 'd \<times> (dev_error + u32)"
  op_io_write :: "'d \<Rightarrow> u16 \<Rightarrow> width \<Rightarrow> u32 \<Rightarrow> 'd \<times> (dev_error + unit)"
  op_tick :: "'d \<Rightarrow> 'd \<times> device_action"
  op_reset :: "'d \<Rightarrow> 'd"

subsection \<open>Route tables\<close>

record mmio_route =
  mr_base :: u64
  mr_len :: u64
  mr_device_index :: nat

definition mr_end :: "mmio_route \<Rightarrow> u64" where
  "mr_end r = sat_add (mr_base r) (mr_len r)"

definition mr_contains :: "mmio_route \<Rightarrow> u64 \<Rightarrow> bool" where
  "mr_contains r a \<longleftrightarrow> mr_base r \<le> a \<and> a < mr_end r"

definition mr_overlaps :: "mmio_route \<Rightarrow> u64 \<Rightarrow> u64 \<Rightarrow> bool" where
  "mr_overlaps r base len =
     (let other_end = sat_add base len in mr_base r < other_end \<and> base < mr_end r)"

type_synonym mmio_route_table = "mmio_route list"

definition mmio_insert ::
  "mmio_route_table \<Rightarrow> u64 \<Rightarrow> u64 \<Rightarrow> nat \<Rightarrow> mmio_route_table \<times> (dev_error + unit)" where
  "mmio_insert rs base len i =
     (if len = 0 then (rs, Err (OffsetOutOfRange base))
      else case find (\<lambda>r. mr_overlaps r base len) rs of
             Some existing \<Rightarrow> (rs, Err (UnmappedAddress (mr_base existing)))
           | None \<Rightarrow> (rs @ [\<lparr>mr_base = base, mr_len = len, mr_device_index = i\<rparr>], Ok ()))"

definition mmio_translate :: "mmio_route_table \<Rightarrow> u64 \<Rightarrow> (nat \<times> u64) option" where
  "mmio_translate rs a =
     map_option (\<lambda>r. (mr_device_index r, a - mr_base r)) (find (\<lambda>r. mr_contains r a) rs)"

record io_port_route =
  ir_base :: u16
  ir_len :: u16
  ir_device_index :: nat

definition ir_end :: "io_port_route \<Rightarrow> u32" where
  "ir_end r = ucast (ir_base r) + ucast (ir_len r)"

definition ir_contains :: "io_port_route \<Rightarrow> u16 \<Rightarrow> bool" where
  "ir_contains r port = (let p = (ucast port :: u32) in ucast (ir_base r) \<le> p \<and> p < ir_end r)"

definition ir_overlaps :: "io_port_route \<Rightarrow> u16 \<Rightarrow> u16 \<Rightarrow> bool" where
  "ir_overlaps r base len =
     (let other_end = (ucast base + ucast len :: u32) in
      ucast (ir_base r) < other_end \<and> ucast base < ir_end r)"

type_synonym io_port_route_table = "io_port_route list"

definition io_insert ::
  "io_port_route_table \<Rightarrow> u16 \<Rightarrow> u16 \<Rightarrow> nat \<Rightarrow> io_port_route_table \<times> (dev_error + unit)" where
  "io_insert rs base len i =
     (if len = 0 then (rs, Err (UnknownPort base))
      else case find (\<lambda>r. ir_overlaps r base len) rs of
             Some existing \<Rightarrow> (rs, Err (UnknownPort (ir_base existing)))
           | None \<Rightarrow> (rs @ [\<lparr>ir_base = base, ir_len = len, ir_device_index = i\<rparr>], Ok ()))"

definition io_translate :: "io_port_route_table \<Rightarrow> u16 \<Rightarrow> (nat \<times> u16) option" where
  "io_translate rs port =
     map_option (\<lambda>r. (ir_device_index r, port - ir_base r)) (find (\<lambda>r. ir_contains r port) rs)"

record irq_route =
  qr_device_index :: nat
  qr_irq :: u8

type_synonym irq_route_table = "irq_route list"

text \<open>\<open>iter_mut().find(..)\<close> updates the first route of the device in place.\<close>

fun irq_insert :: "irq_route_table \<Rightarrow> nat \<Rightarrow> u8 \<Rightarrow> irq_route_table" where
  "irq_insert [] i q = [\<lparr>qr_device_index = i, qr_irq = q\<rparr>]"
| "irq_insert (r # rs) i q =
     (if qr_device_index r = i then r\<lparr>qr_irq := q\<rparr> # rs else r # irq_insert rs i q)"

definition irq_lookup :: "irq_route_table \<Rightarrow> nat \<Rightarrow> u8 option" where
  "irq_lookup rs i = map_option qr_irq (find (\<lambda>r. qr_device_index r = i) rs)"

subsection \<open>The device graph\<close>

record 'd device_graph =
  dg_vm_id :: vm_id
  dg_devices :: "'d list"
  dg_mmio_routes :: mmio_route_table
  dg_io_routes :: io_port_route_table
  dg_irq_routes :: irq_route_table

definition graph_new :: "vm_id \<Rightarrow> 'd device_graph" where
  "graph_new vm = \<lparr>dg_vm_id = vm, dg_devices = [], dg_mmio_routes = [], dg_io_routes = [],
                   dg_irq_routes = []\<rparr>"

definition device_count :: "'d device_graph \<Rightarrow> nat" where
  "device_count g = length (dg_devices g)"

text \<open>\<open>register\<close>: first the MMIO route, then the ports (rolling the MMIO route back), then
  the interrupt line, then the device itself.\<close>

definition register_mmio ::
  "'d device_graph \<Rightarrow> (u64 \<times> u64) option \<Rightarrow> nat \<Rightarrow> 'd device_graph \<times> (dev_error + unit)" where
  "register_mmio g mmio_range i =
     (case mmio_range of
        Some (base, len) \<Rightarrow>
          (let (rs, r) = mmio_insert (dg_mmio_routes g) base len i in (g\<lparr>dg_mmio_routes := rs\<rparr>, r))
      | None \<Rightarrow> (g, Ok ()))"

definition register_io ::
  "'d device_graph \<Rightarrow> (u16 \<times> u16) option \<Rightarrow> nat \<Rightarrow> 'd device_graph \<times> (dev_error + unit)" where
  "register_io g ports i =
     (case ports of
        Some (base, len) \<Rightarrow>
          (case io_insert (dg_io_routes g) base len i of
             (rs, Inl e) \<Rightarrow>
               (g\<lparr>dg_io_routes := rs,
                  dg_mmio_routes := filter (\<lambda>r. mr_device_index r \<noteq> i) (dg_mmio_routes g)\<rparr>, Err e)
           | (rs, Inr _) \<Rightarrow> (g\<lparr>dg_io_routes := rs\<rparr>, Ok ()))
      | None \<Rightarrow> (g, Ok ()))"

definition register_device ::
  "'d device_graph \<Rightarrow> 'd \<Rightarrow> (u64 \<times> u64) option \<Rightarrow> (u16 \<times> u16) option \<Rightarrow> u8 option
     \<Rightarrow> 'd device_graph \<times> (dev_error + nat)" where
  "register_device g dev mmio_range ports irq =
     (let i = length (dg_devices g) in
      case register_mmio g mmio_range i of
        (g1, Inl e) \<Rightarrow> (g1, Err e)
      | (g1, Inr _) \<Rightarrow>
          (case register_io g1 ports i of
             (g2, Inl e) \<Rightarrow> (g2, Err e)
           | (g2, Inr _) \<Rightarrow>
               (let g3 = (case irq of
                            Some line \<Rightarrow> g2\<lparr>dg_irq_routes := irq_insert (dg_irq_routes g2) i line\<rparr>
                          | None \<Rightarrow> g2)
                in (g3\<lparr>dg_devices := dg_devices g3 @ [dev]\<rparr>, Ok i))))"

text \<open>\<open>device_mut(index)?\<close> followed by a method call on the borrowed device.\<close>

definition with_device ::
  "'d device_graph \<Rightarrow> nat \<Rightarrow> ('d \<Rightarrow> 'd \<times> (dev_error + 'r)) \<Rightarrow> 'd device_graph \<times> (dev_error + 'r)" where
  "with_device g i f =
     (if i < length (dg_devices g)
      then let (dev, r) = f (dg_devices g ! i) in (g\<lparr>dg_devices := (dg_devices g)[i := dev]\<rparr>, r)
      else (g, Err (UnknownDevice i)))"

definition dispatch_mmio_read ::
  "'d dev_ops \<Rightarrow> 'd device_graph \<Rightarrow> u64 \<Rightarrow> width \<Rightarrow> 'd device_graph \<times> (dev_error + u64)" where
  "dispatch_mmio_read ops g a w =
     (case mmio_translate (dg_mmio_routes g) a of
        None \<Rightarrow> (g, Err (UnmappedAddress a))
      | Some (i, off) \<Rightarrow> with_device g i (\<lambda>d. op_mmio_read ops d off w))"

definition dispatch_mmio_write ::
  "'d dev_ops \<Rightarrow> 'd device_graph \<Rightarrow> u64 \<Rightarrow> width \<Rightarrow> u64 \<Rightarrow> 'd device_graph \<times> (dev_error + unit)" where
  "dispatch_mmio_write ops g a w v =
     (case mmio_translate (dg_mmio_routes g) a of
        None \<Rightarrow> (g, Err (UnmappedAddress a))
      | Some (i, off) \<Rightarrow> with_device g i (\<lambda>d. op_mmio_write ops d off w v))"

definition dispatch_io_read ::
  "'d dev_ops \<Rightarrow> 'd device_graph \<Rightarrow> u16 \<Rightarrow> width \<Rightarrow> 'd device_graph \<times> (dev_error + u32)" where
  "dispatch_io_read ops g port w =
     (case io_translate (dg_io_routes g) port of
        None \<Rightarrow> (g, Err (UnknownPort port))
      | Some (i, off) \<Rightarrow> with_device g i (\<lambda>d. op_io_read ops d off w))"

definition dispatch_io_write ::
  "'d dev_ops \<Rightarrow> 'd device_graph \<Rightarrow> u16 \<Rightarrow> width \<Rightarrow> u32 \<Rightarrow> 'd device_graph \<times> (dev_error + unit)" where
  "dispatch_io_write ops g port w v =
     (case io_translate (dg_io_routes g) port of
        None \<Rightarrow> (g, Err (UnknownPort port))
      | Some (i, off) \<Rightarrow> with_device g i (\<lambda>d. op_io_write ops d off w v))"

definition tick_device ::
  "'d dev_ops \<Rightarrow> 'd device_graph \<Rightarrow> nat \<Rightarrow> 'd device_graph \<times> (dev_error + device_action)" where
  "tick_device ops g i = with_device g i (\<lambda>d. let (d', a) = op_tick ops d in (d', Ok a))"

definition irq_for :: "'d device_graph \<Rightarrow> nat \<Rightarrow> u8 option" where
  "irq_for g i = irq_lookup (dg_irq_routes g) i"

definition reset_device ::
  "'d dev_ops \<Rightarrow> 'd device_graph \<Rightarrow> nat \<Rightarrow> 'd device_graph \<times> (dev_error + unit)" where
  "reset_device ops g i = with_device g i (\<lambda>d. (op_reset ops d, Ok ()))"

subsection \<open>The reference device\<close>

record test_device =
  td_id :: device_id
  td_regs :: "u64 list"
  td_ticks :: u32
  td_irq_after :: "(u32 \<times> u8) option"

definition REG_COUNT :: u64 where "REG_COUNT = 8"

definition test_device_new :: "device_id \<Rightarrow> test_device" where
  "test_device_new i = \<lparr>td_id = i, td_regs = replicate 8 0, td_ticks = 0, td_irq_after = None\<rparr>"

definition with_irq_after :: "test_device \<Rightarrow> u32 \<Rightarrow> u8 \<Rightarrow> test_device" where
  "with_irq_after d after irq = d\<lparr>td_irq_after := Some (after, irq)\<rparr>"

definition td_reg :: "test_device \<Rightarrow> nat \<Rightarrow> u64 option" where
  "td_reg d i = (if i < length (td_regs d) then Some (td_regs d ! i) else None)"

definition reg_index :: "u64 \<Rightarrow> dev_error + nat" where
  "reg_index off =
     (if off mod 8 \<noteq> 0 then Err (OffsetOutOfRange off)
      else let i = off div 8 in
        if REG_COUNT \<le> i then Err (OffsetOutOfRange off) else Ok (unat i))"

definition td_mmio_read :: "test_device \<Rightarrow> u64 \<Rightarrow> width \<Rightarrow> test_device \<times> (dev_error + u64)" where
  "td_mmio_read d off w =
     (case reg_index off of
        Inl e \<Rightarrow> (d, Err e)
      | Inr i \<Rightarrow> (d, Ok (td_regs d ! i AND width_mask w)))"

definition td_mmio_write :: "test_device \<Rightarrow> u64 \<Rightarrow> width \<Rightarrow> u64 \<Rightarrow> test_device \<times> (dev_error + unit)" where
  "td_mmio_write d off w v =
     (case reg_index off of
        Inl e \<Rightarrow> (d, Err e)
      | Inr i \<Rightarrow>
          if v AND NOT (width_mask w) \<noteq> 0 then (d, Err (ValueTooWide v w))
          else (d\<lparr>td_regs := (td_regs d)[i := v]\<rparr>, Ok ()))"

definition io_mask :: "width \<Rightarrow> u32" where
  "io_mask w = ucast (width_mask w AND 0xFFFFFFFF)"

definition td_io_read :: "test_device \<Rightarrow> u16 \<Rightarrow> width \<Rightarrow> test_device \<times> (dev_error + u32)" where
  "td_io_read d port w =
     (case reg_index (ucast port) of
        Inl e \<Rightarrow> (d, Err e)
      | Inr i \<Rightarrow> (d, Ok (ucast (td_regs d ! i) AND io_mask w)))"

definition td_io_write :: "test_device \<Rightarrow> u16 \<Rightarrow> width \<Rightarrow> u32 \<Rightarrow> test_device \<times> (dev_error + unit)" where
  "td_io_write d port w v =
     (case reg_index (ucast port) of
        Inl e \<Rightarrow> (d, Err e)
      | Inr i \<Rightarrow>
          if v AND NOT (io_mask w) \<noteq> 0 then (d, Err (ValueTooWide (ucast v) w))
          else (d\<lparr>td_regs := (td_regs d)[i := ucast v]\<rparr>, Ok ()))"

definition td_tick :: "test_device \<Rightarrow> test_device \<times> device_action" where
  "td_tick d =
     (let d' = d\<lparr>td_ticks := sat_add (td_ticks d) 1\<rparr> in
      case td_irq_after d' of
        Some (after, irq) \<Rightarrow> if after \<le> td_ticks d' then (d', RaiseIrq irq) else (d', NoAction)
      | None \<Rightarrow> (d', NoAction))"

definition td_reset :: "test_device \<Rightarrow> test_device" where
  "td_reset d = d\<lparr>td_regs := replicate 8 0, td_ticks := 0\<rparr>"

definition test_device_ops :: "test_device dev_ops" where
  "test_device_ops = \<lparr>op_device_id = td_id, op_mmio_read = td_mmio_read,
     op_mmio_write = td_mmio_write, op_io_read = td_io_read, op_io_write = td_io_write,
     op_tick = td_tick, op_reset = td_reset\<rparr>"

subsection \<open>What a device promises\<close>

text \<open>A refused access changes nothing, and no access changes the device's identity.\<close>

locale virtual_device =
  fixes ops :: "'d dev_ops"
  assumes mmio_read_err: "op_mmio_read ops d off w = (d', Err e) \<Longrightarrow> d' = d"
    and mmio_write_err: "op_mmio_write ops d off w v = (d', Err e) \<Longrightarrow> d' = d"
    and io_read_err: "op_io_read ops d port w = (d', Err e) \<Longrightarrow> d' = d"
    and io_write_err: "op_io_write ops d port w x = (d', Err e) \<Longrightarrow> d' = d"
    and mmio_read_id: "op_device_id ops (fst (op_mmio_read ops d off w)) = op_device_id ops d"
    and mmio_write_id: "op_device_id ops (fst (op_mmio_write ops d off w v)) = op_device_id ops d"
    and io_read_id: "op_device_id ops (fst (op_io_read ops d port w)) = op_device_id ops d"
    and io_write_id: "op_device_id ops (fst (op_io_write ops d port w x)) = op_device_id ops d"
    and tick_id: "op_device_id ops (fst (op_tick ops d)) = op_device_id ops d"
    and reset_id: "op_device_id ops (op_reset ops d) = op_device_id ops d"
begin

lemma refused_unchanged:
  "snd (op_mmio_read ops d off w) = Err e \<Longrightarrow> fst (op_mmio_read ops d off w) = d"
  "snd (op_mmio_write ops d off w v) = Err e \<Longrightarrow> fst (op_mmio_write ops d off w v) = d"
  "snd (op_io_read ops d port w) = Err e \<Longrightarrow> fst (op_io_read ops d port w) = d"
  "snd (op_io_write ops d port w x) = Err e \<Longrightarrow> fst (op_io_write ops d port w x) = d"
  by (metis mmio_read_err mmio_write_err io_read_err io_write_err prod.collapse)+

definition ids :: "'d device_graph \<Rightarrow> device_id list" where
  "ids g = map (op_device_id ops) (dg_devices g)"

lemma with_device_err:
  assumes "with_device g i f = (g', Err e)" "\<And>d d'. f d = (d', Err e) \<Longrightarrow> d' = d"
  shows "g' = g"
proof (cases "i < length (dg_devices g)")
  case True
  obtain d r where f: "f (dg_devices g ! i) = (d, r)" by fastforce
  with True assms(1) have "r = Err e" "g' = g\<lparr>dg_devices := (dg_devices g)[i := d]\<rparr>"
    by (simp_all add: with_device_def)
  moreover from this f have "d = dg_devices g ! i" using assms(2) by blast
  ultimately show ?thesis by simp
next
  case False
  with assms(1) show ?thesis by (simp add: with_device_def)
qed

lemma with_device_ids:
  assumes "\<And>d. op_device_id ops (fst (f d)) = op_device_id ops d"
  shows "ids (fst (with_device g i f)) = ids g"
proof (cases "i < length (dg_devices g)")
  case True
  obtain d r where f: "f (dg_devices g ! i) = (d, r)" by fastforce
  with assms [of "dg_devices g ! i"] have "op_device_id ops d = op_device_id ops (dg_devices g ! i)"
    by simp
  with True f show ?thesis
    by (simp add: with_device_def ids_def map_update list_update_same_conv)
qed (simp add: with_device_def)

lemma dispatch_err_unchanged:
  "dispatch_mmio_read ops g a w = (g', Err e) \<Longrightarrow> g' = g"
  "dispatch_mmio_write ops g a w v = (g', Err e) \<Longrightarrow> g' = g"
  "dispatch_io_read ops g port w = (g', Err e) \<Longrightarrow> g' = g"
  "dispatch_io_write ops g port w x = (g', Err e) \<Longrightarrow> g' = g"
  using mmio_read_err mmio_write_err io_read_err io_write_err
  by (auto simp: dispatch_mmio_read_def dispatch_mmio_write_def dispatch_io_read_def
      dispatch_io_write_def split: option.splits elim!: with_device_err)

lemma dispatch_ids:
  "ids (fst (dispatch_mmio_read ops g a w)) = ids g"
  "ids (fst (dispatch_mmio_write ops g a w v)) = ids g"
  "ids (fst (dispatch_io_read ops g port w)) = ids g"
  "ids (fst (dispatch_io_write ops g port w x)) = ids g"
  "ids (fst (tick_device ops g i)) = ids g"
  "ids (fst (reset_device ops g i)) = ids g"
  by (auto simp: dispatch_mmio_read_def dispatch_mmio_write_def dispatch_io_read_def
      dispatch_io_write_def tick_device_def reset_device_def case_prod_beta
      mmio_read_id mmio_write_id io_read_id io_write_id tick_id reset_id
      intro!: with_device_ids split: option.splits)

end

lemma test_device_ops_simps [simp]:
  "op_device_id test_device_ops = td_id" "op_mmio_read test_device_ops = td_mmio_read"
  "op_mmio_write test_device_ops = td_mmio_write" "op_io_read test_device_ops = td_io_read"
  "op_io_write test_device_ops = td_io_write" "op_tick test_device_ops = td_tick"
  "op_reset test_device_ops = td_reset"
  by (simp_all add: test_device_ops_def)

interpretation test_dev: virtual_device test_device_ops
  by unfold_locales
     (auto simp: td_mmio_read_def td_mmio_write_def td_io_read_def td_io_write_def td_tick_def
       td_reset_def Let_def split: sum.splits if_splits option.splits)

subsection \<open>The graph's invariant\<close>

lemma mr_overlaps_iff:
  "mr_overlaps r base len = range_overlaps (mr_base r) (mr_len r) base len"
  by (simp add: mr_overlaps_def range_overlaps_def mr_end_def Let_def)

lemma mr_contains_iff: "mr_contains r a = range_contains (mr_base r) (mr_len r) a"
  by (simp add: mr_contains_def range_contains_def mr_end_def)

definition routes_disjoint :: "mmio_route_table \<Rightarrow> bool" where
  "routes_disjoint rs \<longleftrightarrow>
     sorted_wrt (\<lambda>r s. \<not> range_overlaps (mr_base r) (mr_len r) (mr_base s) (mr_len s)) rs"

definition ports_disjoint :: "io_port_route_table \<Rightarrow> bool" where
  "ports_disjoint rs \<longleftrightarrow> sorted_wrt (\<lambda>r s. \<not> ir_overlaps r (ir_base s) (ir_len s)) rs"

definition graph_ok :: "'d device_graph \<Rightarrow> bool" where
  "graph_ok g \<longleftrightarrow>
     routes_disjoint (dg_mmio_routes g) \<and> ports_disjoint (dg_io_routes g)
     \<and> (\<forall>r \<in> set (dg_mmio_routes g). mr_device_index r < length (dg_devices g) \<and> mr_len r \<noteq> 0)
     \<and> (\<forall>r \<in> set (dg_io_routes g). ir_device_index r < length (dg_devices g) \<and> ir_len r \<noteq> 0)
     \<and> (\<forall>r \<in> set (dg_irq_routes g). qr_device_index r < length (dg_devices g))
     \<and> distinct (map qr_device_index (dg_irq_routes g))"

lemma mmio_insert_cases:
  obtains (ok) "mmio_insert rs base len i = (rs @ [\<lparr>mr_base = base, mr_len = len, mr_device_index = i\<rparr>], Ok ())"
      "len \<noteq> 0" "\<forall>r \<in> set rs. \<not> range_overlaps (mr_base r) (mr_len r) base len"
  | (fail) e where "mmio_insert rs base len i = (rs, Err e)"
      "len = 0 \<or> (\<exists>r \<in> set rs. range_overlaps (mr_base r) (mr_len r) base len)"
proof (cases "len = 0")
  case True
  then show thesis using fail by (simp add: mmio_insert_def)
next
  case False
  show thesis
  proof (cases "find (\<lambda>r. mr_overlaps r base len) rs")
    case None
    then have "\<forall>r \<in> set rs. \<not> range_overlaps (mr_base r) (mr_len r) base len"
      by (auto simp: find_None_iff mr_overlaps_iff)
    with None show thesis using ok False by (simp add: mmio_insert_def)
  next
    case (Some r)
    then have "\<exists>r \<in> set rs. range_overlaps (mr_base r) (mr_len r) base len"
      using find_SomeD [OF Some] by (auto simp: mr_overlaps_iff)
    then show thesis using fail Some False by (simp add: mmio_insert_def)
  qed
qed

lemma io_insert_cases:
  obtains (ok) "io_insert rs base len i = (rs @ [\<lparr>ir_base = base, ir_len = len, ir_device_index = i\<rparr>], Ok ())"
      "len \<noteq> 0" "\<forall>r \<in> set rs. \<not> ir_overlaps r base len"
  | (fail) e where "io_insert rs base len i = (rs, Err e)"
      "len = 0 \<or> (\<exists>r \<in> set rs. ir_overlaps r base len)"
proof (cases "len = 0")
  case True
  then show thesis using fail by (simp add: io_insert_def)
next
  case False
  show thesis
  proof (cases "find (\<lambda>r. ir_overlaps r base len) rs")
    case None
    then have "\<forall>r \<in> set rs. \<not> ir_overlaps r base len" by (auto simp: find_None_iff)
    with None show thesis using ok False by (simp add: io_insert_def)
  next
    case (Some r)
    then show thesis using fail find_SomeD [OF Some] False by (auto simp: io_insert_def)
  qed
qed

lemma irq_insert_set:
  "set (irq_insert rs i q) \<subseteq> insert \<lparr>qr_device_index = i, qr_irq = q\<rparr> (set rs)
     \<union> {r. qr_device_index r = i}"
  by (induction rs) auto

lemma irq_lookup_insert: "irq_lookup (irq_insert rs i q) j = (if j = i then Some q else irq_lookup rs j)"
  by (induction rs) (auto simp: irq_lookup_def)

lemma irq_insert_indices:
  "\<forall>r \<in> set rs. qr_device_index r < n \<Longrightarrow> i < n \<Longrightarrow> \<forall>r \<in> set (irq_insert rs i q). qr_device_index r < n"
  using irq_insert_set [of rs i q] by fastforce

lemma irq_insert_devices:
  "qr_device_index ` set (irq_insert rs i q) = insert i (qr_device_index ` set rs)"
  by (induction rs) auto

lemma irq_insert_distinct:
  "distinct (map qr_device_index rs) \<Longrightarrow> distinct (map qr_device_index (irq_insert rs i q))"
  by (induction rs) (auto simp: irq_insert_devices)

lemma register_io_cases:
  obtains (ok) rs where "register_io g ports i = (g\<lparr>dg_io_routes := rs\<rparr>, Ok ())"
      "ports = None \<and> rs = dg_io_routes g \<or> (\<exists>base len. ports = Some (base, len) \<and> len \<noteq> 0
        \<and> (\<forall>r \<in> set (dg_io_routes g). \<not> ir_overlaps r base len)
        \<and> rs = dg_io_routes g @ [\<lparr>ir_base = base, ir_len = len, ir_device_index = i\<rparr>])"
  | (fail) e base len where "register_io g ports i =
        (g\<lparr>dg_mmio_routes := filter (\<lambda>r. mr_device_index r \<noteq> i) (dg_mmio_routes g)\<rparr>, Err e)"
      "ports = Some (base, len)" "len = 0 \<or> (\<exists>r \<in> set (dg_io_routes g). ir_overlaps r base len)"
proof (cases ports)
  case None
  then show thesis using ok [of "dg_io_routes g"] by (simp add: register_io_def)
next
  case (Some p)
  obtain base len where p: "p = (base, len)" by fastforce
  show thesis
  proof (cases rule: io_insert_cases [of "dg_io_routes g" base len i])
    case 1: ok
    then show thesis using ok Some p by (simp add: register_io_def)
  next
    case 2: (fail e)
    then show thesis using fail [of e base len] Some p by (simp add: register_io_def)
  qed
qed

lemma register_mmio_cases:
  obtains (ok) rs where "register_mmio g mr i = (g\<lparr>dg_mmio_routes := rs\<rparr>, Ok ())"
      "mr = None \<and> rs = dg_mmio_routes g \<or> (\<exists>base len. mr = Some (base, len) \<and> len \<noteq> 0
        \<and> (\<forall>r \<in> set (dg_mmio_routes g). \<not> range_overlaps (mr_base r) (mr_len r) base len)
        \<and> rs = dg_mmio_routes g @ [\<lparr>mr_base = base, mr_len = len, mr_device_index = i\<rparr>])"
  | (fail) e base len where "register_mmio g mr i = (g, Err e)" "mr = Some (base, len)"
      "len = 0 \<or> (\<exists>r \<in> set (dg_mmio_routes g). range_overlaps (mr_base r) (mr_len r) base len)"
proof (cases mr)
  case None
  then show thesis using ok [of "dg_mmio_routes g"] by (simp add: register_mmio_def)
next
  case (Some p)
  obtain base len where p: "p = (base, len)" by fastforce
  show thesis
  proof (cases rule: mmio_insert_cases [of "dg_mmio_routes g" base len i])
    case 1: ok
    then show thesis using ok Some p by (simp add: register_mmio_def)
  next
    case 2: (fail e)
    then show thesis using fail [of e base len] Some p by (simp add: register_mmio_def)
  qed
qed

text \<open>The guards of a registration.\<close>

definition routes_free ::
  "'d device_graph \<Rightarrow> (u64 \<times> u64) option \<Rightarrow> (u16 \<times> u16) option \<Rightarrow> bool" where
  "routes_free g mr ports \<longleftrightarrow>
     (\<forall>base len. mr = Some (base, len) \<longrightarrow> len \<noteq> 0
        \<and> (\<forall>r \<in> set (dg_mmio_routes g). \<not> range_overlaps (mr_base r) (mr_len r) base len))
     \<and> (\<forall>base len. ports = Some (base, len) \<longrightarrow> len \<noteq> 0
        \<and> (\<forall>r \<in> set (dg_io_routes g). \<not> ir_overlaps r base len))"

lemma register_cases:
  assumes "graph_ok g"
  obtains (ok) g' where "register_device g dev mr ports irq = (g', Ok (length (dg_devices g)))"
      "routes_free g mr ports" "dg_devices g' = dg_devices g @ [dev]" "graph_ok g'"
      "\<And>i. i < length (dg_devices g) \<Longrightarrow> irq_for g' i = irq_for g i"
      "irq_for g' (length (dg_devices g)) = (if irq = None then irq_for g (length (dg_devices g)) else irq)"
  | (fail) e where "register_device g dev mr ports irq = (g, Err e)" "\<not> routes_free g mr ports"
proof (cases rule: register_mmio_cases [of g mr "length (dg_devices g)"])
  case 1: (fail e base len)
  then have "\<not> routes_free g mr ports" by (auto simp: routes_free_def)
  then show thesis using fail 1 by (simp add: register_device_def)
next
  case m: (ok ms)
  let ?g1 = "g\<lparr>dg_mmio_routes := ms\<rparr>"
  show thesis
  proof (cases rule: register_io_cases [of ?g1 ports "length (dg_devices g)"])
    case 1: (fail e base len)
    have "filter (\<lambda>r. mr_device_index r \<noteq> length (dg_devices g)) (dg_mmio_routes g) = dg_mmio_routes g"
      using assms by (auto simp: graph_ok_def intro!: filter_True)
    then have "filter (\<lambda>r. mr_device_index r \<noteq> length (dg_devices g)) ms = dg_mmio_routes g"
      using m(2) by auto
    then have "register_device g dev mr ports irq = (g, Err e)"
      using m(1) 1(1) by (simp add: register_device_def)
    moreover have "\<not> routes_free g mr ports" using 1 by (auto simp: routes_free_def)
    ultimately show thesis using fail by blast
  next
    case i: (ok rs)
    have rf: "routes_free g mr ports" using m(2) i(2) by (auto simp: routes_free_def)
    define g2 where "g2 = g\<lparr>dg_mmio_routes := ms, dg_io_routes := rs\<rparr>"
    define g' where "g' = (case irq of
        Some line \<Rightarrow> g2\<lparr>dg_irq_routes := irq_insert (dg_irq_routes g2) (length (dg_devices g)) line\<rparr>
      | None \<Rightarrow> g2)\<lparr>dg_devices := dg_devices g @ [dev]\<rparr>"
    have reg: "register_device g dev mr ports irq = (g', Ok (length (dg_devices g)))"
      using m(1) i(1) by (simp add: register_device_def g'_def g2_def Let_def split: option.splits)
    have g': "dg_devices g' = dg_devices g @ [dev]" "dg_mmio_routes g' = ms" "dg_io_routes g' = rs"
      "dg_irq_routes g' = (case irq of Some line \<Rightarrow> irq_insert (dg_irq_routes g) (length (dg_devices g)) line
         | None \<Rightarrow> dg_irq_routes g)"
      by (simp_all add: g'_def g2_def split: option.splits)
    have ms: "routes_disjoint ms \<and> (\<forall>r \<in> set ms. mr_device_index r < Suc (length (dg_devices g)) \<and> mr_len r \<noteq> 0)"
      using m(2) assms by (auto simp: graph_ok_def routes_disjoint_def sorted_wrt_append less_SucI)
    have rs: "ports_disjoint rs \<and> (\<forall>r \<in> set rs. ir_device_index r < Suc (length (dg_devices g)) \<and> ir_len r \<noteq> 0)"
      using i(2) assms by (auto simp: graph_ok_def ports_disjoint_def sorted_wrt_append less_SucI)
    have qs: "\<forall>r \<in> set (dg_irq_routes g'). qr_device_index r < Suc (length (dg_devices g))"
      using assms irq_insert_indices [of "dg_irq_routes g" "Suc (length (dg_devices g))"]
      by (auto simp: g'(4) graph_ok_def less_SucI split: option.splits)
    have "distinct (map qr_device_index (dg_irq_routes g'))"
      using assms by (auto simp: g'(4) graph_ok_def irq_insert_distinct split: option.splits)
    then have "graph_ok g'" using ms rs qs by (simp add: graph_ok_def g')
    moreover have "irq_for g' j = (if irq \<noteq> None \<and> j = length (dg_devices g) then irq else irq_for g j)" for j
      by (simp add: irq_for_def g' irq_lookup_insert split: option.splits)
    ultimately show thesis using ok [OF reg rf g'(1)] by simp
  qed
qed

inductive graph_reachable :: "'d dev_ops \<Rightarrow> 'd device_graph \<Rightarrow> bool" for ops where
  gr_new: "graph_reachable ops (graph_new vm)"
| gr_register: "graph_reachable ops g \<Longrightarrow> graph_reachable ops (fst (register_device g dev mr ports irq))"
| gr_mmio_read: "graph_reachable ops g \<Longrightarrow> graph_reachable ops (fst (dispatch_mmio_read ops g a w))"
| gr_mmio_write: "graph_reachable ops g \<Longrightarrow> graph_reachable ops (fst (dispatch_mmio_write ops g a w v))"
| gr_io_read: "graph_reachable ops g \<Longrightarrow> graph_reachable ops (fst (dispatch_io_read ops g p w))"
| gr_io_write: "graph_reachable ops g \<Longrightarrow> graph_reachable ops (fst (dispatch_io_write ops g p w x))"
| gr_tick: "graph_reachable ops g \<Longrightarrow> graph_reachable ops (fst (tick_device ops g i))"
| gr_reset: "graph_reachable ops g \<Longrightarrow> graph_reachable ops (fst (reset_device ops g i))"

lemma graph_ok_with_device: "graph_ok g \<Longrightarrow> graph_ok (fst (with_device g i f))"
  by (auto simp: with_device_def graph_ok_def case_prod_beta)

lemma graph_reachable_ok: "graph_reachable ops g \<Longrightarrow> graph_ok g"
proof (induction rule: graph_reachable.induct)
  case (gr_new vm)
  show ?case by (simp add: graph_new_def graph_ok_def routes_disjoint_def ports_disjoint_def)
next
  case (gr_register g dev mr ports irq)
  from gr_register.IH show ?case
    by (cases rule: register_cases [where dev = dev and mr = mr and ports = ports and irq = irq])
       (use gr_register.IH in auto)
qed (auto simp: dispatch_mmio_read_def dispatch_mmio_write_def dispatch_io_read_def
      dispatch_io_write_def tick_device_def reset_device_def graph_ok_with_device
      split: option.splits)

lemma mmio_translate_unique:
  assumes "routes_disjoint rs" "r \<in> set rs" "mr_contains r a"
  shows "mmio_translate rs a = Some (mr_device_index r, a - mr_base r)"
proof -
  have "sorted_wrt (\<lambda>r s. \<not> (mr_contains r a \<and> mr_contains s a)) rs"
    using assms(1) unfolding routes_disjoint_def
    by (rule sorted_wrt_mono_rel [rotated]) (auto simp: mr_contains_iff intro: range_overlapsI)
  from find_unique [OF this assms(2,3)] show ?thesis by (simp add: mmio_translate_def)
qed

subsection \<open>Properties\<close>

text \<open>C23: Every reachable device graph is well formed: at most one MMIO route holds an address and
  at most one port route a port, each with a device that exists, so no access is ambiguous
  and the index of a dispatch never leaves the list; and a device has at most one interrupt
  line.\<close>

theorem reachable_graph_well_formed:
  assumes "graph_reachable ops g"
  shows "length (filter (\<lambda>r. mr_contains r a) (dg_mmio_routes g)) \<le> 1
     \<and> length (filter (\<lambda>r. ir_contains r p) (dg_io_routes g)) \<le> 1
     \<and> (case mmio_translate (dg_mmio_routes g) a of None \<Rightarrow> True | Some (i, off) \<Rightarrow> i < device_count g)
     \<and> (case io_translate (dg_io_routes g) p of None \<Rightarrow> True | Some (i, off) \<Rightarrow> i < device_count g)
     \<and> length (filter (\<lambda>q. qr_device_index q = i) (dg_irq_routes g)) \<le> 1"
proof (intro conjI)
  note ok = graph_reachable_ok [OF assms, unfolded graph_ok_def]
  show "length (filter (\<lambda>r. mr_contains r a) (dg_mmio_routes g)) \<le> 1"
    using ok unfolding routes_disjoint_def
    by (intro filter_at_most_one) (auto simp: mr_contains_iff intro: range_overlapsI elim: sorted_wrt_mono_rel [rotated])
  show "length (filter (\<lambda>r. ir_contains r p) (dg_io_routes g)) \<le> 1"
    using ok unfolding ports_disjoint_def
    by (intro filter_at_most_one)
       (auto simp: ir_contains_def ir_overlaps_def ir_end_def Let_def elim!: sorted_wrt_mono_rel [rotated])
  show "case mmio_translate (dg_mmio_routes g) a of None \<Rightarrow> True | Some (i, off) \<Rightarrow> i < device_count g"
    using ok by (auto simp: mmio_translate_def device_count_def dest!: find_SomeD split: option.split)
  show "case io_translate (dg_io_routes g) p of None \<Rightarrow> True | Some (i, off) \<Rightarrow> i < device_count g"
    using ok by (auto simp: io_translate_def device_count_def dest!: find_SomeD split: option.split)
  show "length (filter (\<lambda>q. qr_device_index q = i) (dg_irq_routes g)) \<le> 1"
    using ok by (intro filter_at_most_one) (auto simp: distinct_map sorted_wrt_iff_nth_less distinct_conv_nth inj_on_def)
qed

lemma reachable_graph_well_formed_witness:
  "let g = fst (register_device (graph_new ''vm'') (test_device_new 1) (Some (0x1000, 0x40)) (Some (0x60, 4)) (Some 5))
   in mmio_translate (dg_mmio_routes g) 0x1008 = Some (0, 8)
     \<and> length (filter (\<lambda>r. mr_contains r 0x1008) (dg_mmio_routes g)) \<le> 1"
proof -
  let ?g = "fst (register_device (graph_new ''vm'') (test_device_new 1) (Some (0x1000, 0x40)) (Some (0x60, 4)) (Some 5))"
  have r: "graph_reachable test_device_ops ?g" by (intro graph_reachable.intros)
  have "mmio_translate (dg_mmio_routes ?g) 0x1008 = Some (0, 8)"
    by (simp add: register_device_def register_mmio_def register_io_def mmio_insert_def io_insert_def
        graph_new_def mmio_translate_def mr_contains_def mr_end_def sat_add_def Let_def)
  with reachable_graph_well_formed [OF r, of "0x1008", THEN conjunct1] show ?thesis by (simp only: Let_def simp_thms)
qed

text \<open>C24: Registration is all or nothing: on a reachable graph it succeeds exactly when both
  requested ranges are non-empty and free; a failure, even after the MMIO route was taken,
  leaves the graph as it was, and a success appends the device under the index returned and
  leaves the interrupt lines of the others alone.\<close>

theorem register_all_or_nothing:
  assumes "graph_reachable ops g"
  shows "(is_ok (snd (register_device g dev mr ports irq)) \<longleftrightarrow> routes_free g mr ports)
     \<and> (register_device g dev mr ports irq = (g', Err e) \<longrightarrow> g' = g)
     \<and> (register_device g dev mr ports irq = (g', Ok i) \<longrightarrow>
          i = device_count g \<and> dg_devices g' = dg_devices g @ [dev]
          \<and> (\<forall>j < device_count g. irq_for g' j = irq_for g j)
          \<and> (irq \<noteq> None \<longrightarrow> irq_for g' i = irq))"
  using graph_reachable_ok [OF assms]
proof (cases rule: register_cases [where dev = dev and mr = mr and ports = ports and irq = irq])
  case (ok g2)
  then show ?thesis by (auto simp: device_count_def)
next
  case (fail e2)
  then show ?thesis by auto
qed

lemma register_all_or_nothing_witness:
  "let g = fst (register_device (graph_new ''vm'') (test_device_new 1) (Some (0x1000, 0x40)) None (Some 5))
   in register_device g (test_device_new 2) (Some (0x2000, 0x40)) (Some (0x60, 0)) None
        = (g, Err (UnknownPort 0x60))
    \<and> is_ok (snd (register_device g (test_device_new 2) (Some (0x1040, 0x40)) (Some (0x60, 1)) None))"
proof -
  let ?g = "fst (register_device (graph_new ''vm'') (test_device_new 1) (Some (0x1000, 0x40)) None (Some 5))"
  have r: "graph_reachable test_device_ops ?g" by (intro graph_reachable.intros)
  have e: "register_device ?g (test_device_new 2) (Some (0x2000, 0x40)) (Some (0x60, 0)) None
      = (fst (register_device ?g (test_device_new 2) (Some (0x2000, 0x40)) (Some (0x60, 0)) None),
         Err (UnknownPort 0x60))"
    by (simp add: register_device_def register_mmio_def register_io_def mmio_insert_def io_insert_def
        graph_new_def mr_overlaps_def mr_end_def sat_add_def Let_def)
  have "is_ok (snd (register_device ?g (test_device_new 2) (Some (0x1040, 0x40)) (Some (0x60, 1)) None))"
    by (subst register_all_or_nothing [OF r, THEN conjunct1])
       (simp add: routes_free_def register_device_def register_mmio_def register_io_def
         mmio_insert_def graph_new_def range_overlaps_def sat_add_def Let_def)
  moreover have "fst (register_device ?g (test_device_new 2) (Some (0x2000, 0x40)) (Some (0x60, 0)) None) = ?g"
    using register_all_or_nothing [OF r] e by blast
  ultimately show ?thesis using e by (simp add: Let_def)
qed

text \<open>C25: Routing is exact and denies by default: in a reachable graph an MMIO access inside a
  registered route reaches the device of that route, whatever the order of registration, at
  its offset in the route and touches no other device; an access outside every route is
  refused and changes nothing.\<close>

theorem mmio_routing_exact:
  assumes "graph_reachable ops g"
  shows "(\<forall>r \<in> set (dg_mmio_routes g). mr_contains r a \<longrightarrow>
            mr_device_index r < device_count g \<and> unat (a - mr_base r) < unat (mr_len r)
            \<and> dispatch_mmio_write ops g a w v =
               (let (d, res) = op_mmio_write ops (dg_devices g ! mr_device_index r) (a - mr_base r) w v
                in (g\<lparr>dg_devices := (dg_devices g)[mr_device_index r := d]\<rparr>, res))
            \<and> dispatch_mmio_read ops g a w =
               (let (d, res) = op_mmio_read ops (dg_devices g ! mr_device_index r) (a - mr_base r) w
                in (g\<lparr>dg_devices := (dg_devices g)[mr_device_index r := d]\<rparr>, res)))
       \<and> ((\<forall>r \<in> set (dg_mmio_routes g). \<not> mr_contains r a) \<longrightarrow>
            dispatch_mmio_write ops g a w v = (g, Err (UnmappedAddress a))
            \<and> dispatch_mmio_read ops g a w = (g, Err (UnmappedAddress a)))"
proof (intro conjI ballI impI)
  have ok: "graph_ok g" by (rule graph_reachable_ok [OF assms])
  fix r assume r: "r \<in> set (dg_mmio_routes g)" "mr_contains r a"
  with ok have tr: "mmio_translate (dg_mmio_routes g) a = Some (mr_device_index r, a - mr_base r)"
    and i: "mr_device_index r < length (dg_devices g)"
    by (auto simp: graph_ok_def intro: mmio_translate_unique)
  show "mr_device_index r < device_count g" using i by (simp add: device_count_def)
  show "unat (a - mr_base r) < unat (mr_len r)"
    using r(2) by (simp add: mr_contains_iff range_contains_offset)
  show "dispatch_mmio_write ops g a w v =
      (let (d, res) = op_mmio_write ops (dg_devices g ! mr_device_index r) (a - mr_base r) w v
       in (g\<lparr>dg_devices := (dg_devices g)[mr_device_index r := d]\<rparr>, res))"
    using tr i by (simp add: dispatch_mmio_write_def with_device_def)
  show "dispatch_mmio_read ops g a w =
      (let (d, res) = op_mmio_read ops (dg_devices g ! mr_device_index r) (a - mr_base r) w
       in (g\<lparr>dg_devices := (dg_devices g)[mr_device_index r := d]\<rparr>, res))"
    using tr i by (simp add: dispatch_mmio_read_def with_device_def)
next
  assume "\<forall>r \<in> set (dg_mmio_routes g). \<not> mr_contains r a"
  then have none: "mmio_translate (dg_mmio_routes g) a = None"
    by (auto simp: mmio_translate_def find_None_iff)
  then show "dispatch_mmio_write ops g a w v = (g, Err (UnmappedAddress a))"
    "dispatch_mmio_read ops g a w = (g, Err (UnmappedAddress a))"
    by (simp_all add: dispatch_mmio_write_def dispatch_mmio_read_def)
qed

lemma mmio_routing_exact_witness:
  "let g = fst (register_device (graph_new ''vm'') (test_device_new 1) (Some (0x1000, 0x40)) None None)
   in dispatch_mmio_read test_device_ops g 0xFFF WByte = (g, Err (UnmappedAddress 0xFFF))"
proof -
  let ?g = "fst (register_device (graph_new ''vm'') (test_device_new 1) (Some (0x1000, 0x40)) None None)"
  have r: "graph_reachable test_device_ops ?g" by (intro graph_reachable.intros)
  have "\<forall>r \<in> set (dg_mmio_routes ?g). \<not> mr_contains r 0xFFF"
    by (simp add: register_device_def register_mmio_def register_io_def mmio_insert_def
        graph_new_def mr_contains_def Let_def)
  then show ?thesis using mmio_routing_exact [OF r, of "0xFFF"] by (simp add: Let_def)
qed

text \<open>The registers of the reference device.\<close>

lemma reg_index_Ok_iff: "reg_index off = Ok i \<longleftrightarrow> off mod 8 = 0 \<and> off div 8 < 8 \<and> i = unat (off div 8)"
  by (auto simp: reg_index_def REG_COUNT_def Let_def)

lemma reg_index_bound: "reg_index off = Ok i \<Longrightarrow> i < 8"
  by (auto simp: reg_index_Ok_iff word_less_nat_alt)

lemma test_device_write_read:
  assumes "length (td_regs d) = 8" "td_mmio_write d off w v = (d', Ok ())"
  shows "td_mmio_read d' off w' = (d', Ok (v AND width_mask w'))
       \<and> (\<forall>off' i. reg_index off' = Ok i \<and> reg_index off \<noteq> Ok i \<longrightarrow>
            snd (td_mmio_read d' off' w') = snd (td_mmio_read d off' w'))"
proof -
  obtain i where i: "reg_index off = Ok i" and d': "d' = d\<lparr>td_regs := (td_regs d)[i := v]\<rparr>"
    using assms(2) by (auto simp: td_mmio_write_def split: sum.splits if_splits)
  then show ?thesis
    using assms(1) reg_index_bound [OF i] by (auto simp: td_mmio_read_def)
qed

end
