(* ===== verification/Sha384.thy ===== *)
theory Sha384
  imports Prelude
begin

text \<open>
  The SHA-384 of \<open>hyper-virtio/src/hash.rs\<close>, word for word: padding, message schedule,
  compression and the \<open>"sha384:<hex>"\<close> formatter. Nothing here is assumed of the
  function; the facts proved are the ones its clients use: the digest is 48 bytes, and the
  formatter is injective on digests.
\<close>

definition SHA_K :: "u64 list" where
  "SHA_K = concat [
    [0x428a2f98d728ae22, 0x7137449123ef65cd, 0xb5c0fbcfec4d3b2f, 0xe9b5dba58189dbbc],
    [0x3956c25bf348b538, 0x59f111f1b605d019, 0x923f82a4af194f9b, 0xab1c5ed5da6d8118],
    [0xd807aa98a3030242, 0x12835b0145706fbe, 0x243185be4ee4b28c, 0x550c7dc3d5ffb4e2],
    [0x72be5d74f27b896f, 0x80deb1fe3b1696b1, 0x9bdc06a725c71235, 0xc19bf174cf692694],
    [0xe49b69c19ef14ad2, 0xefbe4786384f25e3, 0x0fc19dc68b8cd5b5, 0x240ca1cc77ac9c65],
    [0x2de92c6f592b0275, 0x4a7484aa6ea6e483, 0x5cb0a9dcbd41fbd4, 0x76f988da831153b5],
    [0x983e5152ee66dfab, 0xa831c66d2db43210, 0xb00327c898fb213f, 0xbf597fc7beef0ee4],
    [0xc6e00bf33da88fc2, 0xd5a79147930aa725, 0x06ca6351e003826f, 0x142929670a0e6e70],
    [0x27b70a8546d22ffc, 0x2e1b21385c26c926, 0x4d2c6dfc5ac42aed, 0x53380d139d95b3df],
    [0x650a73548baf63de, 0x766a0abb3c77b2a8, 0x81c2c92e47edaee6, 0x92722c851482353b],
    [0xa2bfe8a14cf10364, 0xa81a664bbc423001, 0xc24b8b70d0f89791, 0xc76c51a30654be30],
    [0xd192e819d6ef5218, 0xd69906245565a910, 0xf40e35855771202a, 0x106aa07032bbd1b8],
    [0x19a4c116b8d2d0c8, 0x1e376c085141ab53, 0x2748774cdf8eeb99, 0x34b0bcb5e19b48a8],
    [0x391c0cb3c5c95a63, 0x4ed8aa4ae3418acb, 0x5b9cca4f7763e373, 0x682e6ff3d6b2b8a3],
    [0x748f82ee5defb2fc, 0x78a5636f43172f60, 0x84c87814a1f0ab72, 0x8cc702081a6439ec],
    [0x90befffa23631e28, 0xa4506cebde82bde9, 0xbef9a3f7b2c67915, 0xc67178f2e372532b],
    [0xca273eceea26619c, 0xd186b8c721c0c207, 0xeada7dd6cde0eb1e, 0xf57d4f7fee6ed178],
    [0x06f067aa72176fba, 0x0a637dc5a2c898a6, 0x113f9804bef90dae, 0x1b710b35131c471b],
    [0x28db77f523047d84, 0x32caab7b40c72493, 0x3c9ebe0a15c9bebc, 0x431d67c49c100d4c],
    [0x4cc5d4becb3e42b6, 0x597f299cfc657e2a, 0x5fcb6fab3ad6faec, 0x6c44198c4a475817]]"

definition SHA_H0 :: "u64 list" where
  "SHA_H0 = [
    0xcbbb9d5dc1059ed8, 0x629a292a367cd507, 0x9159015a3070dd17, 0x152fecd8f70e5939,
    0x67332667ffc00b31, 0x8eb44a8768581511, 0xdb0c2e0d64f98fa7, 0x47b5481dbefa4fa4]"

subsection \<open>Bytes and words\<close>

definition to_be_bytes :: "nat \<Rightarrow> 'a::len word \<Rightarrow> byte list" where
  "to_be_bytes n w = map (\<lambda>i. ucast (drop_bit (8 * (n - 1 - i)) w)) [0..<n]"

definition to_le_bytes :: "nat \<Rightarrow> 'a::len word \<Rightarrow> byte list" where
  "to_le_bytes n w = map (\<lambda>i. ucast (drop_bit (8 * i) w)) [0..<n]"

definition from_be_bytes :: "byte list \<Rightarrow> 'a::len word" where
  "from_be_bytes bs = fold (\<lambda>b w. push_bit 8 w OR ucast b) bs 0"

definition rotate_right :: "u64 \<Rightarrow> nat \<Rightarrow> u64" where
  "rotate_right w n = drop_bit n w OR push_bit (64 - n) w"

subsection \<open>Padding\<close>

text \<open>The loop \<open>while msg.len() % 128 != 112 { msg.push(0) }\<close>.\<close>

definition pad_distance :: "nat \<Rightarrow> nat" where
  "pad_distance n = (if n mod 128 \<le> 112 then 112 - n mod 128 else 240 - n mod 128)"

lemma pad_step_decreases: "n mod 128 \<noteq> 112 \<Longrightarrow> pad_distance (Suc n) < pad_distance n"
proof -
  assume ne: "n mod 128 \<noteq> 112"
  obtain r where r: "n mod 128 = r" "r < 128" by simp
  have "Suc n mod 128 = (if Suc r = 128 then 0 else Suc r)" by (simp add: mod_Suc r(1))
  with ne r show ?thesis by (simp add: pad_distance_def) linarith
qed

function pad_zeros :: "byte list \<Rightarrow> byte list" where
  "pad_zeros msg = (if length msg mod 128 = 112 then msg else pad_zeros (msg @ [0]))"
  by pat_completeness auto
termination
  by (relation "measure (\<lambda>msg. pad_distance (length msg))")
     (auto intro: pad_step_decreases)

declare pad_zeros.simps [simp del]

definition pad_message :: "byte list \<Rightarrow> byte list" where
  "pad_message bytes =
     (let bit_len = (word_of_nat (length bytes) :: 128 word) * 8
      in pad_zeros (bytes @ [0x80]) @ to_be_bytes 16 bit_len)"

function chunks_exact :: "nat \<Rightarrow> 'a list \<Rightarrow> 'a list list" where
  "chunks_exact n xs =
     (if n = 0 \<or> length xs < n then [] else take n xs # chunks_exact n (drop n xs))"
  by pat_completeness auto
termination
  by (relation "measure (\<lambda>(n, xs). length xs)") auto

declare chunks_exact.simps [simp del]

subsection \<open>Compression\<close>

definition schedule_init :: "byte list \<Rightarrow> u64 list" where
  "schedule_init block =
     map (\<lambda>i. from_be_bytes (take 8 (drop (i * 8) block))) [0..<16] @ replicate 64 0"

definition schedule_step :: "nat \<Rightarrow> u64 list \<Rightarrow> u64 list" where
  "schedule_step i w =
     (let s0 = rotate_right (w ! (i - 15)) 1 XOR rotate_right (w ! (i - 15)) 8
                 XOR drop_bit 7 (w ! (i - 15));
          s1 = rotate_right (w ! (i - 2)) 19 XOR rotate_right (w ! (i - 2)) 61
                 XOR drop_bit 6 (w ! (i - 2))
      in w[i := w ! (i - 16) + s0 + w ! (i - 7) + s1])"

definition message_schedule :: "byte list \<Rightarrow> u64 list" where
  "message_schedule block = fold schedule_step [16..<80] (schedule_init block)"

type_synonym sha_vars = "u64 \<times> u64 \<times> u64 \<times> u64 \<times> u64 \<times> u64 \<times> u64 \<times> u64"

definition sha_round :: "u64 list \<Rightarrow> nat \<Rightarrow> sha_vars \<Rightarrow> sha_vars" where
  "sha_round w i v =
     (case v of (a, b, c, d, e, f, g, hh) \<Rightarrow>
       let s1 = rotate_right e 14 XOR rotate_right e 18 XOR rotate_right e 41;
           ch = (e AND f) XOR (NOT e AND g);
           t1 = hh + s1 + ch + SHA_K ! i + w ! i;
           s0 = rotate_right a 28 XOR rotate_right a 34 XOR rotate_right a 39;
           maj = (a AND b) XOR (a AND c) XOR (b AND c);
           t2 = s0 + maj
       in (t1 + t2, a, b, c, d + t1, e, f, g))"

definition compress :: "byte list \<Rightarrow> u64 list \<Rightarrow> u64 list" where
  "compress block h =
     (let w = message_schedule block;
          (a, b, c, d, e, f, g, hh) =
            fold (sha_round w) [0..<80] (h!0, h!1, h!2, h!3, h!4, h!5, h!6, h!7)
      in [h!0 + a, h!1 + b, h!2 + c, h!3 + d, h!4 + e, h!5 + f, h!6 + g, h!7 + hh])"

definition sha384 :: "byte list \<Rightarrow> byte list" where
  "sha384 bytes =
     (let h = fold compress (chunks_exact 128 (pad_message bytes)) SHA_H0
      in concat (map (to_be_bytes 8) (take 6 h)))"

subsection \<open>Formatting\<close>

definition HEX_LUT :: string where "HEX_LUT = ''0123456789abcdef''"

definition hex_byte :: "byte \<Rightarrow> string" where
  "hex_byte b = [HEX_LUT ! unat (drop_bit 4 b), HEX_LUT ! unat (b AND 0x0F)]"

definition hex :: "byte list \<Rightarrow> string" where
  "hex bytes = concat (map hex_byte bytes)"

definition sha384_hex :: "byte list \<Rightarrow> string" where
  "sha384_hex bytes = ''sha384:'' @ hex (sha384 bytes)"

subsection \<open>Lengths\<close>

lemma length_to_be_bytes [simp]: "length (to_be_bytes n w) = n"
  by (simp add: to_be_bytes_def)

lemma length_to_le_bytes [simp]: "length (to_le_bytes n w) = n"
  by (simp add: to_le_bytes_def)

text \<open>The eight bytes of a word determine it.\<close>

lemma to_be_bytes_inject: "to_be_bytes 8 (v :: u64) = to_be_bytes 8 w \<longleftrightarrow> v = w"
proof
  assume eq: "to_be_bytes 8 v = to_be_bytes 8 w"
  show "v = w"
  proof (rule bit_word_eqI)
    fix i assume i: "i < LENGTH(64)"
    have byte: "bit (to_be_bytes 8 x ! (7 - i div 8)) (i mod 8) = bit x i" for x :: u64
    proof -
      have "8 * (8 - 1 - (7 - i div 8)) + i mod 8 = i" using i by simp
      then show ?thesis
        using nth_upt [of 0 "7 - i div 8" 8] by (simp add: to_be_bytes_def bit_ucast_iff bit_drop_bit_eq)
    qed
    show "bit v i = bit w i" using byte [of v] byte [of w] eq by simp
  qed
qed simp

lemma length_compress [simp]: "length (compress block h) = 8"
  by (simp add: compress_def Let_def split: prod.splits)

lemma length_fold_compress: "length h = 8 \<Longrightarrow> length (fold compress bs h) = 8"
  by (induction bs arbitrary: h) simp_all

lemma length_sha384 [simp]: "length (sha384 bytes) = 48"
proof -
  define h where "h = fold compress (chunks_exact 128 (pad_message bytes)) SHA_H0"
  have "length h = 8"
    unfolding h_def by (rule length_fold_compress) (simp add: SHA_H0_def)
  then have "length (map (to_be_bytes 8) (take 6 h)) = 6" by simp
  moreover have "length (concat (map (to_be_bytes 8) xs)) = 8 * length xs" for xs :: "u64 list"
    by (induction xs) simp_all
  ultimately show ?thesis using \<open>length h = 8\<close> by (simp add: sha384_def Let_def flip: h_def)
qed

text \<open>The padded message is a whole number of blocks, so no byte is dropped by the chunking.\<close>

lemma length_pad_zeros: "length (pad_zeros msg) mod 128 = 112"
  by (induction msg rule: pad_zeros.induct) (subst pad_zeros.simps, simp)

lemma prefix_pad_zeros: "\<exists>z. pad_zeros msg = msg @ replicate z 0"
proof (induction msg rule: pad_zeros.induct)
  case (1 msg)
  show ?case
  proof (cases "length msg mod 128 = 112")
    case True
    then show ?thesis by (intro exI [of _ 0]) (simp add: pad_zeros.simps)
  next
    case False
    with 1 obtain z where "pad_zeros (msg @ [0]) = msg @ replicate (Suc z) 0" by auto
    with False show ?thesis by (metis pad_zeros.simps)
  qed
qed

lemma length_pad_message: "length (pad_message bytes) mod 128 = 0"
proof -
  have "length (pad_zeros (bytes @ [0x80])) mod 128 = 112" by (rule length_pad_zeros)
  then have "(length (pad_zeros (bytes @ [0x80])) + 16) mod 128 = (112 + 16) mod 128"
    by (metis mod_add_left_eq)
  then show ?thesis by (simp add: pad_message_def)
qed

lemma concat_chunks_exact:
  assumes "0 < n" "length xs mod n = 0"
  shows "concat (chunks_exact n xs) = xs \<and> (\<forall>c \<in> set (chunks_exact n xs). length c = n)"
  using assms
proof (induction n xs rule: chunks_exact.induct)
  case (1 n xs)
  show ?case
  proof (cases "length xs < n")
    case True
    with 1 have "xs = []" by simp
    with True show ?thesis by (subst chunks_exact.simps, subst chunks_exact.simps) simp
  next
    case False
    then have d: "length (drop n xs) mod n = 0"
      by (metis "1.prems"(2) le_mod_geq length_drop not_le)
    have n: "\<not> (n = 0 \<or> length xs < n)" using False "1.prems"(1) by simp
    have IH: "concat (chunks_exact n (drop n xs)) = drop n xs
        \<and> (\<forall>c \<in> set (chunks_exact n (drop n xs)). length c = n)"
      by (rule "1.IH" [OF n "1.prems"(1) d])
    have e: "chunks_exact n xs = take n xs # chunks_exact n (drop n xs)"
      using n by (subst chunks_exact.simps) (simp only: if_False)
    show ?thesis
    proof
      show "concat (chunks_exact n xs) = xs"
        by (simp only: e concat.simps IH [THEN conjunct1] append_take_drop_id)
      have "length (take n xs) = n" using False by simp
      then show "\<forall>c \<in> set (chunks_exact n xs). length c = n"
        unfolding e using IH [THEN conjunct2] by simp
    qed
  qed
qed

lemma blocks_are_the_message:
  "concat (chunks_exact 128 (pad_message bytes)) = pad_message bytes"
  using concat_chunks_exact [of 128 "pad_message bytes"] length_pad_message by simp

subsection \<open>The formatter is injective\<close>

lemma length_hex [simp]: "length (hex bs) = 2 * length bs"
  by (induction bs) (simp_all add: hex_def hex_byte_def)

lemma length_sha384_hex: "length (sha384_hex bs) = 103"
  by (simp add: sha384_hex_def)

lemma HEX_LUT_inject:
  assumes "i < 16" "j < 16" "HEX_LUT ! i = HEX_LUT ! j"
  shows "i = j"
proof -
  have "distinct HEX_LUT" "length HEX_LUT = 16" by (simp_all add: HEX_LUT_def)
  with assms show ?thesis by (simp add: nth_eq_iff_index_eq)
qed

lemma hex_byte_inject: "hex_byte a = hex_byte b \<longleftrightarrow> a = b"
proof
  assume eq: "hex_byte a = hex_byte b"
  have hi: "unat (drop_bit 4 c) < 16" and lo: "unat (c AND 0x0F) < 16" for c :: byte
  proof -
    have "unat c < 256" using unsigned_less [of c, where 'a = nat] by simp
    then have "unat c div 16 < 16" by linarith
    then show "unat (drop_bit 4 c) < 16" by (simp add: drop_bit_eq_div unat_div)
    have "c AND 0x0F \<le> 0x0F" by (rule word_and_le1)
    then show "unat (c AND 0x0F) < 16" by (simp add: word_le_nat_alt)
  qed
  from eq hi lo have "drop_bit 4 a = drop_bit 4 b" "a AND 0x0F = b AND 0x0F"
    by (auto simp: hex_byte_def word_unat_eq_iff dest!: HEX_LUT_inject [rotated 2])
  moreover have "c = push_bit 4 (drop_bit 4 c) OR (c AND 0x0F)" for c :: byte
  proof -
    have "take_bit 4 c = c AND 0x0F" 
      by (simp add: take_bit_eq_mask mask_eq_exp_minus_1)
    moreover have "c = push_bit 4 (drop_bit 4 c) OR take_bit 4 c"
      by (rule bit_word_eqI) (auto simp: bit_simps)
    ultimately show ?thesis by simp
  qed
  ultimately show "a = b" by metis
qed simp

lemma hex_inject: "hex a = hex b \<longleftrightarrow> a = b"
proof (induction a arbitrary: b)
  case Nil
  show ?case by (cases b) (simp_all add: hex_def hex_byte_def)
next
  case (Cons x a)
  show ?case
  proof (cases b)
    case Nil
    then show ?thesis by (simp add: hex_def hex_byte_def)
  next
    case (Cons y b')
    have "hex (x # a) = hex (y # b') \<longleftrightarrow> hex_byte x = hex_byte y \<and> hex a = hex b'"
      by (auto simp: hex_def hex_byte_def)
    then show ?thesis using Cons.IH Cons by (simp add: hex_byte_inject)
  qed
qed

lemma sha384_hex_eq_iff: "sha384_hex a = sha384_hex b \<longleftrightarrow> sha384 a = sha384 b"
  by (simp add: sha384_hex_def hex_inject)

end
