(* ===== verification/Virtio.thy ===== *)
theory Virtio
  imports Devices Sha384
begin

text \<open>
  The virtio device models of \<open>hyper-virtio\<close>: the integrity-checked read-only disk, the
  deterministic generator, the console, the network stub and the paravirtual clock, each a
  state with its \<open>VirtualDevice\<close> methods. The trait \<open>BlockBackend\<close> is a record of
  operations; the digest is the crate's own SHA-384.
\<close>

subsection \<open>Block backends\<close>

record 'b block_ops =
  bo_sectors :: "'b \<Rightarrow> u64"
  bo_read_sector :: "'b \<Rightarrow> u64 \<Rightarrow> dev_error + byte list"

record block_image =
  bi_data :: "byte list"
  bi_sector_size :: u64

text \<open>\<open>InMemoryBlockBackend::new\<close> panics on a zero sector size (\<open>None\<close>).\<close>

definition block_image_new :: "byte list \<Rightarrow> u64 \<Rightarrow> block_image option" where
  "block_image_new data ss =
     (if ss = 0 then None
      else let rem = word_of_nat (length data) mod ss;
               data' = (if rem \<noteq> 0 then data @ replicate (unat (ss - rem)) 0 else data)
           in Some \<lparr>bi_data = data', bi_sector_size = ss\<rparr>)"

text \<open>The division panics on a sector size of 0. \<open>block_image_new\<close> makes no such image, and
  for one built by its fields the definition gives 0.\<close>

definition image_sectors :: "block_image \<Rightarrow> u64" where
  "image_sectors b = word_of_nat (length (bi_data b)) div bi_sector_size b"

definition image_read_sector :: "block_image \<Rightarrow> u64 \<Rightarrow> dev_error + byte list" where
  "image_read_sector b idx =
     (case checked_mul idx (bi_sector_size b) of
        None \<Rightarrow> Err (OffsetOutOfRange idx)
      | Some start \<Rightarrow>
          (case checked_add start (bi_sector_size b) of
             None \<Rightarrow> Err (OffsetOutOfRange idx)
           | Some end \<Rightarrow>
               if word_of_nat (length (bi_data b)) < end then Err (OffsetOutOfRange idx)
               else Ok (take (unat end - unat start) (drop (unat start) (bi_data b)))))"

definition image_ops :: "block_image block_ops" where
  "image_ops = \<lparr>bo_sectors = image_sectors, bo_read_sector = image_read_sector\<rparr>"

subsection \<open>The integrity-checked disk\<close>

datatype virtio_error =
    VDev dev_error
  | SectorOutOfRange u64 u64
  | IntegrityFailure string string string
  | IntegrityConfig u64 nat

datatype blk_integrity = PerSector "string list" | Image string

definition CMD_LOAD :: u64 where "CMD_LOAD = 1"
definition REG_CAPACITY :: u64 where "REG_CAPACITY = 0x00"
definition REG_SECTOR_SIZE :: u64 where "REG_SECTOR_SIZE = 0x08"
definition REG_SECTOR_SEL :: u64 where "REG_SECTOR_SEL = 0x10"
definition REG_COMMAND :: u64 where "REG_COMMAND = 0x18"
definition REG_STATUS :: u64 where "REG_STATUS = 0x20"
definition REG_DATA :: u64 where "REG_DATA = 0x28"
definition STATUS_OK :: u64 where "STATUS_OK = 0"
definition STATUS_OUT_OF_RANGE :: u64 where "STATUS_OUT_OF_RANGE = 1"
definition STATUS_INTEGRITY :: u64 where "STATUS_INTEGRITY = 2"

lemmas blk_regs = REG_CAPACITY_def REG_SECTOR_SIZE_def REG_SECTOR_SEL_def REG_COMMAND_def
  REG_STATUS_def REG_DATA_def CMD_LOAD_def STATUS_OK_def STATUS_OUT_OF_RANGE_def
  STATUS_INTEGRITY_def

record 'b virtio_blk =
  blk_id :: device_id
  blk_backend :: 'b
  blk_integrity :: blk_integrity
  blk_selected :: u64
  blk_status :: u64
  blk_buffer :: "byte list"
  blk_cursor :: nat

definition blk_with_integrity :: "device_id \<Rightarrow> 'b \<Rightarrow> blk_integrity \<Rightarrow> 'b virtio_blk" where
  "blk_with_integrity i b integ =
     \<lparr>blk_id = i, blk_backend = b, blk_integrity = integ, blk_selected = 0,
      blk_status = STATUS_OK, blk_buffer = [], blk_cursor = 0\<rparr>"

definition blk_new_per_sector :: "device_id \<Rightarrow> 'b \<Rightarrow> string list \<Rightarrow> 'b virtio_blk" where
  "blk_new_per_sector i b hs = blk_with_integrity i b (PerSector hs)"

definition blk_new_image :: "device_id \<Rightarrow> 'b \<Rightarrow> string \<Rightarrow> 'b virtio_blk" where
  "blk_new_image i b h = blk_with_integrity i b (Image h)"

definition blk_capacity :: "'b block_ops \<Rightarrow> 'b virtio_blk \<Rightarrow> u64" where
  "blk_capacity bo d = bo_sectors bo (blk_backend d)"

definition blk_sector_size :: "'b block_ops \<Rightarrow> 'b virtio_blk \<Rightarrow> u64" where
  "blk_sector_size bo d =
     (if bo_sectors bo (blk_backend d) = 0 then 0
      else case bo_read_sector bo (blk_backend d) 0 of
             Inl _ \<Rightarrow> 0 | Inr s \<Rightarrow> word_of_nat (length s))"

text \<open>The loop \<open>for i in 0..n\<close> that concatenates the sectors, stopping at the first error.\<close>

fun read_all :: "'b block_ops \<Rightarrow> 'b \<Rightarrow> u64 list \<Rightarrow> dev_error + byte list" where
  "read_all bo b [] = Ok []"
| "read_all bo b (i # is) =
     (case bo_read_sector bo b i of
        Inl e \<Rightarrow> Err e
      | Inr s \<Rightarrow> (case read_all bo b is of Inl e \<Rightarrow> Err e | Inr rest \<Rightarrow> Ok (s @ rest)))"

definition sector_list :: "u64 \<Rightarrow> u64 list" where
  "sector_list n = map word_of_nat [0..<unat n]"

definition image_digest :: "'b block_ops \<Rightarrow> 'b virtio_blk \<Rightarrow> virtio_error + string" where
  "image_digest bo d =
     (case read_all bo (blk_backend d) (sector_list (bo_sectors bo (blk_backend d))) of
        Inl e \<Rightarrow> Err (VDev e)
      | Inr all \<Rightarrow> Ok (sha384_hex all))"

definition blk_read_sector :: "'b block_ops \<Rightarrow> 'b virtio_blk \<Rightarrow> u64 \<Rightarrow> virtio_error + byte list" where
  "blk_read_sector bo d idx =
     (let capacity = bo_sectors bo (blk_backend d) in
      if capacity \<le> idx then Err (SectorOutOfRange idx capacity)
      else case bo_read_sector bo (blk_backend d) idx of
        Inl e \<Rightarrow> Err (VDev e)
      | Inr bytes \<Rightarrow>
          (case blk_integrity d of
             PerSector hashes \<Rightarrow>
               if length hashes \<le> unat idx then Err (IntegrityConfig capacity (length hashes))
               else let expected = hashes ! unat idx; actual = sha384_hex bytes in
                 if actual \<noteq> expected
                 then Err (IntegrityFailure (''sector '' @ show_u64 idx) expected actual)
                 else Ok bytes
           | Image expected \<Rightarrow>
               (case image_digest bo d of
                  Inl e \<Rightarrow> Err e
                | Inr actual \<Rightarrow>
                    if actual \<noteq> expected then Err (IntegrityFailure ''image'' expected actual)
                    else Ok bytes)))"

fun verify_sectors :: "'b block_ops \<Rightarrow> 'b virtio_blk \<Rightarrow> u64 list \<Rightarrow> virtio_error + unit" where
  "verify_sectors bo d [] = Ok ()"
| "verify_sectors bo d (i # is) =
     (case blk_read_sector bo d i of Inl e \<Rightarrow> Err e | Inr _ \<Rightarrow> verify_sectors bo d is)"

definition blk_verify :: "'b block_ops \<Rightarrow> 'b virtio_blk \<Rightarrow> virtio_error + unit" where
  "blk_verify bo d =
     (case blk_integrity d of
        Image expected \<Rightarrow>
          (case image_digest bo d of
             Inl e \<Rightarrow> Err e
           | Inr actual \<Rightarrow>
               if actual \<noteq> expected then Err (IntegrityFailure ''image'' expected actual) else Ok ())
      | PerSector hashes \<Rightarrow>
          let n = bo_sectors bo (blk_backend d) in
          if (word_of_nat (length hashes) :: u64) \<noteq> n then Err (IntegrityConfig n (length hashes))
          else verify_sectors bo d (sector_list n))"

definition blk_mmio_read ::
  "'b block_ops \<Rightarrow> 'b virtio_blk \<Rightarrow> u64 \<Rightarrow> width \<Rightarrow> 'b virtio_blk \<times> (dev_error + u64)" where
  "blk_mmio_read bo d off w =
     (if off = REG_CAPACITY then (d, Ok (blk_capacity bo d AND width_mask w))
      else if off = REG_SECTOR_SIZE then (d, Ok (blk_sector_size bo d AND width_mask w))
      else if off = REG_STATUS then (d, Ok (blk_status d AND width_mask w))
      else if off = REG_DATA then
        (if blk_status d \<noteq> STATUS_OK then (d, Err (OffsetOutOfRange off))
         else if blk_cursor d < length (blk_buffer d)
         then (d\<lparr>blk_cursor := blk_cursor d + 1\<rparr>,
               Ok (ucast (blk_buffer d ! blk_cursor d) AND width_mask w))
         else (d, Err (OffsetOutOfRange off)))
      else (d, Err (OffsetOutOfRange off)))"

definition blk_load :: "'b block_ops \<Rightarrow> 'b virtio_blk \<Rightarrow> 'b virtio_blk" where
  "blk_load bo d =
     (case blk_read_sector bo d (blk_selected d) of
        Inr bytes \<Rightarrow> d\<lparr>blk_buffer := bytes, blk_cursor := 0, blk_status := STATUS_OK\<rparr>
      | Inl (SectorOutOfRange _ _) \<Rightarrow>
          d\<lparr>blk_buffer := [], blk_cursor := 0, blk_status := STATUS_OUT_OF_RANGE\<rparr>
      | Inl _ \<Rightarrow> d\<lparr>blk_buffer := [], blk_cursor := 0, blk_status := STATUS_INTEGRITY\<rparr>)"

definition blk_mmio_write ::
  "'b block_ops \<Rightarrow> 'b virtio_blk \<Rightarrow> u64 \<Rightarrow> width \<Rightarrow> u64 \<Rightarrow> 'b virtio_blk \<times> (dev_error + unit)" where
  "blk_mmio_write bo d off w v =
     (if off = REG_SECTOR_SEL then (d\<lparr>blk_selected := v\<rparr>, Ok ())
      else if off = REG_COMMAND then
        (if v = CMD_LOAD then (blk_load bo d, Ok ()) else (d, Err (OffsetOutOfRange off)))
      else (d, Err (OffsetOutOfRange off)))"

definition no_io_read :: "'d \<Rightarrow> u16 \<Rightarrow> width \<Rightarrow> 'd \<times> (dev_error + u32)" where
  "no_io_read d port w = (d, Err (OffsetOutOfRange (ucast port)))"

definition no_io_write :: "'d \<Rightarrow> u16 \<Rightarrow> width \<Rightarrow> u32 \<Rightarrow> 'd \<times> (dev_error + unit)" where
  "no_io_write d port w v = (d, Err (OffsetOutOfRange (ucast port)))"

definition no_tick :: "'d \<Rightarrow> 'd \<times> device_action" where
  "no_tick d = (d, NoAction)"

definition blk_reset :: "'b virtio_blk \<Rightarrow> 'b virtio_blk" where
  "blk_reset d = d\<lparr>blk_selected := 0, blk_status := STATUS_OK, blk_buffer := [], blk_cursor := 0\<rparr>"

definition blk_ops :: "'b block_ops \<Rightarrow> 'b virtio_blk dev_ops" where
  "blk_ops bo = \<lparr>op_device_id = blk_id, op_mmio_read = blk_mmio_read bo,
     op_mmio_write = blk_mmio_write bo, op_io_read = no_io_read, op_io_write = no_io_write,
     op_tick = no_tick, op_reset = blk_reset\<rparr>"

subsection \<open>The deterministic generator\<close>

definition RNG_REG_DATA :: u64 where "RNG_REG_DATA = 0x00"
definition RNG_REG_SEED :: u64 where "RNG_REG_SEED = 0x08"
definition BLOCK_LEN :: nat where "BLOCK_LEN = 48"

record virtio_rng =
  rng_id :: device_id
  rng_seed :: u64
  rng_counter :: u64
  rng_block :: "byte list"
  rng_pos :: nat

definition rng_refill :: "virtio_rng \<Rightarrow> virtio_rng" where
  "rng_refill r =
     r\<lparr>rng_block := sha384 (to_le_bytes 8 (rng_seed r) @ to_le_bytes 8 (rng_counter r)),
       rng_counter := rng_counter r + 1, rng_pos := 0\<rparr>"

definition rng_new :: "device_id \<Rightarrow> u64 \<Rightarrow> virtio_rng" where
  "rng_new i seed = rng_refill \<lparr>rng_id = i, rng_seed = seed, rng_counter = 0,
                                rng_block = replicate BLOCK_LEN 0, rng_pos = BLOCK_LEN\<rparr>"

definition rng_reseed :: "virtio_rng \<Rightarrow> u64 \<Rightarrow> virtio_rng" where
  "rng_reseed r seed = rng_refill (r\<lparr>rng_seed := seed, rng_counter := 0, rng_pos := BLOCK_LEN\<rparr>)"

definition rng_next_byte :: "virtio_rng \<Rightarrow> virtio_rng \<times> byte" where
  "rng_next_byte r =
     (let r1 = (if BLOCK_LEN \<le> rng_pos r then rng_refill r else r)
      in (r1\<lparr>rng_pos := rng_pos r1 + 1\<rparr>, rng_block r1 ! rng_pos r1))"

fun rng_bytes :: "nat \<Rightarrow> virtio_rng \<Rightarrow> virtio_rng \<times> byte list" where
  "rng_bytes 0 r = (r, [])"
| "rng_bytes (Suc n) r =
     (let (r1, b) = rng_next_byte r; (r2, bs) = rng_bytes n r1 in (r2, b # bs))"

text \<open>Little-endian assembly of \<open>n\<close> stream bytes.\<close>

definition le_assemble :: "byte list \<Rightarrow> u64" where
  "le_assemble bs = fold (\<lambda>(i, b) v. v OR push_bit (i * 8) (ucast b)) (enumerate 0 bs) 0"

definition rng_mmio_read :: "virtio_rng \<Rightarrow> u64 \<Rightarrow> width \<Rightarrow> virtio_rng \<times> (dev_error + u64)" where
  "rng_mmio_read r off w =
     (if off = RNG_REG_DATA then
        (let (r', bs) = rng_bytes (unat (width_bytes w)) r
         in (r', Ok (le_assemble bs AND width_mask w)))
      else (r, Err (OffsetOutOfRange off)))"

definition rng_mmio_write :: "virtio_rng \<Rightarrow> u64 \<Rightarrow> width \<Rightarrow> u64 \<Rightarrow> virtio_rng \<times> (dev_error + unit)" where
  "rng_mmio_write r off w v =
     (if off = RNG_REG_SEED then
        (if v AND NOT (width_mask w) \<noteq> 0 then (r, Err (ValueTooWide v w))
         else (rng_reseed r v, Ok ()))
      else (r, Err (OffsetOutOfRange off)))"

definition rng_reset :: "virtio_rng \<Rightarrow> virtio_rng" where
  "rng_reset r = rng_refill (r\<lparr>rng_counter := 0, rng_pos := BLOCK_LEN\<rparr>)"

definition rng_ops :: "virtio_rng dev_ops" where
  "rng_ops = \<lparr>op_device_id = rng_id, op_mmio_read = rng_mmio_read,
     op_mmio_write = rng_mmio_write, op_io_read = no_io_read, op_io_write = no_io_write,
     op_tick = no_tick, op_reset = rng_reset\<rparr>"

subsection \<open>The console\<close>

definition CON_REG_DATA :: u64 where "CON_REG_DATA = 0x00"
definition CON_REG_PENDING :: u64 where "CON_REG_PENDING = 0x04"

record virtio_console =
  con_id :: device_id
  con_out :: "byte list"

definition console_new :: "device_id \<Rightarrow> virtio_console" where
  "console_new i = \<lparr>con_id = i, con_out = []\<rparr>"

definition console_pending :: "virtio_console \<Rightarrow> nat" where
  "console_pending c = length (con_out c)"

definition console_take_output :: "virtio_console \<Rightarrow> virtio_console \<times> byte list" where
  "console_take_output c = (c\<lparr>con_out := []\<rparr>, con_out c)"

definition console_mmio_read :: "virtio_console \<Rightarrow> u64 \<Rightarrow> width \<Rightarrow> virtio_console \<times> (dev_error + u64)" where
  "console_mmio_read c off w =
     (if off = CON_REG_DATA then (c, Ok 0)
      else if off = CON_REG_PENDING then (c, Ok (word_of_nat (length (con_out c)) AND width_mask w))
      else (c, Err (OffsetOutOfRange off)))"

definition console_mmio_write ::
  "virtio_console \<Rightarrow> u64 \<Rightarrow> width \<Rightarrow> u64 \<Rightarrow> virtio_console \<times> (dev_error + unit)" where
  "console_mmio_write c off w v =
     (if off = CON_REG_DATA then
        (if w \<noteq> WByte then (c, Err (UnsupportedWidth off w))
         else if v AND NOT (width_mask WByte) \<noteq> 0 then (c, Err (ValueTooWide v w))
         else (c\<lparr>con_out := con_out c @ [ucast v]\<rparr>, Ok ()))
      else (c, Err (OffsetOutOfRange off)))"

definition console_reset :: "virtio_console \<Rightarrow> virtio_console" where
  "console_reset c = c\<lparr>con_out := []\<rparr>"

definition console_ops :: "virtio_console dev_ops" where
  "console_ops = \<lparr>op_device_id = con_id, op_mmio_read = console_mmio_read,
     op_mmio_write = console_mmio_write, op_io_read = no_io_read, op_io_write = no_io_write,
     op_tick = no_tick, op_reset = console_reset\<rparr>"

subsection \<open>Network stub and paravirtual clock\<close>

definition NET_REG_MAC_LO :: u64 where "NET_REG_MAC_LO = 0x00"
definition NET_REG_MAC_HI :: u64 where "NET_REG_MAC_HI = 0x08"
definition NET_REG_TX :: u64 where "NET_REG_TX = 0x10"

record virtio_net =
  net_id :: device_id
  net_mac :: "byte list"
  net_tx_bytes :: u64

definition virtio_net_new :: "device_id \<Rightarrow> string \<Rightarrow> virtio_net" where
  "virtio_net_new i name =
     (let mac = take 6 (sha384 (as_bytes name))
      in \<lparr>net_id = i, net_mac = mac[0 := (mac ! 0 AND 0xFE) OR 0x02], net_tx_bytes = 0\<rparr>)"

definition from_le_bytes :: "byte list \<Rightarrow> 'a::len word" where
  "from_le_bytes bs = foldr (\<lambda>b w. push_bit 8 w OR ucast b) bs 0"

definition mac_lo :: "virtio_net \<Rightarrow> u64" where
  "mac_lo n = ucast (from_le_bytes [net_mac n ! 0, net_mac n ! 1, net_mac n ! 2, net_mac n ! 3] :: u32)"

definition mac_hi :: "virtio_net \<Rightarrow> u64" where
  "mac_hi n = ucast (from_le_bytes [net_mac n ! 4, net_mac n ! 5] :: u16)"

definition net_mmio_read :: "virtio_net \<Rightarrow> u64 \<Rightarrow> width \<Rightarrow> virtio_net \<times> (dev_error + u64)" where
  "net_mmio_read n off w =
     (if off = NET_REG_MAC_LO then (n, Ok (mac_lo n AND width_mask w))
      else if off = NET_REG_MAC_HI then (n, Ok (mac_hi n AND width_mask w))
      else if off = NET_REG_TX then (n, Ok (net_tx_bytes n AND width_mask w))
      else (n, Err (OffsetOutOfRange off)))"

definition net_mmio_write :: "virtio_net \<Rightarrow> u64 \<Rightarrow> width \<Rightarrow> u64 \<Rightarrow> virtio_net \<times> (dev_error + unit)" where
  "net_mmio_write n off w v =
     (if off = NET_REG_TX then (n\<lparr>net_tx_bytes := sat_add (net_tx_bytes n) (v AND 0xFF)\<rparr>, Ok ())
      else (n, Err (OffsetOutOfRange off)))"

definition net_reset :: "virtio_net \<Rightarrow> virtio_net" where
  "net_reset n = n\<lparr>net_tx_bytes := 0\<rparr>"

definition net_ops :: "virtio_net dev_ops" where
  "net_ops = \<lparr>op_device_id = net_id, op_mmio_read = net_mmio_read,
     op_mmio_write = net_mmio_write, op_io_read = no_io_read, op_io_write = no_io_write,
     op_tick = no_tick, op_reset = net_reset\<rparr>"

definition CLK_REG_NOW :: u64 where "CLK_REG_NOW = 0x00"

record pv_clock =
  clk_id :: device_id
  clk_now :: u64

definition clock_new :: "device_id \<Rightarrow> pv_clock" where
  "clock_new i = \<lparr>clk_id = i, clk_now = 0\<rparr>"

definition clock_mmio_read :: "pv_clock \<Rightarrow> u64 \<Rightarrow> width \<Rightarrow> pv_clock \<times> (dev_error + u64)" where
  "clock_mmio_read c off w =
     (if off = CLK_REG_NOW then (c, Ok (clk_now c AND width_mask w))
      else (c, Err (OffsetOutOfRange off)))"

definition clock_mmio_write :: "pv_clock \<Rightarrow> u64 \<Rightarrow> width \<Rightarrow> u64 \<Rightarrow> pv_clock \<times> (dev_error + unit)" where
  "clock_mmio_write c off w v = (c, Err (OffsetOutOfRange off))"

definition clock_tick :: "pv_clock \<Rightarrow> pv_clock \<times> device_action" where
  "clock_tick c = (c\<lparr>clk_now := sat_add (clk_now c) 1\<rparr>, NoAction)"

definition clock_reset :: "pv_clock \<Rightarrow> pv_clock" where
  "clock_reset c = c\<lparr>clk_now := 0\<rparr>"

definition clock_ops :: "pv_clock dev_ops" where
  "clock_ops = \<lparr>op_device_id = clk_id, op_mmio_read = clock_mmio_read,
     op_mmio_write = clock_mmio_write, op_io_read = no_io_read, op_io_write = no_io_write,
     op_tick = clock_tick, op_reset = clock_reset\<rparr>"

subsection \<open>Every device keeps the bus contract\<close>

lemma no_io_simps [simp]:
  "no_io_read d port w = (d, Err (OffsetOutOfRange (ucast port)))"
  "no_io_write d port w x = (d, Err (OffsetOutOfRange (ucast port)))"
  "no_tick d = (d, NoAction)"
  by (simp_all add: no_io_read_def no_io_write_def no_tick_def)

lemma blk_load_id [simp]: "blk_id (blk_load bo d) = blk_id d"
  by (simp add: blk_load_def split: sum.splits virtio_error.splits)

lemma rng_refill_id [simp]: "rng_id (rng_refill r) = rng_id r" "rng_seed (rng_refill r) = rng_seed r"
  by (simp_all add: rng_refill_def)

lemma rng_next_byte_id [simp]: "rng_id (fst (rng_next_byte r)) = rng_id r"
  by (simp add: rng_next_byte_def Let_def)

lemma rng_bytes_id [simp]: "rng_id (fst (rng_bytes n r)) = rng_id r"
  by (induction n arbitrary: r) (simp_all add: case_prod_beta)

lemma blk_virtual_device: "virtual_device (blk_ops bo)"
  by unfold_locales
     (auto simp: blk_ops_def blk_mmio_read_def blk_mmio_write_def blk_reset_def split: if_splits)

interpretation disk_dev: virtual_device "blk_ops bo" for bo
  by (rule blk_virtual_device)

interpretation rng_dev: virtual_device rng_ops
  by unfold_locales
     (auto simp: rng_ops_def rng_mmio_read_def rng_mmio_write_def rng_reseed_def rng_reset_def
        case_prod_beta split: if_splits)

interpretation console_dev: virtual_device console_ops
  by unfold_locales
     (auto simp: console_ops_def console_mmio_read_def console_mmio_write_def console_reset_def
        split: if_splits)

interpretation net_dev: virtual_device net_ops
  by unfold_locales
     (auto simp: net_ops_def net_mmio_read_def net_mmio_write_def net_reset_def split: if_splits)

interpretation clock_dev: virtual_device clock_ops
  by unfold_locales
     (auto simp: clock_ops_def clock_mmio_read_def clock_mmio_write_def clock_tick_def
        clock_reset_def split: if_splits)

text \<open>
  Boxes of different devices share one graph: dynamic dispatch is a sum of the device
  states, and the sum of two lawful devices is lawful.
\<close>

definition on_left :: "('a \<Rightarrow> 'a \<times> 'r) \<Rightarrow> 'a \<Rightarrow> ('a + 'b) \<times> 'r" where
  "on_left f a = (let (a', r) = f a in (Inl a', r))"

definition on_right :: "('b \<Rightarrow> 'b \<times> 'r) \<Rightarrow> 'b \<Rightarrow> ('a + 'b) \<times> 'r" where
  "on_right f b = (let (b', r) = f b in (Inr b', r))"

definition either_ops :: "'a dev_ops \<Rightarrow> 'b dev_ops \<Rightarrow> ('a + 'b) dev_ops" where
  "either_ops A B =
     \<lparr>op_device_id = case_sum (op_device_id A) (op_device_id B),
      op_mmio_read = (\<lambda>d off w. case d of
          Inl a \<Rightarrow> on_left (\<lambda>a. op_mmio_read A a off w) a
        | Inr b \<Rightarrow> on_right (\<lambda>b. op_mmio_read B b off w) b),
      op_mmio_write = (\<lambda>d off w v. case d of
          Inl a \<Rightarrow> on_left (\<lambda>a. op_mmio_write A a off w v) a
        | Inr b \<Rightarrow> on_right (\<lambda>b. op_mmio_write B b off w v) b),
      op_io_read = (\<lambda>d port w. case d of
          Inl a \<Rightarrow> on_left (\<lambda>a. op_io_read A a port w) a
        | Inr b \<Rightarrow> on_right (\<lambda>b. op_io_read B b port w) b),
      op_io_write = (\<lambda>d port w v. case d of
          Inl a \<Rightarrow> on_left (\<lambda>a. op_io_write A a port w v) a
        | Inr b \<Rightarrow> on_right (\<lambda>b. op_io_write B b port w v) b),
      op_tick = (\<lambda>d. case d of Inl a \<Rightarrow> on_left (op_tick A) a | Inr b \<Rightarrow> on_right (op_tick B) b),
      op_reset = map_sum (op_reset A) (op_reset B)\<rparr>"

lemma either_virtual_device:
  assumes "virtual_device A" "virtual_device B"
  shows "virtual_device (either_ops A B)"
proof -
  note A = virtual_device.refused_unchanged [OF assms(1)]
    virtual_device.mmio_read_id [OF assms(1)] virtual_device.mmio_write_id [OF assms(1)]
    virtual_device.io_read_id [OF assms(1)] virtual_device.io_write_id [OF assms(1)]
    virtual_device.tick_id [OF assms(1)] virtual_device.reset_id [OF assms(1)]
  note B = virtual_device.refused_unchanged [OF assms(2)]
    virtual_device.mmio_read_id [OF assms(2)] virtual_device.mmio_write_id [OF assms(2)]
    virtual_device.io_read_id [OF assms(2)] virtual_device.io_write_id [OF assms(2)]
    virtual_device.tick_id [OF assms(2)] virtual_device.reset_id [OF assms(2)]
  show ?thesis
    by unfold_locales
       (auto simp: either_ops_def on_left_def on_right_def case_prod_beta A B split: sum.splits)
qed

type_synonym bus_device =
  "test_device + block_image virtio_blk + virtio_rng + virtio_console + virtio_net + pv_clock"

definition bus_ops :: "bus_device dev_ops" where
  "bus_ops = either_ops test_device_ops (either_ops (blk_ops image_ops)
     (either_ops rng_ops (either_ops console_ops (either_ops net_ops clock_ops))))"

interpretation bus_dev: virtual_device bus_ops
  unfolding bus_ops_def
  by (intro either_virtual_device test_dev.virtual_device_axioms disk_dev.virtual_device_axioms
      rng_dev.virtual_device_axioms console_dev.virtual_device_axioms
      net_dev.virtual_device_axioms clock_dev.virtual_device_axioms)

subsection \<open>The disk returns verified bytes only\<close>

lemma blk_read_sector_exact:
  "blk_read_sector bo d idx = Ok bytes \<longleftrightarrow>
     idx < bo_sectors bo (blk_backend d) \<and> bo_read_sector bo (blk_backend d) idx = Ok bytes
     \<and> (case blk_integrity d of
          PerSector hs \<Rightarrow> unat idx < length hs \<and> hs ! unat idx = sha384_hex bytes
        | Image h \<Rightarrow> image_digest bo d = Ok h)"
  by (auto simp: blk_read_sector_def Let_def not_le split: sum.splits blk_integrity.splits)

lemma blk_read_sector_cong:
  assumes "blk_backend d' = blk_backend d" "blk_integrity d' = blk_integrity d"
  shows "blk_read_sector bo d' = blk_read_sector bo d"
  unfolding blk_read_sector_def image_digest_def assms by (rule refl)

lemma verify_sectors_Ok_iff:
  "verify_sectors bo d is = Ok () \<longleftrightarrow> (\<forall>i \<in> set is. is_ok (blk_read_sector bo d i))"
  by (induction "is") (auto split: sum.splits)

text \<open>Selecting a sector and issuing the load command, as a guest does.\<close>

definition guest_load :: "'b block_ops \<Rightarrow> 'b virtio_blk \<Rightarrow> u64 \<Rightarrow> 'b virtio_blk" where
  "guest_load bo d idx =
     fst (blk_mmio_write bo (fst (blk_mmio_write bo d REG_SECTOR_SEL WQword idx))
            REG_COMMAND WQword CMD_LOAD)"

text \<open>\<open>n\<close> byte reads of the data register.\<close>

fun guest_read :: "'b block_ops \<Rightarrow> nat \<Rightarrow> 'b virtio_blk \<Rightarrow> 'b virtio_blk \<times> (dev_error + u64) list" where
  "guest_read bo 0 d = (d, [])"
| "guest_read bo (Suc n) d =
     (let (d1, r) = blk_mmio_read bo d REG_DATA WByte; (d2, rs) = guest_read bo n d1 in (d2, r # rs))"

lemma guest_load_eq:
  "guest_load bo d idx = blk_load bo (d\<lparr>blk_selected := idx\<rparr>)"
  by (simp add: guest_load_def blk_mmio_write_def blk_regs)

lemma ucast_byte_mask [simp]: "(ucast (b :: byte) :: u64) AND width_mask WByte = ucast b"
proof -
  have "width_mask WByte = mask 8"
    by (simp add: width_mask_def width_bits_def width_bytes_def mask_eq_exp_minus_1)
  moreover have "(ucast b :: u64) AND mask 8 = ucast b"
    by (rule bit_word_eqI) (auto simp: bit_simps dest: bit_imp_le_length)
  ultimately show ?thesis by simp
qed

lemma guest_read_buffer:
  assumes "blk_status d = STATUS_OK" "blk_cursor d + n \<le> length (blk_buffer d)"
  shows "guest_read bo n d =
     (d\<lparr>blk_cursor := blk_cursor d + n\<rparr>,
      map (\<lambda>b. Ok (ucast b)) (take n (drop (blk_cursor d) (blk_buffer d))))"
  using assms
proof (induction n arbitrary: d)
  case (Suc n)
  let ?d = "d\<lparr>blk_cursor := Suc (blk_cursor d)\<rparr>"
  have "guest_read bo n ?d = (?d\<lparr>blk_cursor := blk_cursor ?d + n\<rparr>,
      map (\<lambda>b. Ok (ucast b)) (take n (drop (blk_cursor ?d) (blk_buffer ?d))))"
    using Suc.prems by (intro Suc.IH) simp_all
  moreover have "blk_mmio_read bo d REG_DATA WByte = (?d, Ok (ucast (blk_buffer d ! blk_cursor d)))"
    using Suc.prems by (simp add: blk_mmio_read_def blk_regs)
  moreover have "drop (blk_cursor d) (blk_buffer d) =
      blk_buffer d ! blk_cursor d # drop (Suc (blk_cursor d)) (blk_buffer d)"
    using Suc.prems by (simp add: Cons_nth_drop_Suc)
  ultimately show ?case by simp
qed simp

lemma guest_read_refused:
  assumes "blk_status d \<noteq> STATUS_OK \<or> length (blk_buffer d) \<le> blk_cursor d"
  shows "guest_read bo n d = (d, replicate n (Err (OffsetOutOfRange REG_DATA)))"
  using assms by (induction n) (auto simp: blk_mmio_read_def blk_regs)

subsection \<open>The generator's stream\<close>

definition rng_stream :: "u64 \<Rightarrow> nat \<Rightarrow> byte" where
  "rng_stream seed k =
     sha384 (to_le_bytes 8 seed @ to_le_bytes 8 (word_of_nat (k div 48) :: u64)) ! (k mod 48)"

definition rng_at :: "virtio_rng \<Rightarrow> u64 \<Rightarrow> nat \<Rightarrow> bool" where
  "rng_at r seed k \<longleftrightarrow> (\<exists>j. rng_seed r = seed \<and> rng_pos r \<le> 48 \<and> k = 48 * j + rng_pos r
     \<and> rng_counter r = word_of_nat (Suc j)
     \<and> rng_block r = sha384 (to_le_bytes 8 seed @ to_le_bytes 8 (word_of_nat j :: u64)))"

lemma rng_at_refill:
  "rng_at (rng_refill (r\<lparr>rng_counter := 0, rng_pos := p\<rparr>)) (rng_seed r) 0"
  by (simp add: rng_at_def rng_refill_def)

lemma rng_next_byte_stream:
  assumes "rng_at r seed k"
  shows "rng_at (fst (rng_next_byte r)) seed (Suc k) \<and> snd (rng_next_byte r) = rng_stream seed k"
proof -
  obtain j where j: "rng_seed r = seed" "rng_pos r \<le> 48" "k = 48 * j + rng_pos r"
      "rng_counter r = word_of_nat (Suc j)"
      "rng_block r = sha384 (to_le_bytes 8 seed @ to_le_bytes 8 (word_of_nat j :: u64))"
    using assms unfolding rng_at_def by blast
  show ?thesis
  proof (cases "rng_pos r = 48")
    case True
    then have k: "k = 48 * Suc j" using j(3) by simp
    then have "k div 48 = Suc j" "k mod 48 = 0" by simp_all
    moreover have "rng_at (fst (rng_next_byte r)) seed (Suc k)"
      unfolding rng_at_def using True j k
      by (intro exI [of _ "Suc j"]) (simp add: rng_next_byte_def rng_refill_def BLOCK_LEN_def Let_def)
    ultimately show ?thesis
      using True j
      by (simp add: rng_next_byte_def rng_refill_def BLOCK_LEN_def Let_def rng_stream_def)
  next
    case False
    then have lt: "rng_pos r < 48" using j(2) by simp
    then have "k div 48 = j" "k mod 48 = rng_pos r" using j(3) by simp_all
    moreover have "rng_at (fst (rng_next_byte r)) seed (Suc k)"
      unfolding rng_at_def using lt j
      by (intro exI [of _ j]) (simp add: rng_next_byte_def BLOCK_LEN_def Let_def)
    ultimately show ?thesis
      using lt j by (simp add: rng_next_byte_def BLOCK_LEN_def Let_def rng_stream_def)
  qed
qed

lemma rng_bytes_stream:
  "rng_at r seed k \<Longrightarrow> rng_at (fst (rng_bytes n r)) seed (k + n)
     \<and> snd (rng_bytes n r) = map (rng_stream seed) [k..<k + n]"
proof (induction n arbitrary: r k)
  case (Suc n)
  have "rng_at (fst (rng_next_byte r)) seed (Suc k)" "snd (rng_next_byte r) = rng_stream seed k"
    using rng_next_byte_stream [OF Suc.prems] by simp_all
  with Suc.IH [of "fst (rng_next_byte r)" "Suc k"] show ?case
    by (simp add: case_prod_beta upt_conv_Cons del: upt_Suc)
qed simp

subsection \<open>Properties\<close>

text \<open>A sector is returned exactly when it is in range, the backend delivers it and its
  SHA-384 (or, in image mode, that of the whole backend) is the expected one; verification
  of a per-sector disk accepts exactly when there is one digest per sector and every sector
  can be read.\<close>

theorem disk_read_exact:
  "(blk_read_sector bo d idx = Ok bytes \<longleftrightarrow>
      idx < bo_sectors bo (blk_backend d) \<and> bo_read_sector bo (blk_backend d) idx = Ok bytes
      \<and> (case blk_integrity d of
           PerSector hs \<Rightarrow> unat idx < length hs \<and> hs ! unat idx = sha384_hex bytes
         | Image h \<Rightarrow> image_digest bo d = Ok h))
   \<and> (blk_verify bo (d\<lparr>blk_integrity := PerSector hs\<rparr>) = Ok () \<longleftrightarrow>
        word_of_nat (length hs) = bo_sectors bo (blk_backend d)
        \<and> list_all (\<lambda>i. is_ok (blk_read_sector bo (d\<lparr>blk_integrity := PerSector hs\<rparr>) i))
             (sector_list (bo_sectors bo (blk_backend d))))"
  by (simp add: blk_read_sector_exact blk_verify_def verify_sectors_Ok_iff list_all_iff Let_def
      split: if_splits)

text \<open>C26: What the guest sees of a sector: after selecting it and issuing the load command,
  the data register yields the bytes of a verified sector in order and nothing more, and
  yields nothing when the sector is out of range or fails its digest.\<close>

theorem guest_reads_verified_bytes:
  "guest_read bo n (guest_load bo d idx) =
     (case blk_read_sector bo d idx of
        Inr bytes \<Rightarrow>
          ((guest_load bo d idx)\<lparr>blk_cursor := min n (length bytes)\<rparr>,
           map (\<lambda>b. Ok (ucast b)) (take n bytes)
             @ replicate (n - length bytes) (Err (OffsetOutOfRange REG_DATA)))
      | Inl e \<Rightarrow> (guest_load bo d idx, replicate n (Err (OffsetOutOfRange REG_DATA))))"
proof (cases "blk_read_sector bo d idx")
  case (Inl e)
  then have "blk_status (guest_load bo d idx) \<noteq> STATUS_OK"
    by (auto simp: guest_load_eq blk_load_def blk_regs blk_read_sector_cong [of "d\<lparr>blk_selected := idx\<rparr>" d]
        split: virtio_error.splits)
  then show ?thesis using Inl by (simp add: guest_read_refused)
next
  case (Inr bytes)
  let ?d = "guest_load bo d idx"
  have d: "blk_status ?d = STATUS_OK" "blk_cursor ?d = 0" "blk_buffer ?d = bytes"
    using Inr by (simp_all add: guest_load_eq blk_load_def blk_read_sector_cong [of "d\<lparr>blk_selected := idx\<rparr>" d])
  show ?thesis
  proof (cases "n \<le> length bytes")
    case True
    then show ?thesis using guest_read_buffer [of ?d n bo] d Inr by (simp add: min_def)
  next
    case False
    then obtain k where n: "n = length bytes + k" using le_Suc_ex [of "length bytes" n] by auto
    have split: "guest_read bo (m + k) d0 =
        (let (d1, r1) = guest_read bo m d0; (d2, r2) = guest_read bo k d1 in (d2, r1 @ r2))" for m d0
      by (induction m arbitrary: d0) (simp_all add: case_prod_beta)
    have "guest_read bo (length bytes) ?d = (?d\<lparr>blk_cursor := length bytes\<rparr>, map (\<lambda>b. Ok (ucast b)) bytes)"
      using guest_read_buffer [of ?d "length bytes" bo] d by simp
    moreover have "guest_read bo k (?d\<lparr>blk_cursor := length bytes\<rparr>) =
        (?d\<lparr>blk_cursor := length bytes\<rparr>, replicate k (Err (OffsetOutOfRange REG_DATA)))"
      using d by (intro guest_read_refused) simp
    ultimately show ?thesis using n Inr by (simp add: split)
  qed
qed

text \<open>C27: Tamper evidence: when the digests were taken from the trusted sectors \<open>orig\<close>, a
  sector that the disk returns from any backend is the trusted one, or it is a second
  preimage: different bytes with the same SHA-384.\<close>

theorem disk_tamper_evident:
  assumes "blk_integrity d = PerSector (map sha384_hex orig)"
    and "blk_read_sector bo d idx = Ok bytes"
  shows "unat idx < length orig
       \<and> (bytes = orig ! unat idx \<or> bytes \<noteq> orig ! unat idx \<and> sha384 bytes = sha384 (orig ! unat idx))"
  using assms by (auto simp: blk_read_sector_exact sha384_hex_eq_iff)

lemma disk_tamper_evident_witness:
  "let orig = [[1, 2], [3, 4]];
       d = blk_new_per_sector 7 \<lparr>bi_data = [1, 2, 3, 4], bi_sector_size = 2\<rparr> (map sha384_hex orig)
   in blk_read_sector image_ops d 1 = Ok [3, 4] \<and> unat (1 :: u64) < length orig"
proof -
  let ?orig = "[[1, 2], [3, 4]] :: byte list list"
  let ?d = "blk_new_per_sector 7 \<lparr>bi_data = [1, 2, 3, 4], bi_sector_size = 2\<rparr> (map sha384_hex ?orig)"
  have i: "blk_integrity ?d = PerSector (map sha384_hex ?orig)"
    by (simp add: blk_new_per_sector_def blk_with_integrity_def)
  have r: "blk_read_sector image_ops ?d 1 = Ok [3, 4]"
    by (simp add: blk_read_sector_exact blk_new_per_sector_def blk_with_integrity_def image_ops_def
        image_sectors_def image_read_sector_def checked_mul_def checked_add_def)
  from disk_tamper_evident [OF i r] r show ?thesis by (simp add: Let_def)
qed

text \<open>The generator is a function of its seed alone: byte \<open>k\<close> of the stream is byte
  \<open>k mod 48\<close> of the SHA-384 of the seed and the block number \<open>k div 48\<close>, both little
  endian, whether the device is new, was reseeded with that seed or was reset, in any state.\<close>

theorem rng_stream_deterministic:
  "snd (rng_bytes n (rng_new i seed)) = map (rng_stream seed) [0..<n]
   \<and> snd (rng_bytes n (rng_reseed r seed)) = map (rng_stream seed) [0..<n]
   \<and> snd (rng_bytes n (rng_reset r)) = map (rng_stream (rng_seed r)) [0..<n]"
proof -
  have "rng_at (rng_new i seed) seed 0" "rng_at (rng_reseed r seed) seed 0"
    "rng_at (rng_reset r) (rng_seed r) 0"
    by (simp_all add: rng_new_def rng_reseed_def rng_reset_def rng_at_def rng_refill_def)
  then show ?thesis using rng_bytes_stream by fastforce
qed

lemma console_receives:
  "fold (\<lambda>b c. fst (console_mmio_write c CON_REG_DATA WByte (ucast b))) bs c = c\<lparr>con_out := con_out c @ bs\<rparr>"
proof (induction bs arbitrary: c)
  case (Cons b bs)
  have "(ucast b :: u64) AND NOT (width_mask WByte) = 0"
    using ucast_byte_mask [of b] by (metis and.assoc bit.conj_cancel_right bit.conj_zero_right)
  moreover have "(ucast (ucast b :: u64) :: byte) = b"
    by (rule bit_word_eqI) (auto simp: bit_simps)
  ultimately have "fst (console_mmio_write c CON_REG_DATA WByte (ucast b)) = c\<lparr>con_out := con_out c @ [b]\<rparr>"
    by (simp add: console_mmio_write_def)
  with Cons.IH show ?case by simp
qed simp

text \<open>On a bus of any mix of the repository's devices, a guest access that is refused,
  at any address or port and width, changes nothing: no device and no route.\<close>

theorem refused_access_changes_nothing:
  "(is_ok (snd (dispatch_mmio_read bus_ops g a w)) \<or> fst (dispatch_mmio_read bus_ops g a w) = g)
   \<and> (is_ok (snd (dispatch_mmio_write bus_ops g a w v)) \<or> fst (dispatch_mmio_write bus_ops g a w v) = g)
   \<and> (is_ok (snd (dispatch_io_read bus_ops g p w)) \<or> fst (dispatch_io_read bus_ops g p w) = g)
   \<and> (is_ok (snd (dispatch_io_write bus_ops g p w x)) \<or> fst (dispatch_io_write bus_ops g p w x) = g)"
proof -
  have refused: "is_ok (snd p) \<or> fst p = g" if "\<And>g' e. p = (g', Err e) \<Longrightarrow> g' = g"
    for p :: "bus_device device_graph \<times> (dev_error + 'x)"
    using that by (cases p; cases "snd p") auto
  show ?thesis
    by (intro conjI refused) (erule bus_dev.dispatch_err_unchanged)+
qed

end
