(* ===== verification/Receipts.thy ===== *)
theory Receipts
  imports Sha384
begin

text \<open>
  The tamper-evident logs of \<open>hyper-receipts\<close>: the receipt chain, the security event log and
  the older unsigned receipt chain that \<open>lib.rs\<close> also contains. All three are instances of one
  interface, the locale \<open>hash_chain\<close>, where tamper evidence is proved once: two accepted
  chains of the same length with the same head have the same contents, entry by entry, or
  exhibit a hash collision.

  The crates \<open>sha2\<close>, \<open>hex\<close> and \<open>serde_json\<close> are not part of the repository: the
  digest, the hex encoder and the JSON encoders are the fields of the environment \<open>extern\<close>
  and its extensions, and every definition that reaches them takes the environment.
\<close>

subsection \<open>The environment\<close>

record extern =
  ext_sha384 :: "byte list \<Rightarrow> byte list"
  ext_hex :: "byte list \<Rightarrow> string"

definition ext_sha384_hex :: "('x) extern_scheme \<Rightarrow> byte list \<Rightarrow> string" where
  "ext_sha384_hex X bytes = ''sha384:'' @ ext_hex X (ext_sha384 X bytes)"

definition genesis_hash :: string where
  "genesis_hash = ''sha384:'' @ replicate 96 (CHR ''0'')"

subsection \<open>Receipts\<close>

definition RECEIPT_SCHEMA :: string where "RECEIPT_SCHEMA = ''chain.receipt.v1''"

datatype receipt_event =
    EvBoot | EvFirmwareBaseline | EvVmDefine | EvManifestVerify | EvKeyRelease | EvVmLaunch
  | EvVmExitFault | EvDeviceAssign | EvSnapshot | EvDestroy | EvRecovery | EvPolicyChange

definition event_str :: "receipt_event \<Rightarrow> string" where
  "event_str e = (case e of
       EvBoot \<Rightarrow> ''boot'' | EvFirmwareBaseline \<Rightarrow> ''firmware_baseline''
     | EvVmDefine \<Rightarrow> ''vm_define'' | EvManifestVerify \<Rightarrow> ''manifest_verify''
     | EvKeyRelease \<Rightarrow> ''key_release'' | EvVmLaunch \<Rightarrow> ''vm_launch''
     | EvVmExitFault \<Rightarrow> ''vm_exit_fault'' | EvDeviceAssign \<Rightarrow> ''device_assign''
     | EvSnapshot \<Rightarrow> ''snapshot'' | EvDestroy \<Rightarrow> ''destroy''
     | EvRecovery \<Rightarrow> ''recovery'' | EvPolicyChange \<Rightarrow> ''policy_change'')"

record receipt_signature =
  rs_alg :: string
  rs_key_id :: string

record receipt =
  rc_schema :: string
  rc_receipt_id :: string
  rc_event :: string
  rc_subject :: string
  rc_decision :: string
  rc_policy_id :: string
  rc_inputs_hash :: string
  rc_previous_hash :: string
  rc_hash :: string
  rc_signature :: "receipt_signature option"

text \<open>What is hashed: every field but the id, the hash itself and the signature.\<close>

record receipt_canonical =
  cn_schema :: string
  cn_event :: string
  cn_subject :: string
  cn_decision :: string
  cn_policy_id :: string
  cn_inputs_hash :: string
  cn_previous_hash :: string

datatype severity = SevLow | SevMedium | SevHigh | SevCritical

definition severity_str :: "severity \<Rightarrow> string" where
  "severity_str s = (case s of SevLow \<Rightarrow> ''low'' | SevMedium \<Rightarrow> ''medium''
     | SevHigh \<Rightarrow> ''high'' | SevCritical \<Rightarrow> ''critical'')"

record security_canonical =
  scn_schema :: string
  scn_severity :: severity
  scn_component :: string
  scn_event :: string
  scn_vm_id :: "string option"
  scn_action :: string
  scn_fields :: "(string, string) btree_map"
  scn_hash_prev :: string

record receipt_env = extern +
  env_receipt_json :: "receipt_canonical \<Rightarrow> byte list"
  env_security_json :: "security_canonical \<Rightarrow> byte list"

definition compute_receipt_hash ::
  "('x) receipt_env_scheme \<Rightarrow> string \<Rightarrow> string \<Rightarrow> string \<Rightarrow> string \<Rightarrow> string \<Rightarrow> string \<Rightarrow> string
     \<Rightarrow> string" where
  "compute_receipt_hash X schema event subject decision policy_id inputs_hash previous =
     (let canonical = \<lparr>cn_schema = schema, cn_event = event, cn_subject = subject,
            cn_decision = decision, cn_policy_id = policy_id, cn_inputs_hash = inputs_hash,
            cn_previous_hash = previous\<rparr>;
          bytes = env_receipt_json X canonical
      in ext_sha384_hex X bytes)"

datatype chain_error =
    ChainBadSchema nat string string
  | ChainHashMismatch nat string string
  | ChainBrokenLink nat string string
  | ChainJson string

record receipt_chain =
  ch_genesis_hash :: string
  ch_receipts :: "receipt list"

definition receipt_chain_new :: receipt_chain where
  "receipt_chain_new = \<lparr>ch_genesis_hash = genesis_hash, ch_receipts = []\<rparr>"

definition chain_head_hash :: "receipt_chain \<Rightarrow> string" where
  "chain_head_hash c =
     (if ch_receipts c = [] then ch_genesis_hash c else rc_hash (last (ch_receipts c)))"

text \<open>
  The id shows the entry's index, at least six digits wide, and the first sixteen hex
  digits of its hash. The slice panics on a shorter string, which no 384-bit digest gives.
\<close>

definition hash_id :: "string \<Rightarrow> nat \<Rightarrow> string \<Rightarrow> string" where
  "hash_id tag index h =
     (let hex_part = (case strip_prefix ''sha384:'' h of Some p \<Rightarrow> p | None \<Rightarrow> h)
      in tag @ ''-'' @ pad_left 6 (CHR ''0'') (show_nat index) @ ''-'' @ take 16 hex_part)"

definition chain_append ::
  "('x) receipt_env_scheme \<Rightarrow> receipt_chain \<Rightarrow> string \<Rightarrow> string \<Rightarrow> string \<Rightarrow> string \<Rightarrow> string
     \<Rightarrow> receipt_chain" where
  "chain_append X c event subject decision policy_id inputs_hash =
     (let previous = chain_head_hash c;
          schema = RECEIPT_SCHEMA;
          h = compute_receipt_hash X schema event subject decision policy_id inputs_hash previous;
          index = length (ch_receipts c)
      in c\<lparr>ch_receipts := ch_receipts c @
            [\<lparr>rc_schema = schema, rc_receipt_id = hash_id ''rcpt'' index h, rc_event = event,
              rc_subject = subject, rc_decision = decision, rc_policy_id = policy_id,
              rc_inputs_hash = inputs_hash, rc_previous_hash = previous, rc_hash = h,
              rc_signature = None\<rparr>]\<rparr>)"

definition recompute_receipt :: "('x) receipt_env_scheme \<Rightarrow> receipt \<Rightarrow> string" where
  "recompute_receipt X r =
     compute_receipt_hash X (rc_schema r) (rc_event r) (rc_subject r) (rc_decision r)
       (rc_policy_id r) (rc_inputs_hash r) (rc_previous_hash r)"

fun chain_verify_from ::
  "('x) receipt_env_scheme \<Rightarrow> nat \<Rightarrow> string \<Rightarrow> receipt list \<Rightarrow> chain_error + unit" where
  "chain_verify_from X index expected_prev [] = Ok ()"
| "chain_verify_from X index expected_prev (r # rs) =
     (if rc_schema r \<noteq> RECEIPT_SCHEMA then Err (ChainBadSchema index RECEIPT_SCHEMA (rc_schema r))
      else if rc_previous_hash r \<noteq> expected_prev
      then Err (ChainBrokenLink index expected_prev (rc_previous_hash r))
      else let recomputed = recompute_receipt X r in
        if recomputed \<noteq> rc_hash r then Err (ChainHashMismatch index recomputed (rc_hash r))
        else chain_verify_from X (Suc index) (rc_hash r) rs)"

definition chain_verify :: "('x) receipt_env_scheme \<Rightarrow> receipt_chain \<Rightarrow> chain_error + unit" where
  "chain_verify X c = chain_verify_from X 0 (ch_genesis_hash c) (ch_receipts c)"

subsection \<open>Security events\<close>

definition SECURITY_EVENT_SCHEMA :: string where
  "SECURITY_EVENT_SCHEMA = ''chain.security_event.v1''"

record security_event =
  se_schema :: string
  se_event_id :: string
  se_severity :: severity
  se_component :: string
  se_event :: string
  se_vm_id :: "string option"
  se_action :: string
  se_fields :: "(string, string) btree_map"
  se_hash_prev :: string
  se_hash_this :: string

definition compute_security_hash ::
  "('x) receipt_env_scheme \<Rightarrow> string \<Rightarrow> severity \<Rightarrow> string \<Rightarrow> string \<Rightarrow> string option \<Rightarrow> string
     \<Rightarrow> (string, string) btree_map \<Rightarrow> string \<Rightarrow> string" where
  "compute_security_hash X schema sev component event vm action fds prev =
     (let canonical = \<lparr>scn_schema = schema, scn_severity = sev, scn_component = component,
            scn_event = event, scn_vm_id = vm, scn_action = action, scn_fields = fds,
            scn_hash_prev = prev\<rparr>
      in ext_sha384_hex X (env_security_json X canonical))"

datatype security_log_error =
    LogBadSchema nat string string
  | LogHashMismatch nat string string
  | LogBrokenLink nat string string
  | LogJson string

record security_log =
  sl_genesis_hash :: string
  sl_events :: "security_event list"

definition security_log_new :: security_log where
  "security_log_new = \<lparr>sl_genesis_hash = genesis_hash, sl_events = []\<rparr>"

definition log_head_hash :: "security_log \<Rightarrow> string" where
  "log_head_hash l =
     (if sl_events l = [] then sl_genesis_hash l else se_hash_this (last (sl_events l)))"

definition log_append ::
  "('x) receipt_env_scheme \<Rightarrow> security_log \<Rightarrow> severity \<Rightarrow> string \<Rightarrow> string \<Rightarrow> string option
     \<Rightarrow> string \<Rightarrow> (string, string) btree_map \<Rightarrow> security_log" where
  "log_append X l sev component event vm action fds =
     (let schema = SECURITY_EVENT_SCHEMA;
          prev = log_head_hash l;
          h = compute_security_hash X schema sev component event vm action fds prev;
          index = length (sl_events l)
      in l\<lparr>sl_events := sl_events l @
            [\<lparr>se_schema = schema, se_event_id = hash_id ''sec'' index h, se_severity = sev,
              se_component = component, se_event = event, se_vm_id = vm, se_action = action,
              se_fields = fds, se_hash_prev = prev, se_hash_this = h\<rparr>]\<rparr>)"

definition recompute_event :: "('x) receipt_env_scheme \<Rightarrow> security_event \<Rightarrow> string" where
  "recompute_event X e =
     compute_security_hash X (se_schema e) (se_severity e) (se_component e) (se_event e)
       (se_vm_id e) (se_action e) (se_fields e) (se_hash_prev e)"

fun log_verify_from ::
  "('x) receipt_env_scheme \<Rightarrow> nat \<Rightarrow> string \<Rightarrow> security_event list \<Rightarrow> security_log_error + unit" where
  "log_verify_from X index expected_prev [] = Ok ()"
| "log_verify_from X index expected_prev (e # es) =
     (if se_schema e \<noteq> SECURITY_EVENT_SCHEMA
      then Err (LogBadSchema index SECURITY_EVENT_SCHEMA (se_schema e))
      else if se_hash_prev e \<noteq> expected_prev
      then Err (LogBrokenLink index expected_prev (se_hash_prev e))
      else let recomputed = recompute_event X e in
        if recomputed \<noteq> se_hash_this e
        then Err (LogHashMismatch index recomputed (se_hash_this e))
        else log_verify_from X (Suc index) (se_hash_this e) es)"

definition log_verify :: "('x) receipt_env_scheme \<Rightarrow> security_log \<Rightarrow> security_log_error + unit" where
  "log_verify X l = log_verify_from X 0 (sl_genesis_hash l) (sl_events l)"

subsection \<open>The older chain\<close>

definition RECEIPT_SCHEMA_VERSION :: u32 where "RECEIPT_SCHEMA_VERSION = 1"

datatype receipt_decision = RdAllow | RdDeny | RdRequireApproval | RdObserve

definition receipt_decision_debug :: "receipt_decision \<Rightarrow> string" where
  "receipt_decision_debug d = (case d of RdAllow \<Rightarrow> ''Allow'' | RdDeny \<Rightarrow> ''Deny''
     | RdRequireApproval \<Rightarrow> ''RequireApproval'' | RdObserve \<Rightarrow> ''Observe'')"

record legacy_signature =
  ls_alg :: string
  ls_key_id :: string
  ls_sig_ref :: string

record legacy_receipt =
  lr_schema_version :: u32
  lr_receipt_id :: string
  lr_event :: string
  lr_subject :: string
  lr_decision :: receipt_decision
  lr_policy_id :: "string option"
  lr_inputs_hash :: string
  lr_previous_hash :: "string option"
  lr_hash :: string
  lr_signature :: "legacy_signature option"

definition u32_be_bytes :: "u32 \<Rightarrow> byte list" where
  "u32_be_bytes w = [ucast (drop_bit 24 w), ucast (drop_bit 16 w), ucast (drop_bit 8 w), ucast w]"

definition unwrap_str :: "string option \<Rightarrow> string" where
  "unwrap_str s = (case s of Some t \<Rightarrow> t | None \<Rightarrow> [])"

text \<open>The bytes fed to the hasher: the fields separated by the unit separator 0x1f.\<close>

definition legacy_encoding :: "legacy_receipt \<Rightarrow> byte list" where
  "legacy_encoding r =
     u32_be_bytes (lr_schema_version r) @ [0x1F] @ as_bytes (lr_receipt_id r) @ [0x1F]
     @ as_bytes (lr_event r) @ [0x1F] @ as_bytes (lr_subject r) @ [0x1F]
     @ as_bytes (receipt_decision_debug (lr_decision r)) @ [0x1F]
     @ as_bytes (unwrap_str (lr_policy_id r)) @ [0x1F] @ as_bytes (lr_inputs_hash r) @ [0x1F]
     @ as_bytes (unwrap_str (lr_previous_hash r))"

definition legacy_compute_hash :: "('x) extern_scheme \<Rightarrow> legacy_receipt \<Rightarrow> string" where
  "legacy_compute_hash X r = ext_sha384_hex X (legacy_encoding r)"

definition legacy_unsigned ::
  "('x) extern_scheme \<Rightarrow> string \<Rightarrow> string \<Rightarrow> string \<Rightarrow> receipt_decision \<Rightarrow> string option \<Rightarrow> string
     \<Rightarrow> string option \<Rightarrow> legacy_receipt" where
  "legacy_unsigned X rid event subject decision policy inputs previous =
     (let r = \<lparr>lr_schema_version = RECEIPT_SCHEMA_VERSION, lr_receipt_id = rid, lr_event = event,
               lr_subject = subject, lr_decision = decision, lr_policy_id = policy,
               lr_inputs_hash = inputs, lr_previous_hash = previous, lr_hash = [],
               lr_signature = None\<rparr>
      in r\<lparr>lr_hash := legacy_compute_hash X r\<rparr>)"

definition legacy_verify_hash :: "('x) extern_scheme \<Rightarrow> legacy_receipt \<Rightarrow> bool" where
  "legacy_verify_hash X r \<longleftrightarrow> lr_hash r = legacy_compute_hash X r"

definition legacy_signed :: "legacy_receipt \<Rightarrow> legacy_signature \<Rightarrow> legacy_receipt" where
  "legacy_signed r s = r\<lparr>lr_signature := Some s\<rparr>"

type_synonym legacy_chain = "legacy_receipt list"

definition legacy_last_hash :: "legacy_chain \<Rightarrow> string option" where
  "legacy_last_hash c = (if c = [] then None else Some (lr_hash (last c)))"

definition legacy_push :: "('x) extern_scheme \<Rightarrow> legacy_chain \<Rightarrow> legacy_receipt \<Rightarrow> legacy_chain \<times> bool" where
  "legacy_push X c r =
     (let expected_prev = legacy_last_hash c;
          hash_ok = legacy_verify_hash X r;
          prev_ok = (lr_previous_hash r = expected_prev)
      in if hash_ok \<and> prev_ok then (c @ [r], True) else (c, False))"

fun legacy_verify_from :: "('x) extern_scheme \<Rightarrow> string option \<Rightarrow> legacy_chain \<Rightarrow> bool" where
  "legacy_verify_from X previous [] = True"
| "legacy_verify_from X previous (r # rs) =
     (if lr_previous_hash r \<noteq> previous \<or> \<not> legacy_verify_hash X r then False
      else legacy_verify_from X (Some (lr_hash r)) rs)"

definition legacy_verify :: "('x) extern_scheme \<Rightarrow> legacy_chain \<Rightarrow> bool" where
  "legacy_verify X c = legacy_verify_from X None c"

subsection \<open>Hash chains\<close>

text \<open>
  An entry has a protected content, stores the hash of it, and refers to its predecessor;
  \<open>link_of\<close> is what a successor keeps of a hash. The reference is part of the content.
  A collision is one between entries at the same position of two given chains.
\<close>

definition hash_collision :: "('c \<Rightarrow> string) \<Rightarrow> ('r \<Rightarrow> 'c) \<Rightarrow> 'r list \<Rightarrow> 'r list \<Rightarrow> bool" where
  "hash_collision H content rs rs' \<longleftrightarrow>
     (\<exists>(r, r') \<in> set (zip rs rs'). content r \<noteq> content r' \<and> H (content r) = H (content r'))"

locale hash_chain =
  fixes H :: "'c \<Rightarrow> string"
    and content :: "'r \<Rightarrow> 'c"
    and stored :: "'r \<Rightarrow> string"
    and prev :: "'r \<Rightarrow> 'l"
    and link_of :: "string \<Rightarrow> 'l"
    and well_formed :: "'r \<Rightarrow> bool"
  assumes link_inject: "link_of h = link_of h' \<Longrightarrow> h = h'"
    and prev_covered: "content r = content r' \<Longrightarrow> prev r = prev r'"
begin

fun valid :: "'l \<Rightarrow> 'r list \<Rightarrow> bool" where
  "valid p [] \<longleftrightarrow> True"
| "valid p (r # rs) \<longleftrightarrow>
     well_formed r \<and> prev r = p \<and> stored r = H (content r) \<and> valid (link_of (stored r)) rs"

definition head :: "'l \<Rightarrow> 'r list \<Rightarrow> 'l" where
  "head p rs = (if rs = [] then p else link_of (stored (last rs)))"

lemma valid_append: "valid p (rs @ rs') \<longleftrightarrow> valid p rs \<and> valid (head p rs) rs'"
  by (induction rs arbitrary: p) (auto simp: head_def)

lemma valid_snoc:
  "valid p (rs @ [r]) \<longleftrightarrow> valid p rs \<and> well_formed r \<and> prev r = head p rs \<and> stored r = H (content r)"
  by (simp add: valid_append)

lemma head_snoc [simp]: "head p (rs @ [r]) = link_of (stored r)"
  by (simp add: head_def)

text \<open>Two valid chains of equal length and equal head agree entry by entry, or collide.\<close>

lemma tamper_evident:
  assumes "valid p rs" "valid p' rs'" "length rs = length rs'" "head p rs = head p' rs'"
  shows "map content rs = map content rs' \<or> hash_collision H content rs rs'"
  using assms(3,1,2,4)
proof (induction rs rs' rule: rev_induct2)
  case (4 r rs r' rs')
  have v: "valid p rs" "valid p' rs'" "prev r = head p rs" "prev r' = head p' rs'"
      "stored r = H (content r)" "stored r' = H (content r')" "length rs = length rs'"
    using 4 by (simp_all add: valid_snoc)
  have "stored r = stored r'" using 4 by (simp add: link_inject)
  then have h: "H (content r) = H (content r')" using v by simp
  show ?case
  proof (cases "content r = content r'")
    case False
    with h v(7) show ?thesis by (simp add: hash_collision_def)
  next
    case True
    then have "head p rs = head p' rs'" using prev_covered v(3,4) by metis
    with 4 v have "map content rs = map content rs' \<or> hash_collision H content rs rs'" by simp
    then show ?thesis using True v(7) by (auto simp: hash_collision_def)
  qed
qed simp_all

end

subsection \<open>The three chains are hash chains\<close>

definition receipt_content :: "receipt \<Rightarrow> receipt_canonical" where
  "receipt_content r =
     \<lparr>cn_schema = rc_schema r, cn_event = rc_event r, cn_subject = rc_subject r,
      cn_decision = rc_decision r, cn_policy_id = rc_policy_id r,
      cn_inputs_hash = rc_inputs_hash r, cn_previous_hash = rc_previous_hash r\<rparr>"

definition security_content :: "security_event \<Rightarrow> security_canonical" where
  "security_content e =
     \<lparr>scn_schema = se_schema e, scn_severity = se_severity e, scn_component = se_component e,
      scn_event = se_event e, scn_vm_id = se_vm_id e, scn_action = se_action e,
      scn_fields = se_fields e, scn_hash_prev = se_hash_prev e\<rparr>"

definition legacy_content :: "legacy_receipt \<Rightarrow> legacy_receipt" where
  "legacy_content r = r\<lparr>lr_hash := [], lr_signature := None\<rparr>"

lemma recompute_receipt_eq:
  "recompute_receipt X r = ext_sha384_hex X (env_receipt_json X (receipt_content r))"
  by (simp add: recompute_receipt_def compute_receipt_hash_def receipt_content_def Let_def)

lemma recompute_event_eq:
  "recompute_event X e = ext_sha384_hex X (env_security_json X (security_content e))"
  by (simp add: recompute_event_def compute_security_hash_def security_content_def Let_def)

lemma legacy_compute_hash_content: "legacy_compute_hash X (legacy_content r) = legacy_compute_hash X r"
  by (simp add: legacy_compute_hash_def legacy_encoding_def legacy_content_def)

definition receipt_hash :: "('x) receipt_env_scheme \<Rightarrow> receipt_canonical \<Rightarrow> string" where
  "receipt_hash X c = ext_sha384_hex X (env_receipt_json X c)"

definition security_hash :: "('x) receipt_env_scheme \<Rightarrow> security_canonical \<Rightarrow> string" where
  "security_hash X c = ext_sha384_hex X (env_security_json X c)"

interpretation receipts: hash_chain H receipt_content rc_hash rc_previous_hash "\<lambda>h. h"
  "\<lambda>r. rc_schema r = RECEIPT_SCHEMA" for H
  by unfold_locales (auto simp: receipt_content_def)

interpretation security: hash_chain H security_content se_hash_this se_hash_prev "\<lambda>h. h"
  "\<lambda>e. se_schema e = SECURITY_EVENT_SCHEMA" for H
  by unfold_locales (auto simp: security_content_def)

interpretation legacy: hash_chain H legacy_content lr_hash lr_previous_hash Some "\<lambda>r. True"
  for H
proof unfold_locales
  fix r r' assume "legacy_content r = legacy_content r'"
  then have "lr_previous_hash (legacy_content r) = lr_previous_hash (legacy_content r')" by simp
  then show "lr_previous_hash r = lr_previous_hash r'" by (simp add: legacy_content_def)
qed simp

lemma chain_verify_from_valid:
  "chain_verify_from X i p rs = Ok u \<longleftrightarrow> receipts.valid (receipt_hash X) p rs"
  by (induction rs arbitrary: i p) (auto simp: Let_def recompute_receipt_eq receipt_hash_def)

lemma chain_verify_valid:
  "chain_verify X c = Ok u \<longleftrightarrow> receipts.valid (receipt_hash X) (ch_genesis_hash c) (ch_receipts c)"
  by (simp add: chain_verify_def chain_verify_from_valid)

lemma chain_head_eq: "chain_head_hash c = receipts.head (ch_genesis_hash c) (ch_receipts c)"
  by (simp add: chain_head_hash_def receipts.head_def)

lemma log_verify_from_valid:
  "log_verify_from X i p es = Ok u \<longleftrightarrow> security.valid (security_hash X) p es"
  by (induction es arbitrary: i p) (auto simp: Let_def recompute_event_eq security_hash_def)

lemma log_verify_valid:
  "log_verify X l = Ok u \<longleftrightarrow> security.valid (security_hash X) (sl_genesis_hash l) (sl_events l)"
  by (simp add: log_verify_def log_verify_from_valid)

lemma log_head_eq: "log_head_hash l = security.head (sl_genesis_hash l) (sl_events l)"
  by (simp add: log_head_hash_def security.head_def)

lemma legacy_verify_from_valid: "legacy_verify_from X p rs \<longleftrightarrow> legacy.valid (legacy_compute_hash X) p rs"
  by (induction rs arbitrary: p) (auto simp: legacy_verify_hash_def legacy_compute_hash_content)

subsection \<open>Appending\<close>

lemma chain_append_verifies:
  "chain_verify X c = Ok u \<Longrightarrow> chain_verify X (chain_append X c ev subj dec pol inp) = Ok u"
  by (simp add: chain_verify_valid chain_append_def receipts.valid_snoc chain_head_eq Let_def
      receipt_content_def compute_receipt_hash_def receipt_hash_def)

lemma log_append_verifies:
  "log_verify X l = Ok u \<Longrightarrow> log_verify X (log_append X l sev component ev vm act fds) = Ok u"
  by (simp add: log_verify_valid log_append_def security.valid_snoc log_head_eq Let_def
      security_content_def compute_security_hash_def security_hash_def)

lemma legacy_push_verifies:
  "legacy_verify X c \<Longrightarrow> legacy_verify X (fst (legacy_push X c r))"
  by (auto simp: legacy_verify_def legacy_push_def legacy_verify_from_valid legacy.valid_snoc
      legacy.head_def legacy_last_hash_def legacy_verify_hash_def legacy_compute_hash_content Let_def)

lemma chain_new_verifies [simp]: "chain_verify X receipt_chain_new = Ok ()"
  by (simp add: chain_verify_def receipt_chain_new_def)

lemma log_new_verifies [simp]: "log_verify X security_log_new = Ok ()"
  by (simp add: log_verify_def security_log_new_def)

lemma chain_append_sel [simp]:
  "ch_genesis_hash (chain_append X c ev subj dec pol inp) = ch_genesis_hash c"
  "length (ch_receipts (chain_append X c ev subj dec pol inp)) = Suc (length (ch_receipts c))"
  by (simp_all add: chain_append_def Let_def)

text \<open>What the last receipt says.\<close>

lemma chain_append_last:
  "ch_receipts (chain_append X c ev subj dec pol inp) \<noteq> []
   \<and> butlast (ch_receipts (chain_append X c ev subj dec pol inp)) = ch_receipts c
   \<and> rc_event (last (ch_receipts (chain_append X c ev subj dec pol inp))) = ev
   \<and> rc_subject (last (ch_receipts (chain_append X c ev subj dec pol inp))) = subj
   \<and> rc_decision (last (ch_receipts (chain_append X c ev subj dec pol inp))) = dec
   \<and> rc_policy_id (last (ch_receipts (chain_append X c ev subj dec pol inp))) = pol
   \<and> rc_inputs_hash (last (ch_receipts (chain_append X c ev subj dec pol inp))) = inp"
  by (simp add: chain_append_def Let_def)

subsection \<open>A concrete environment\<close>

text \<open>
  The hypotheses on the environment below can hold: the digest and hex encoder of
  \<open>hyper-virtio\<close>, and an encoder that writes every string with its length in front.
\<close>

definition framed :: "string \<Rightarrow> byte list" where
  "framed s = replicate (length s) 1 @ [0] @ as_bytes s"

lemma framed_append_inject [simp]: "framed s @ xs = framed t @ ys \<longleftrightarrow> s = t \<and> xs = ys"
proof
  assume eq: "framed s @ xs = framed t @ ys"
  then have "length (takeWhile (\<lambda>b. b = 1) (framed s @ xs)) = length (takeWhile (\<lambda>b. b = 1) (framed t @ ys))"
    by simp
  then have "length s = length t" by (simp add: framed_def takeWhile_append)
  with eq show "s = t \<and> xs = ys" by (simp add: framed_def)
qed simp

lemma framed_inject [simp]: "framed s = framed t \<longleftrightarrow> s = t"
  using framed_append_inject [of s "[]" t "[]"] by simp

definition sample_receipt_json :: "receipt_canonical \<Rightarrow> byte list" where
  "sample_receipt_json c =
     framed (cn_schema c) @ framed (cn_event c) @ framed (cn_subject c) @ framed (cn_decision c)
     @ framed (cn_policy_id c) @ framed (cn_inputs_hash c) @ framed (cn_previous_hash c)"

definition sample_security_json :: "security_canonical \<Rightarrow> byte list" where
  "sample_security_json c =
     framed (scn_schema c) @ framed (severity_str (scn_severity c)) @ framed (scn_component c)
     @ framed (scn_event c)
     @ (case scn_vm_id c of None \<Rightarrow> [0] | Some v \<Rightarrow> 1 # framed v)
     @ framed (scn_action c) @ framed (scn_hash_prev c)
     @ concat (map (\<lambda>(k, v). framed k @ framed v) (scn_fields c))"

definition sample_env :: receipt_env where
  "sample_env = \<lparr>ext_sha384 = sha384, ext_hex = hex, env_receipt_json = sample_receipt_json,
                 env_security_json = sample_security_json\<rparr>"

lemma inj_sample_receipt_json: "inj sample_receipt_json"
  by (rule injI) (auto simp: sample_receipt_json_def)

lemma inj_hex: "inj hex"
  by (rule injI) (simp add: hex_inject)

subsection \<open>Properties\<close>

text \<open>C28: A receipt chain built by any sequence of appends verifies, and its receipts carry the
  appended events, subjects, decisions, policies and input hashes in order.\<close>

theorem appended_chain_verifies:
  "chain_verify X (fold (\<lambda>(ev, subj, dec, pol, inp) c. chain_append X c ev subj dec pol inp) es
       receipt_chain_new) = Ok ()
   \<and> map (\<lambda>r. (rc_event r, rc_subject r, rc_decision r, rc_policy_id r, rc_inputs_hash r))
       (ch_receipts (fold (\<lambda>(ev, subj, dec, pol, inp) c. chain_append X c ev subj dec pol inp) es
          receipt_chain_new)) = es"
proof (induction es rule: rev_induct)
  case Nil
  show ?case by simp (simp add: receipt_chain_new_def)
next
  case (snoc e es)
  obtain ev subj dec pol inp where "e = (ev, subj, dec, pol, inp)" by (cases e) auto
  with snoc show ?case
    by (simp add: chain_append_verifies) (simp add: chain_append_def Let_def)
qed

text \<open>C29: Receipts are tamper evident: two receipt chains that verify, have the same length and
  end in the same head hash agree in every hashed field of every receipt, or two receipts at
  the same position of the two chains have different encodings with the same SHA-384. The
  hypotheses are that the JSON and hex encoders are injective.\<close>

theorem receipt_chain_tamper_evident:
  assumes "chain_verify X c = Ok ()" "chain_verify X c' = Ok ()"
    and "length (ch_receipts c) = length (ch_receipts c')" "chain_head_hash c = chain_head_hash c'"
    and "inj (env_receipt_json X)" "inj (ext_hex X)"
  shows "map receipt_content (ch_receipts c) = map receipt_content (ch_receipts c')
       \<or> (\<exists>(r, r') \<in> set (zip (ch_receipts c) (ch_receipts c')).
            env_receipt_json X (receipt_content r) \<noteq> env_receipt_json X (receipt_content r')
            \<and> ext_sha384 X (env_receipt_json X (receipt_content r))
                = ext_sha384 X (env_receipt_json X (receipt_content r')))"
proof -
  have "map receipt_content (ch_receipts c) = map receipt_content (ch_receipts c')
      \<or> hash_collision (receipt_hash X) receipt_content (ch_receipts c) (ch_receipts c')"
    using assms(1-4) unfolding chain_verify_valid chain_head_eq by (rule receipts.tamper_evident)
  moreover have "env_receipt_json X a \<noteq> env_receipt_json X b
      \<and> ext_sha384 X (env_receipt_json X a) = ext_sha384 X (env_receipt_json X b)"
    if "a \<noteq> b" "receipt_hash X a = receipt_hash X b" for a b
    using that assms(5,6) by (auto simp: receipt_hash_def ext_sha384_hex_def dest: injD)
  ultimately show ?thesis unfolding hash_collision_def by fast
qed

lemma receipt_chain_tamper_evident_witness:
  "let c = chain_append sample_env receipt_chain_new ''boot'' ''host'' ''allow'' ''p'' ''h''
   in map receipt_content (ch_receipts c) = map receipt_content (ch_receipts c)
      \<or> (\<exists>(r, r') \<in> set (zip (ch_receipts c) (ch_receipts c)).
           sample_receipt_json (receipt_content r) \<noteq> sample_receipt_json (receipt_content r')
           \<and> sha384 (sample_receipt_json (receipt_content r)) = sha384 (sample_receipt_json (receipt_content r')))"
proof -
  have env: "ext_sha384 sample_env = sha384" "ext_hex sample_env = hex" "env_receipt_json sample_env = sample_receipt_json"
    by (simp_all add: sample_env_def)
  have v: "chain_verify sample_env (chain_append sample_env receipt_chain_new ''boot'' ''host'' ''allow'' ''p'' ''h'') = Ok ()"
    by (intro chain_append_verifies chain_new_verifies)
  have i: "inj (env_receipt_json sample_env)" "inj (ext_hex sample_env)"
    by (simp_all only: env inj_sample_receipt_json inj_hex)
  show ?thesis
    using receipt_chain_tamper_evident [OF v v refl refl i] unfolding Let_def env .
qed

text \<open>The fault of a receipt, given its index and the hash it must link to.\<close>

definition receipt_fault :: "('x) receipt_env_scheme \<Rightarrow> nat \<Rightarrow> string \<Rightarrow> receipt \<Rightarrow> chain_error option" where
  "receipt_fault X i p r =
     (if rc_schema r \<noteq> RECEIPT_SCHEMA then Some (ChainBadSchema i RECEIPT_SCHEMA (rc_schema r))
      else if rc_previous_hash r \<noteq> p then Some (ChainBrokenLink i p (rc_previous_hash r))
      else if rc_hash r \<noteq> recompute_receipt X r
      then Some (ChainHashMismatch i (recompute_receipt X r) (rc_hash r)) else None)"

lemma chain_verify_from_fault:
  "chain_verify_from X i p rs = Err e \<longleftrightarrow>
     (\<exists>k < length rs. chain_verify_from X i p (take k rs) = Ok ()
        \<and> receipt_fault X (i + k) (receipts.head p (take k rs)) (rs ! k) = Some e)"
proof (induction rs arbitrary: i p)
  case (Cons r rs)
  show ?case
  proof (cases "receipt_fault X i p r")
    case None
    then have step: "chain_verify_from X i p (r # us) = chain_verify_from X (Suc i) (rc_hash r) us" for us
      by (auto simp: receipt_fault_def Let_def split: if_splits)
    have "(\<exists>k < length (r # rs). chain_verify_from X i p (take k (r # rs)) = Ok ()
        \<and> receipt_fault X (i + k) (receipts.head p (take k (r # rs))) ((r # rs) ! k) = Some e) \<longleftrightarrow>
      (\<exists>k < length rs. chain_verify_from X (Suc i) (rc_hash r) (take k rs) = Ok ()
        \<and> receipt_fault X (Suc i + k) (receipts.head (rc_hash r) (take k rs)) (rs ! k) = Some e)"
      (is "?L \<longleftrightarrow> ?R")
    proof
      assume ?L
      then obtain k where k: "k < length (r # rs)" "chain_verify_from X i p (take k (r # rs)) = Ok ()"
        "receipt_fault X (i + k) (receipts.head p (take k (r # rs))) ((r # rs) ! k) = Some e" by blast
      with None obtain k' where "k = Suc k'" by (cases k) (auto simp: receipts.head_def)
      with k step show ?R
        by (intro exI [of _ k']) (auto simp: receipts.head_def simp del: chain_verify_from.simps)
    next
      assume ?R
      then obtain k where "k < length rs" "chain_verify_from X (Suc i) (rc_hash r) (take k rs) = Ok ()"
        "receipt_fault X (Suc i + k) (receipts.head (rc_hash r) (take k rs)) (rs ! k) = Some e" by blast
      with step show ?L
        by (intro exI [of _ "Suc k"]) (auto simp: receipts.head_def simp del: chain_verify_from.simps)
    qed
    with step [of rs] Cons.IH show ?thesis by simp
  next
    case (Some f)
    then have f: "chain_verify_from X i p (r # us) = Err f" for us
      by (auto simp: receipt_fault_def Let_def split: if_splits)
    show ?thesis
    proof
      assume "chain_verify_from X i p (r # rs) = Err e"
      with f Some show "\<exists>k < length (r # rs). chain_verify_from X i p (take k (r # rs)) = Ok ()
        \<and> receipt_fault X (i + k) (receipts.head p (take k (r # rs))) ((r # rs) ! k) = Some e"
        by (intro exI [of _ 0]) (simp add: receipts.head_def)
    next
      assume "\<exists>k < length (r # rs). chain_verify_from X i p (take k (r # rs)) = Ok ()
        \<and> receipt_fault X (i + k) (receipts.head p (take k (r # rs))) ((r # rs) ! k) = Some e"
      then obtain k where k: "chain_verify_from X i p (take k (r # rs)) = Ok ()"
        "receipt_fault X (i + k) (receipts.head p (take k (r # rs))) ((r # rs) ! k) = Some e" by blast
      from k(1) f have "k = 0" by (cases k) (auto simp del: chain_verify_from.simps)
      with k(2) Some f show "chain_verify_from X i p (r # rs) = Err e"
        by (simp add: receipts.head_def del: chain_verify_from.simps)
    qed
  qed
qed simp

text \<open>C30: Verification stops at the first fault: it fails at index \<open>i\<close> exactly when the
  receipts before \<open>i\<close> verify and receipt \<open>i\<close> has a wrong schema, a broken link or a wrong
  hash, in that order of precedence; the error names the stored and the expected value.\<close>

theorem chain_verify_first_fault:
  "chain_verify X c = Err e \<longleftrightarrow>
     (\<exists>k. k < length (ch_receipts c)
        \<and> chain_verify X (c\<lparr>ch_receipts := take k (ch_receipts c)\<rparr>) = Ok ()
        \<and> receipt_fault X k (chain_head_hash (c\<lparr>ch_receipts := take k (ch_receipts c)\<rparr>))
            (ch_receipts c ! k) = Some e)"
  by (simp add: chain_verify_def chain_verify_from_fault chain_head_eq)

text \<open>The same for the other two logs, from the shared interface.\<close>

lemma security_log_tamper_evident:
  assumes "log_verify X l = Ok ()" "log_verify X l' = Ok ()"
    and "length (sl_events l) = length (sl_events l')" "log_head_hash l = log_head_hash l'"
  shows "map security_content (sl_events l) = map security_content (sl_events l')
       \<or> hash_collision (security_hash X) security_content (sl_events l) (sl_events l')"
  using assms unfolding log_verify_valid log_head_eq by (rule security.tamper_evident)

lemma legacy_chain_tamper_evident:
  assumes "legacy_verify X c" "legacy_verify X c'" "length c = length c'"
    and "legacy_last_hash c = legacy_last_hash c'"
  shows "map legacy_content c = map legacy_content c'
    \<or> hash_collision (legacy_compute_hash X) legacy_content c c'"
proof -
  have "legacy.head None c = legacy.head None c'"
    using assms(4) by (simp add: legacy_last_hash_def legacy.head_def)
  with assms(1-3) show ?thesis
    unfolding legacy_verify_def legacy_verify_from_valid by (rule legacy.tamper_evident)
qed

text \<open>
  In the older format the second alternative needs no weakness of the digest: fields are
  joined by 0x1f without escaping, so a separator inside a field shifts its neighbours.
\<close>

lemma legacy_encoding_ambiguous:
  "legacy_encoding (legacy_unsigned X ''r'' (''a'' @ [CHR 0x1F] @ ''b'') ''c'' RdAllow None ''i'' None)
   = legacy_encoding (legacy_unsigned X ''r'' ''a'' (''b'' @ [CHR 0x1F] @ ''c'') RdAllow None ''i'' None)"
  by (simp add: legacy_encoding_def legacy_unsigned_def as_bytes_def Let_def)

end
