(* ===== verification/Policy.thy ===== *)
theory Policy
  imports Receipts
begin

text \<open>
  The policy engine of \<open>hyper-policy\<close>: the policy document and its parser, the four
  decisions of the default engine, and the older launch policy of \<open>lib.rs\<close>. Decisions are
  values; a decision that allows carries a receipt whose input hash binds it to the
  request. The JSON codecs (\<open>serde_json\<close>) are fields of the environment.
\<close>

subsection \<open>Unlock modes (\<open>hyper-slate-core\<close>)\<close>

datatype unlock_mode =
    PassphraseOnly | Tpm2PcrPolicy | Tpm2Pin | Fido2HmacSecret | SmartcardPkcs11
  | RemoteAttestedKms | ThresholdRecovery | HybridClassicalPqc

subsection \<open>Policy documents\<close>

definition POLICY_SCHEMA_VERSION :: u32 where "POLICY_SCHEMA_VERSION = 1"

datatype policy_error =
    PolicyJson string
  | PolicyUnsupportedSchema u32 u32
  | PolicyInvalidField string

record storage_policy =
  require_encryption :: bool
  allow_read_write_base_image :: bool

record key_release_policy =
  kr_mode :: string
  require_pcr_match_for_sensitive_vms :: bool

definition parse_unlock_mode :: "key_release_policy \<Rightarrow> unlock_mode option" where
  "parse_unlock_mode k =
     (if kr_mode k = ''passphrase_only'' then Some PassphraseOnly
      else if kr_mode k = ''tpm2_pcr_policy'' then Some Tpm2PcrPolicy
      else if kr_mode k = ''tpm2_pin'' then Some Tpm2Pin
      else if kr_mode k = ''fido2_hmac_secret'' then Some Fido2HmacSecret
      else if kr_mode k = ''smartcard_pkcs11'' then Some SmartcardPkcs11
      else if kr_mode k = ''remote_attested_kms'' then Some RemoteAttestedKms
      else if kr_mode k = ''threshold_recovery'' then Some ThresholdRecovery
      else if kr_mode k = ''hybrid_classical_pqc'' then Some HybridClassicalPqc
      else None)"

record policy_document =
  pd_schema_version :: u32
  pd_policy_id :: string
  pd_minimum_hypervisor_version :: u64
  pd_require_signed_manifest :: bool
  pd_require_measured_boot :: bool
  pd_allow_device_passthrough :: bool
  pd_allow_debug_console :: bool
  pd_network_default :: string
  pd_storage :: storage_policy
  pd_key_release :: key_release_policy

subsection \<open>Requests and decisions\<close>

record vm_launch_request =
  lq_hypervisor_version :: u64
  lq_manifest_signed :: bool
  lq_measured_boot :: bool
  lq_requests_debug_console :: bool

record key_release_request =
  kq_sensitive :: bool
  kq_pcr_match :: bool
  kq_encryption :: bool

record device_assign_request =
  dq_passthrough :: bool
  dq_device :: string

record flow_request =
  fq_direction :: string
  fq_allowed_by_rule :: bool

record policy_receipt =
  pr_rationale :: string
  pr_inputs_hash :: string

datatype deny_reason =
    UnsignedManifest | PassthroughForbidden | StaleHypervisor | DebugForbidden | EgressDenied
  | EncryptionRequired | PcrMismatch | DenyOther string

datatype policy_decision =
    PolicyAllow policy_receipt
  | PolicyDeny deny_reason
  | PolicyRequireApproval string

text \<open>
  \<open>env_policy_parse\<close> is \<open>serde_json::from_str\<close> on a policy document (an error message or
  a document); the others are \<open>serde_json::to_string(req).unwrap_or_default()\<close>.
\<close>

record policy_env = receipt_env +
  env_policy_parse :: "string \<Rightarrow> string + policy_document"
  env_launch_json :: "vm_launch_request \<Rightarrow> string"
  env_key_json :: "key_release_request \<Rightarrow> string"
  env_device_json :: "device_assign_request \<Rightarrow> string"
  env_flow_json :: "flow_request \<Rightarrow> string"

definition policy_parse :: "('x) policy_env_scheme \<Rightarrow> string \<Rightarrow> policy_error + policy_document" where
  "policy_parse X s =
     (case env_policy_parse X s of
        Inl e \<Rightarrow> Err (PolicyJson e)
      | Inr doc \<Rightarrow>
          if pd_schema_version doc \<noteq> POLICY_SCHEMA_VERSION
          then Err (PolicyUnsupportedSchema (pd_schema_version doc) POLICY_SCHEMA_VERSION)
          else if \<not> (pd_network_default doc = ''deny'' \<or> pd_network_default doc = ''allow'')
          then Err (PolicyInvalidField (''network_default must be '' @ debug_str ''deny'' @ '' or ''
                 @ debug_str ''allow'' @ '', got '' @ debug_str (pd_network_default doc)))
          else if parse_unlock_mode (pd_key_release doc) = None
          then Err (PolicyInvalidField (''key_release.mode unrecognized: ''
                 @ debug_str (kr_mode (pd_key_release doc))))
          else Ok doc)"

subsection \<open>The default engine\<close>

definition policy_inputs_hash ::
  "('x) policy_env_scheme \<Rightarrow> policy_document \<Rightarrow> string \<Rightarrow> string \<Rightarrow> string" where
  "policy_inputs_hash X doc kind body =
     ext_sha384_hex X (as_bytes (pd_policy_id doc @ ''|'' @ kind @ ''|'' @ body))"

definition policy_allow ::
  "('x) policy_env_scheme \<Rightarrow> policy_document \<Rightarrow> string \<Rightarrow> string \<Rightarrow> string \<Rightarrow> policy_decision" where
  "policy_allow X doc kind body rationale =
     PolicyAllow \<lparr>pr_rationale = rationale, pr_inputs_hash = policy_inputs_hash X doc kind body\<rparr>"

definition evaluate_vm_launch ::
  "('x) policy_env_scheme \<Rightarrow> policy_document \<Rightarrow> vm_launch_request \<Rightarrow> policy_decision" where
  "evaluate_vm_launch X doc req =
     (if lq_hypervisor_version req < pd_minimum_hypervisor_version doc
      then PolicyDeny StaleHypervisor
      else if pd_require_signed_manifest doc \<and> \<not> lq_manifest_signed req
      then PolicyDeny UnsignedManifest
      else if pd_require_measured_boot doc \<and> \<not> lq_measured_boot req
      then PolicyDeny (DenyOther ''measured boot required'')
      else if lq_requests_debug_console req \<and> \<not> pd_allow_debug_console doc
      then PolicyDeny DebugForbidden
      else policy_allow X doc ''vm_launch'' (env_launch_json X req)
             ''launch satisfies all launch gates'')"

definition evaluate_key_release ::
  "('x) policy_env_scheme \<Rightarrow> policy_document \<Rightarrow> key_release_request \<Rightarrow> policy_decision" where
  "evaluate_key_release X doc req =
     (if require_encryption (pd_storage doc) \<and> \<not> kq_encryption req
      then PolicyDeny EncryptionRequired
      else if kq_sensitive req \<and> require_pcr_match_for_sensitive_vms (pd_key_release doc)
              \<and> \<not> kq_pcr_match req
      then PolicyRequireApproval
             (''pcr-approval:'' @ policy_inputs_hash X doc ''key_release'' (env_key_json X req))
      else policy_allow X doc ''key_release'' (env_key_json X req)
             ''key release satisfies storage and pcr gates'')"

definition evaluate_device_assignment ::
  "('x) policy_env_scheme \<Rightarrow> policy_document \<Rightarrow> device_assign_request \<Rightarrow> policy_decision" where
  "evaluate_device_assignment X doc req =
     (if dq_passthrough req \<and> \<not> pd_allow_device_passthrough doc
      then PolicyDeny PassthroughForbidden
      else policy_allow X doc ''device_assign'' (env_device_json X req)
             ''device assignment permitted by policy'')"

definition evaluate_network_flow ::
  "('x) policy_env_scheme \<Rightarrow> policy_document \<Rightarrow> flow_request \<Rightarrow> policy_decision" where
  "evaluate_network_flow X doc req =
     (let permitted = fq_allowed_by_rule req \<or> pd_network_default doc = ''allow'' in
      if permitted
      then policy_allow X doc ''network_flow'' (env_flow_json X req)
             ''flow matched an allow rule or posture''
      else let reason = (if fq_direction req = ''egress'' then EgressDenied
                         else DenyOther (fq_direction req @ '' flow not matched by rule''))
           in PolicyDeny reason)"

text \<open>The trait \<open>PolicyEngine\<close>, with the default engine as its implementation.\<close>

record policy_engine =
  pe_vm_launch :: "vm_launch_request \<Rightarrow> policy_decision"
  pe_key_release :: "key_release_request \<Rightarrow> policy_decision"
  pe_device_assignment :: "device_assign_request \<Rightarrow> policy_decision"
  pe_network_flow :: "flow_request \<Rightarrow> policy_decision"

definition default_policy_engine :: "('x) policy_env_scheme \<Rightarrow> policy_document \<Rightarrow> policy_engine" where
  "default_policy_engine X doc =
     \<lparr>pe_vm_launch = evaluate_vm_launch X doc, pe_key_release = evaluate_key_release X doc,
      pe_device_assignment = evaluate_device_assignment X doc,
      pe_network_flow = evaluate_network_flow X doc\<rparr>"

subsection \<open>The older launch policy\<close>

datatype network_default = NetDeny | NetIsolated | NetHostOnly | NetNat | NetBridge

datatype legacy_deny_reason =
    MissingMeasurement | SignatureInvalid | RollbackDetected | HypervisorTooOldL
  | DevicePassthroughDenied | DebugConsoleDenied | NetworkDenied | StorageUnlockDenied
  | UnknownVmExit | HostInvariantFailed | UnsupportedAlgorithm | OtherL string

record approval_challenge =
  ac_challenge_id :: string
  ac_reason :: legacy_deny_reason
  ac_subject :: string

datatype legacy_policy_decision =
    LegacyAllow legacy_receipt
  | LegacyDeny legacy_deny_reason
  | LegacyRequireApproval approval_challenge

definition legacy_is_allow :: "legacy_policy_decision \<Rightarrow> bool" where
  "legacy_is_allow d = (case d of LegacyAllow _ \<Rightarrow> True | _ \<Rightarrow> False)"

record vm_launch_policy =
  vlp_schema_version :: u32
  vlp_policy_id :: string
  vlp_minimum_hypervisor_version :: u64
  vlp_require_signed_manifest :: bool
  vlp_require_measured_boot :: bool
  vlp_allow_device_passthrough :: bool
  vlp_allow_debug_console :: bool
  vlp_network_default :: network_default

definition lab_default :: vm_launch_policy where
  "lab_default = \<lparr>vlp_schema_version = POLICY_SCHEMA_VERSION,
     vlp_policy_id = ''pn52-lab-default-v1'', vlp_minimum_hypervisor_version = 1,
     vlp_require_signed_manifest = True, vlp_require_measured_boot = False,
     vlp_allow_device_passthrough = False, vlp_allow_debug_console = True,
     vlp_network_default = NetDeny\<rparr>"

definition secure_default :: vm_launch_policy where
  "secure_default = \<lparr>vlp_schema_version = POLICY_SCHEMA_VERSION,
     vlp_policy_id = ''pn52-secure-default-v1'', vlp_minimum_hypervisor_version = 1,
     vlp_require_signed_manifest = True, vlp_require_measured_boot = True,
     vlp_allow_device_passthrough = False, vlp_allow_debug_console = False,
     vlp_network_default = NetDeny\<rparr>"

record legacy_launch_request =
  llq_vm_id :: string
  llq_manifest_verified :: bool
  llq_capsule_hash :: string
  llq_hypervisor_version :: u64
  llq_boot_measurements_present :: bool
  llq_requests_device_passthrough :: bool
  llq_requests_debug_console :: bool
  llq_previous_receipt_hash :: "string option"

definition legacy_evaluate_vm_launch ::
  "('x) extern_scheme \<Rightarrow> vm_launch_policy \<Rightarrow> legacy_launch_request \<Rightarrow> legacy_policy_decision" where
  "legacy_evaluate_vm_launch X p req =
     (if llq_hypervisor_version req < vlp_minimum_hypervisor_version p
      then LegacyDeny HypervisorTooOldL
      else if vlp_require_signed_manifest p \<and> \<not> llq_manifest_verified req
      then LegacyDeny SignatureInvalid
      else if vlp_require_measured_boot p \<and> \<not> llq_boot_measurements_present req
      then LegacyDeny MissingMeasurement
      else if llq_requests_device_passthrough req \<and> \<not> vlp_allow_device_passthrough p
      then LegacyDeny DevicePassthroughDenied
      else if llq_requests_debug_console req \<and> \<not> vlp_allow_debug_console p
      then LegacyDeny DebugConsoleDenied
      else let receipt = legacy_unsigned X
                 (''policy:'' @ vlp_policy_id p @ '':'' @ llq_vm_id req) ''vm_launch_policy''
                 (''vm:'' @ llq_vm_id req) RdAllow (Some (vlp_policy_id p))
                 (llq_capsule_hash req) (llq_previous_receipt_hash req)
           in LegacyAllow receipt)"

subsection \<open>What a decision means\<close>

definition is_allow :: "policy_decision \<Rightarrow> bool" where
  "is_allow d = (case d of PolicyAllow _ \<Rightarrow> True | _ \<Rightarrow> False)"

lemma is_allow_simps [simp]:
  "is_allow (PolicyAllow r)" "\<not> is_allow (PolicyDeny d)" "\<not> is_allow (PolicyRequireApproval c)"
  "is_allow (policy_allow X doc kind body rat)"
  by (simp_all add: is_allow_def policy_allow_def)

lemma launch_allow_iff:
  "is_allow (evaluate_vm_launch X doc lq) =
     (pd_minimum_hypervisor_version doc \<le> lq_hypervisor_version lq
      \<and> (if pd_require_signed_manifest doc then lq_manifest_signed lq else True)
      \<and> (if pd_require_measured_boot doc then lq_measured_boot lq else True)
      \<and> (if lq_requests_debug_console lq then pd_allow_debug_console doc else True))"
  by (simp add: evaluate_vm_launch_def flip: not_less)

lemma key_release_allow_iff:
  "is_allow (evaluate_key_release X doc kq) =
     ((if require_encryption (pd_storage doc) then kq_encryption kq else True)
      \<and> (if kq_sensitive kq \<and> require_pcr_match_for_sensitive_vms (pd_key_release doc)
         then kq_pcr_match kq else True))"
  by (simp add: evaluate_key_release_def)

lemma key_release_escalates_iff:
  "(\<exists>c. evaluate_key_release X doc kq = PolicyRequireApproval c) =
     ((if require_encryption (pd_storage doc) then kq_encryption kq else True)
      \<and> kq_sensitive kq \<and> require_pcr_match_for_sensitive_vms (pd_key_release doc)
      \<and> \<not> kq_pcr_match kq)"
  by (simp add: evaluate_key_release_def policy_allow_def)

lemma device_allow_iff:
  "is_allow (evaluate_device_assignment X doc dq) =
     (if dq_passthrough dq then pd_allow_device_passthrough doc else True)"
  by (simp add: evaluate_device_assignment_def)

lemma flow_allow_iff:
  "is_allow (evaluate_network_flow X doc fq) =
     (fq_allowed_by_rule fq \<or> pd_network_default doc = ''allow'')"
  by (simp add: evaluate_network_flow_def Let_def)

text \<open>C31: The default engine allows exactly what the document permits: a launch iff the
  hypervisor is recent enough and every required signature, measurement and console
  permission is there; a key release iff encryption is on where required and a sensitive
  VM matches its PCRs where required; a device iff passthrough is permitted or not asked
  for; a flow iff a rule matched or the posture is allow. A sensitive key release that only
  lacks the PCR match is escalated, never denied or allowed.\<close>

theorem default_engine_exact:
  "is_allow (pe_vm_launch (default_policy_engine X doc) lq) =
     (pd_minimum_hypervisor_version doc \<le> lq_hypervisor_version lq
      \<and> (if pd_require_signed_manifest doc then lq_manifest_signed lq else True)
      \<and> (if pd_require_measured_boot doc then lq_measured_boot lq else True)
      \<and> (if lq_requests_debug_console lq then pd_allow_debug_console doc else True))
   \<and> is_allow (pe_key_release (default_policy_engine X doc) kq) =
     ((if require_encryption (pd_storage doc) then kq_encryption kq else True)
      \<and> (if kq_sensitive kq \<and> require_pcr_match_for_sensitive_vms (pd_key_release doc)
         then kq_pcr_match kq else True))
   \<and> is_allow (pe_device_assignment (default_policy_engine X doc) dq) =
     (if dq_passthrough dq then pd_allow_device_passthrough doc else True)
   \<and> is_allow (pe_network_flow (default_policy_engine X doc) fq) =
     (fq_allowed_by_rule fq \<or> pd_network_default doc = ''allow'')
   \<and> (\<exists>c. pe_key_release (default_policy_engine X doc) kq = PolicyRequireApproval c) =
     ((if require_encryption (pd_storage doc) then kq_encryption kq else True)
      \<and> kq_sensitive kq \<and> require_pcr_match_for_sensitive_vms (pd_key_release doc)
      \<and> \<not> kq_pcr_match kq)"
  by (intro conjI)
     (simp_all only: default_policy_engine_def policy_engine.simps launch_allow_iff
        key_release_allow_iff device_allow_iff flow_allow_iff key_release_escalates_iff)

text \<open>A parsed policy document is well formed: parsing succeeds exactly when the JSON
  decodes, the schema is the supported one, the posture is deny or allow and the key release
  mode is a known unlock mode, and then returns the decoded document unchanged.\<close>

lemma policy_parse_exact:
  "policy_parse X s = Ok doc \<longleftrightarrow>
     env_policy_parse X s = Ok doc \<and> pd_schema_version doc = 1
     \<and> pd_network_default doc \<in> {''deny'', ''allow''}
     \<and> (\<exists>m. parse_unlock_mode (pd_key_release doc) = Some m)"
  by (auto simp: policy_parse_def POLICY_SCHEMA_VERSION_def split: sum.splits if_splits)

lemma legacy_launch_exact:
  "legacy_is_allow (legacy_evaluate_vm_launch X p req) =
     (vlp_minimum_hypervisor_version p \<le> llq_hypervisor_version req
      \<and> (vlp_require_signed_manifest p \<longrightarrow> llq_manifest_verified req)
      \<and> (vlp_require_measured_boot p \<longrightarrow> llq_boot_measurements_present req)
      \<and> (llq_requests_device_passthrough req \<longrightarrow> vlp_allow_device_passthrough p)
      \<and> (llq_requests_debug_console req \<longrightarrow> vlp_allow_debug_console p))"
  by (auto simp: legacy_evaluate_vm_launch_def legacy_is_allow_def Let_def)

text \<open>The receipt of an allowed launch fits the chain it names.\<close>

lemma legacy_launch_receipt_pushes:
  assumes "legacy_evaluate_vm_launch X p req = LegacyAllow r"
    and "llq_previous_receipt_hash req = legacy_last_hash c"
  shows "legacy_push X c r = (c @ [r], True)"
proof -
  have "lr_previous_hash r = llq_previous_receipt_hash req" "legacy_verify_hash X r"
    using assms(1)
    by (auto simp: legacy_evaluate_vm_launch_def Let_def legacy_unsigned_def legacy_verify_hash_def
        legacy_compute_hash_def legacy_encoding_def split: if_splits)
  with assms(2) show ?thesis by (simp add: legacy_push_def)
qed

end
