(* ===== verification/Capsule.thy ===== *)
theory Capsule
  imports Policy
begin

text \<open>
  The capsule manifests of \<open>hyper-capsule\<close>: parsing, signature verification by an
  arbitrary verifier and by the allowlist verifier, the policy floors, and the launch gate;
  and the older one-step verification of \<open>lib.rs\<close>. \<open>VerifiedManifest\<close> and
  \<open>LaunchApproval\<close> have private fields and no constructor in the code: here the values of
  these records that count are the results of \<open>capsule_verify\<close> and \<open>check_launch\<close>.
\<close>

definition CAPSULE_SCHEMA :: string where "CAPSULE_SCHEMA = ''chain.vm_capsule.v1''"

definition ALLOWED_ALGS :: "string list" where
  "ALLOWED_ALGS = [''ecdsa-p384'', ''ed25519'', ''ml-dsa-65'']"

subsection \<open>Manifests\<close>

record capsule_devices =
  cd_passthrough :: "string list"
  cd_virtio :: "string list"

record capsule_memory =
  cm_max_mb :: u64
  cm_allow_balloon :: bool

record capsule_cpu =
  cc_vcpus :: u32
  cc_cpuid_profile :: string

record capsule_network =
  cw_mode :: string
  cw_egress_policy :: string

record capsule_storage =
  cs_cipher :: string
  cs_integrity :: string
  cs_key_version :: u64

record capsule_signature =
  sg_alg :: string
  sg_key_id :: string
  sg_status :: "string option"

record untrusted_manifest =
  um_schema :: string
  um_vm_id :: string
  um_tenant_id :: string
  um_image_hash :: string
  um_disk_hash :: string
  um_hypervisor_min_version :: u64
  um_boot_policy_version :: u64
  um_devices :: capsule_devices
  um_memory :: capsule_memory
  um_cpu :: capsule_cpu
  um_network :: capsule_network
  um_storage :: capsule_storage
  um_signatures :: "capsule_signature list"

datatype signature_status = SigUnverified | SigValid | SigInvalid
datatype policy_status = PolUnchecked | PolPass | PolFail

datatype capsule_error =
    CapJson string
  | CapSchema string string
  | CapNoSignatures
  | CapSignatureNotValid signature_status
  | CapHypervisorTooOld u64 u64
  | CapBootPolicyRollback u64 u64

datatype gate_error =
    GateSignatureNotValid signature_status
  | GatePolicyNotPassing policy_status
  | GateImageHashMismatch string string
  | GateHypervisorTooOld u64 u64
  | GateBootPolicyRollback u64 u64
  | GateKeyUnwrapNotAuthorized
  | GateDevicePolicyDenied
  | GateMemoryOverBudget u64 u64
  | GateDebugOverride

text \<open>\<open>env_capsule_parse\<close> is \<open>serde_json::from_str\<close> on a manifest.\<close>

record capsule_env = policy_env +
  env_capsule_parse :: "string \<Rightarrow> string + untrusted_manifest"

definition parse_manifest :: "('x) capsule_env_scheme \<Rightarrow> string \<Rightarrow> capsule_error + untrusted_manifest" where
  "parse_manifest X s =
     (case env_capsule_parse X s of
        Inl e \<Rightarrow> Err (CapJson e)
      | Inr m \<Rightarrow> if um_schema m \<noteq> CAPSULE_SCHEMA then Err (CapSchema CAPSULE_SCHEMA (um_schema m))
                 else Ok m)"

subsection \<open>Verification\<close>

text \<open>The trait \<open>SignatureVerifier\<close> is a function of the manifest.\<close>

type_synonym signature_verifier = "untrusted_manifest \<Rightarrow> signature_status"

definition allowlist_verify :: "string list \<Rightarrow> signature_verifier" where
  "allowlist_verify allowed_key_ids m =
     (if um_signatures m = [] then SigInvalid
      else if list_ex (\<lambda>s. sg_alg s \<in> set ALLOWED_ALGS
                         \<and> list_ex (\<lambda>k. k = sg_key_id s) allowed_key_ids) (um_signatures m)
      then SigValid else SigInvalid)"

record verified_manifest =
  vm_inner :: untrusted_manifest
  vm_signature_status :: signature_status
  vm_policy_status :: policy_status

definition capsule_verify ::
  "untrusted_manifest \<Rightarrow> signature_verifier \<Rightarrow> u64 \<Rightarrow> u64 \<Rightarrow> capsule_error + verified_manifest" where
  "capsule_verify m v min_hypervisor_version tenant_min_boot_policy =
     (if um_signatures m = [] then Err CapNoSignatures
      else let status = v m in
        if status \<noteq> SigValid then Err (CapSignatureNotValid status)
        else if min_hypervisor_version < um_hypervisor_min_version m
        then Err (CapHypervisorTooOld min_hypervisor_version (um_hypervisor_min_version m))
        else if um_boot_policy_version m < tenant_min_boot_policy
        then Err (CapBootPolicyRollback (um_boot_policy_version m) tenant_min_boot_policy)
        else Ok \<lparr>vm_inner = m, vm_signature_status = status, vm_policy_status = PolPass\<rparr>)"

subsection \<open>The launch gate\<close>

record launch_context =
  lc_hypervisor_version :: u64
  lc_tenant_min_boot_policy :: u64
  lc_expected_image_hash :: string
  lc_key_unwrap_authorized :: bool
  lc_device_policy_ok :: bool
  lc_memory_budget_mb :: u64
  lc_debug_override :: bool

record launch_approval =
  la_vm_id :: string
  la_image_hash :: string

definition check_launch :: "verified_manifest \<Rightarrow> launch_context \<Rightarrow> gate_error + launch_approval" where
  "check_launch vm ctx =
     (if lc_debug_override ctx then Err GateDebugOverride
      else if vm_signature_status vm \<noteq> SigValid
      then Err (GateSignatureNotValid (vm_signature_status vm))
      else if vm_policy_status vm \<noteq> PolPass
      then Err (GatePolicyNotPassing (vm_policy_status vm))
      else let m = vm_inner vm in
        if um_image_hash m \<noteq> lc_expected_image_hash ctx
        then Err (GateImageHashMismatch (lc_expected_image_hash ctx) (um_image_hash m))
        else if lc_hypervisor_version ctx < um_hypervisor_min_version m
        then Err (GateHypervisorTooOld (lc_hypervisor_version ctx) (um_hypervisor_min_version m))
        else if um_boot_policy_version m < lc_tenant_min_boot_policy ctx
        then Err (GateBootPolicyRollback (um_boot_policy_version m) (lc_tenant_min_boot_policy ctx))
        else if \<not> lc_key_unwrap_authorized ctx then Err GateKeyUnwrapNotAuthorized
        else if \<not> lc_device_policy_ok ctx then Err GateDevicePolicyDenied
        else if lc_memory_budget_mb ctx < cm_max_mb (um_memory m)
        then Err (GateMemoryOverBudget (cm_max_mb (um_memory m)) (lc_memory_budget_mb ctx))
        else Ok \<lparr>la_vm_id = um_vm_id m, la_image_hash = um_image_hash m\<rparr>)"

subsection \<open>The older manifest\<close>

datatype legacy_sig_status = SigActive | SigTransition | SigRevoked

record legacy_manifest_signature =
  lms_alg :: string
  lms_key_id :: string
  lms_status :: legacy_sig_status

record legacy_cpu_spec =
  lcp_vcpus :: u16
  lcp_cpuid_profile :: string

record legacy_storage_spec =
  lsp_cipher :: string
  lsp_integrity :: string
  lsp_key_version :: u32

record legacy_manifest =
  lm_schema :: string
  lm_capsule_id :: string
  lm_vm_id :: string
  lm_image_hash :: string
  lm_disk_hash :: string
  lm_hypervisor_min_version :: u64
  lm_boot_policy_version :: u64
  lm_devices :: capsule_devices
  lm_memory :: capsule_memory
  lm_cpu :: legacy_cpu_spec
  lm_network :: capsule_network
  lm_storage :: legacy_storage_spec
  lm_signatures :: "legacy_manifest_signature list"

record legacy_verified_manifest =
  lv_inner :: legacy_manifest
  lv_receipt :: legacy_receipt

record legacy_verification_request =
  lvr_computed_capsule_hash :: string
  lvr_expected_capsule_hash :: string
  lvr_hypervisor_version :: u64
  lvr_allow_transition_signatures :: bool
  lvr_allow_passthrough :: bool
  lvr_previous_receipt_hash :: "string option"

datatype legacy_capsule_error =
    LcSchemaMismatch | LcHashMismatch | LcMissingSignature | LcRevokedSignature
  | LcTransitionSignatureNotAllowed | LcHypervisorTooOld | LcPassthroughDenied

definition legacy_capsule_verify ::
  "('x) extern_scheme \<Rightarrow> legacy_manifest \<Rightarrow> legacy_verification_request
     \<Rightarrow> legacy_capsule_error + legacy_verified_manifest" where
  "legacy_capsule_verify X m req =
     (if lm_schema m \<noteq> CAPSULE_SCHEMA then Err LcSchemaMismatch
      else if lvr_computed_capsule_hash req \<noteq> lvr_expected_capsule_hash req then Err LcHashMismatch
      else if lm_signatures m = [] then Err LcMissingSignature
      else if list_ex (\<lambda>s. lms_status s = SigRevoked) (lm_signatures m) then Err LcRevokedSignature
      else if \<not> lvr_allow_transition_signatures req
              \<and> list_ex (\<lambda>s. lms_status s = SigTransition) (lm_signatures m)
      then Err LcTransitionSignatureNotAllowed
      else if lvr_hypervisor_version req < lm_hypervisor_min_version m then Err LcHypervisorTooOld
      else if \<not> lvr_allow_passthrough req \<and> cd_passthrough (lm_devices m) \<noteq> []
      then Err LcPassthroughDenied
      else let receipt = legacy_unsigned X (''capsule-verify:'' @ lm_capsule_id m)
                 ''manifest_verify'' (''vm:'' @ lm_vm_id m) RdAllow None
                 (lvr_computed_capsule_hash req) (lvr_previous_receipt_hash req)
           in Ok \<lparr>lv_inner = m, lv_receipt = receipt\<rparr>)"

subsection \<open>Exactness of the two gates\<close>

lemma capsule_verify_Ok_iff [guards]:
  "capsule_verify m v hv bp = Ok w \<longleftrightarrow>
     um_signatures m \<noteq> [] \<and> v m = SigValid \<and> um_hypervisor_min_version m \<le> hv
     \<and> bp \<le> um_boot_policy_version m
     \<and> w = \<lparr>vm_inner = m, vm_signature_status = SigValid, vm_policy_status = PolPass\<rparr>"
  by (auto simp: capsule_verify_def Let_def not_less)

lemma check_launch_Ok_iff [guards]:
  "check_launch vm ctx = Ok a \<longleftrightarrow>
     \<not> lc_debug_override ctx \<and> vm_signature_status vm = SigValid \<and> vm_policy_status vm = PolPass
     \<and> um_image_hash (vm_inner vm) = lc_expected_image_hash ctx
     \<and> um_hypervisor_min_version (vm_inner vm) \<le> lc_hypervisor_version ctx
     \<and> lc_tenant_min_boot_policy ctx \<le> um_boot_policy_version (vm_inner vm)
     \<and> lc_key_unwrap_authorized ctx \<and> lc_device_policy_ok ctx
     \<and> cm_max_mb (um_memory (vm_inner vm)) \<le> lc_memory_budget_mb ctx
     \<and> a = \<lparr>la_vm_id = um_vm_id (vm_inner vm), la_image_hash = um_image_hash (vm_inner vm)\<rparr>"
  by (auto simp: check_launch_def Let_def not_less)

text \<open>
  \<open>verified_by\<close> is what the private fields of \<open>VerifiedManifest\<close> guarantee: the value came
  out of \<open>verify\<close>, for some verifier and floors.
\<close>

definition verified_by :: "signature_verifier \<Rightarrow> u64 \<Rightarrow> u64 \<Rightarrow> verified_manifest \<Rightarrow> bool" where
  "verified_by v hv bp w \<longleftrightarrow> (\<exists>m. capsule_verify m v hv bp = Ok w)"

lemma allowlist_valid_iff:
  "allowlist_verify ks m = SigValid \<longleftrightarrow>
     (\<exists>s \<in> set (um_signatures m). sg_alg s \<in> set ALLOWED_ALGS \<and> sg_key_id s \<in> set ks)"
  by (auto simp: allowlist_verify_def list_ex_iff)

subsection \<open>Properties\<close>

text \<open>C32: The road from a text to a launch approval, end to end: an approval for a parsed and
  verified manifest exists exactly when the JSON decodes to a manifest of the supported
  schema, some signature names an allow-listed key with an accepted algorithm, both
  hypervisor versions and both boot policy floors are met, the image is the expected one, key
  unwrap and devices are authorised, the memory fits the budget and no debug override is
  asked for; it then names that manifest's VM and image.\<close>

theorem launch_approval_exact:
  "(\<exists>m w. parse_manifest X s = Ok m \<and> capsule_verify m (allowlist_verify ks) hv bp = Ok w
        \<and> check_launch w ctx = Ok a)
   \<longleftrightarrow>
   (\<exists>m. env_capsule_parse X s = Ok m \<and> um_schema m = CAPSULE_SCHEMA
        \<and> (\<exists>sg. sg \<in> set (um_signatures m) \<and> sg_alg sg \<in> set ALLOWED_ALGS \<and> sg_key_id sg \<in> set ks)
        \<and> um_hypervisor_min_version m \<le> hv \<and> um_hypervisor_min_version m \<le> lc_hypervisor_version ctx
        \<and> bp \<le> um_boot_policy_version m \<and> lc_tenant_min_boot_policy ctx \<le> um_boot_policy_version m
        \<and> um_image_hash m = lc_expected_image_hash ctx
        \<and> lc_key_unwrap_authorized ctx \<and> lc_device_policy_ok ctx
        \<and> cm_max_mb (um_memory m) \<le> lc_memory_budget_mb ctx \<and> \<not> lc_debug_override ctx
        \<and> a = \<lparr>la_vm_id = um_vm_id m, la_image_hash = um_image_hash m\<rparr>)"
proof -
  have parse: "parse_manifest X s = Ok m \<longleftrightarrow> env_capsule_parse X s = Ok m \<and> um_schema m = CAPSULE_SCHEMA" for m
    by (auto simp: parse_manifest_def split: sum.splits)
  show ?thesis
    unfolding parse capsule_verify_Ok_iff check_launch_Ok_iff allowlist_valid_iff by fastforce
qed

text \<open>No unverified manifest can be launched, whatever the verifier: a manifest that came
  out of verification was accepted by the verifier and met both floors, and the launch gate
  never reports a signature or policy failure for it.\<close>

theorem launch_needs_verification:
  assumes "verified_by v hv bp w"
  shows "v (vm_inner w) = SigValid \<and> um_signatures (vm_inner w) \<noteq> []
       \<and> um_hypervisor_min_version (vm_inner w) \<le> hv \<and> bp \<le> um_boot_policy_version (vm_inner w)
       \<and> check_launch w ctx \<noteq> Err (GateSignatureNotValid st)
       \<and> check_launch w ctx \<noteq> Err (GatePolicyNotPassing ps)"
  using assms by (auto simp: verified_by_def capsule_verify_Ok_iff check_launch_def Let_def)

definition sample_manifest :: untrusted_manifest where
  "sample_manifest = \<lparr>um_schema = CAPSULE_SCHEMA, um_vm_id = ''vm-1'', um_tenant_id = ''t'',
     um_image_hash = ''img'', um_disk_hash = ''disk'', um_hypervisor_min_version = 2,
     um_boot_policy_version = 5, um_devices = \<lparr>cd_passthrough = [], cd_virtio = []\<rparr>,
     um_memory = \<lparr>cm_max_mb = 512, cm_allow_balloon = False\<rparr>,
     um_cpu = \<lparr>cc_vcpus = 1, cc_cpuid_profile = ''p''\<rparr>,
     um_network = \<lparr>cw_mode = ''isolated'', cw_egress_policy = ''none''\<rparr>,
     um_storage = \<lparr>cs_cipher = ''c'', cs_integrity = ''i'', cs_key_version = 1\<rparr>,
     um_signatures = [\<lparr>sg_alg = ''ed25519'', sg_key_id = ''k1'', sg_status = None\<rparr>]\<rparr>"

definition sample_verified :: verified_manifest where
  "sample_verified = \<lparr>vm_inner = sample_manifest, vm_signature_status = SigValid,
                      vm_policy_status = PolPass\<rparr>"

lemma sample_verified_by: "verified_by (allowlist_verify [''k1'']) 3 4 sample_verified"
  by (auto simp: verified_by_def capsule_verify_Ok_iff sample_verified_def sample_manifest_def
      allowlist_verify_def ALLOWED_ALGS_def)

lemma launch_needs_verification_witness:
  "allowlist_verify [''k1''] (vm_inner sample_verified) = SigValid
   \<and> um_hypervisor_min_version (vm_inner sample_verified) \<le> 3"
  using launch_needs_verification [OF sample_verified_by] by blast

lemma legacy_capsule_verify_exact:
  "is_ok (legacy_capsule_verify X m req) \<longleftrightarrow>
     lm_schema m = CAPSULE_SCHEMA \<and> lvr_computed_capsule_hash req = lvr_expected_capsule_hash req
     \<and> lm_signatures m \<noteq> [] \<and> (\<forall>s \<in> set (lm_signatures m). lms_status s \<noteq> SigRevoked)
     \<and> (lvr_allow_transition_signatures req
         \<or> (\<forall>s \<in> set (lm_signatures m). lms_status s \<noteq> SigTransition))
     \<and> lm_hypervisor_min_version m \<le> lvr_hypervisor_version req
     \<and> (lvr_allow_passthrough req \<or> cd_passthrough (lm_devices m) = [])"
  by (simp add: legacy_capsule_verify_def Let_def list_ex_iff flip: not_less)

end
