(* ===== verification/Attest.thy ===== *)
theory Attest
  imports Capsule
begin

text \<open>
  Attested key release of \<open>hyper-attest\<close>: PCR banks, boot measurements, the zeroizing secret
  handle, and the key management simulator with its receipts and its evidence.
\<close>

subsection \<open>PCR banks\<close>

definition PCR0 :: u8 where "PCR0 = 0"
definition PCR7 :: u8 where "PCR7 = 7"
definition PCR11 :: u8 where "PCR11 = 11"

type_synonym pcr_bank = "(u8, string) btree_map"

definition pcr_set :: "pcr_bank \<Rightarrow> u8 \<Rightarrow> string \<Rightarrow> pcr_bank" where
  "pcr_set b pcr digest = bt_insert pcr digest b"

definition pcr_get :: "pcr_bank \<Rightarrow> u8 \<Rightarrow> string option" where
  "pcr_get b pcr = bt_get b pcr"

text \<open>The loop over the expected registers in ascending order.\<close>

fun first_mismatch :: "pcr_bank \<Rightarrow> pcr_bank \<Rightarrow> u8 option" where
  "first_mismatch b [] = None"
| "first_mismatch b ((pcr, want) # rest) =
     (if bt_get b pcr \<noteq> Some want then Some pcr else first_mismatch b rest)"

definition pcr_satisfies :: "pcr_bank \<Rightarrow> pcr_bank \<Rightarrow> bool" where
  "pcr_satisfies b expected \<longleftrightarrow> first_mismatch b expected = None"

record boot_measurement =
  bm_uefi_app_hash :: string
  bm_kernel_hash :: string
  bm_boot_policy_hash :: string
  bm_capsule_manifest_hash :: string
  bm_pcrs :: pcr_bank

subsection \<open>Secrets\<close>

record secret_handle =
  sh_bytes :: "byte list"

definition secret_new :: "byte list \<Rightarrow> secret_handle" where
  "secret_new bs = \<lparr>sh_bytes = bs\<rparr>"

definition secret_len :: "secret_handle \<Rightarrow> nat" where
  "secret_len s = length (sh_bytes s)"

definition secret_zeroize :: "secret_handle \<Rightarrow> secret_handle" where
  "secret_zeroize s = s\<lparr>sh_bytes := map (\<lambda>b. 0) (sh_bytes s)\<rparr>"

text \<open>\<open>Drop\<close> runs the same loop before the buffer is freed.\<close>

definition secret_drop :: "secret_handle \<Rightarrow> secret_handle" where
  "secret_drop s = secret_zeroize s"

lemma zeroize_all_zero: "set (sh_bytes (secret_zeroize s)) \<subseteq> {0} \<and> secret_len (secret_zeroize s) = secret_len s"
  by (auto simp: secret_zeroize_def secret_len_def)

lemma zeroize_idempotent: "secret_zeroize (secret_zeroize s) = secret_zeroize s"
  by (simp add: secret_zeroize_def)

subsection \<open>Requests, policy, decisions\<close>

definition KMS_POLICY_ID :: string where "KMS_POLICY_ID = ''pol-kms-attested-unlock''"

definition ATTESTED_UNLOCK_FORMAT :: string where
  "ATTESTED_UNLOCK_FORMAT = ''attested-hybrid-unlock-v1''"

record suite_binding =
  sb_classical :: string
  sb_pqc :: string
  sb_combiner :: string

definition transition_768 :: suite_binding where
  "transition_768 = \<lparr>sb_classical = ''x25519'', sb_pqc = ''ml-kem-768'', sb_combiner = ''hkdf-sha384''\<rparr>"

definition high_assurance_1024 :: suite_binding where
  "high_assurance_1024 = \<lparr>sb_classical = ''x25519'', sb_pqc = ''ml-kem-1024'', sb_combiner = ''hkdf-sha384''\<rparr>"

definition suite_canonical :: "suite_binding \<Rightarrow> string" where
  "suite_canonical s = sb_classical s @ ''+'' @ sb_pqc s @ ''+'' @ sb_combiner s"

record kms_request =
  kms_request_type :: string
  kms_device_id :: string
  kms_vm_id :: string
  kms_capsule_hash :: string
  kms_boot_policy_hash :: string
  kms_pcrs :: pcr_bank
  kms_hypervisor_version :: u64
  kms_nonce :: string

definition attested_unlock ::
  "string \<Rightarrow> string \<Rightarrow> string \<Rightarrow> string \<Rightarrow> string \<Rightarrow> string \<Rightarrow> string \<Rightarrow> u64 \<Rightarrow> string \<Rightarrow> kms_request" where
  "attested_unlock dev vm capsule boot p0 p7 p11 hv nonce =
     (let pcrs = pcr_set (pcr_set (pcr_set [] PCR0 p0) PCR7 p7) PCR11 p11
      in \<lparr>kms_request_type = ''key_release'', kms_device_id = dev, kms_vm_id = vm,
          kms_capsule_hash = capsule, kms_boot_policy_hash = boot, kms_pcrs = pcrs,
          kms_hypervisor_version = hv, kms_nonce = nonce\<rparr>)"

record suited_request =
  sq_request :: kms_request
  sq_suite :: "suite_binding option"

definition with_suite :: "kms_request \<Rightarrow> suite_binding \<Rightarrow> suited_request" where
  "with_suite r s = \<lparr>sq_request = r, sq_suite = Some s\<rparr>"

definition suited_new :: "kms_request \<Rightarrow> suited_request" where
  "suited_new r = \<lparr>sq_request = r, sq_suite = None\<rparr>"

text \<open>
  \<open>env_request_json\<close> encodes the canonical projection of a request, which has all of its
  fields; \<open>env_receipt_pretty\<close> prints a receipt.
\<close>

record attest_env = capsule_env +
  env_request_json :: "kms_request \<Rightarrow> byte list"
  env_receipt_pretty :: "receipt \<Rightarrow> string"

definition kms_inputs_hash :: "('x) attest_env_scheme \<Rightarrow> kms_request \<Rightarrow> string" where
  "kms_inputs_hash X req = ext_sha384_hex X (env_request_json X req)"

record kms_policy =
  kp_expected_pcrs :: pcr_bank
  kp_min_hypervisor_version :: u64
  kp_allowed_capsule_hashes :: "string list"
  kp_expected_boot_policy_hash :: string

datatype key_release_decision =
    KeyAllow secret_handle string
  | KeyDeny string

definition key_is_allow :: "key_release_decision \<Rightarrow> bool" where
  "key_is_allow d = (case d of KeyAllow _ _ \<Rightarrow> True | KeyDeny _ \<Rightarrow> False)"

definition key_deny_reason :: "key_release_decision \<Rightarrow> string option" where
  "key_deny_reason d = (case d of KeyDeny r \<Rightarrow> Some r | KeyAllow _ _ \<Rightarrow> None)"

lemma key_is_allow_simps [simp]: "key_is_allow (KeyAllow s r)" "\<not> key_is_allow (KeyDeny m)"
  by (simp_all add: key_is_allow_def)

subsection \<open>The simulator\<close>

definition deny_reason_for :: "kms_policy \<Rightarrow> kms_request \<Rightarrow> string option" where
  "deny_reason_for p req =
     (if kms_boot_policy_hash req \<noteq> kp_expected_boot_policy_hash p
      then Some (''boot_policy_hash_mismatch: expected '' @ kp_expected_boot_policy_hash p
                 @ '', got '' @ kms_boot_policy_hash req)
      else case first_mismatch (kms_pcrs req) (kp_expected_pcrs p) of
        Some pcr \<Rightarrow> Some (''pcr_mismatch: pcr'' @ show_nat (unat pcr))
      | None \<Rightarrow>
          if \<not> list_ex (\<lambda>h. h = kms_capsule_hash req) (kp_allowed_capsule_hashes p)
          then Some (''capsule_not_allowlisted: '' @ kms_capsule_hash req)
          else if kms_hypervisor_version req < kp_min_hypervisor_version p
          then Some (''hypervisor_version_below_minimum: '' @ show_u64 (kms_hypervisor_version req)
                     @ '' < '' @ show_u64 (kp_min_hypervisor_version p))
          else None)"

definition simulated_wrapped_vmk ::
  "('x) attest_env_scheme \<Rightarrow> kms_policy \<Rightarrow> kms_request \<Rightarrow> secret_handle" where
  "simulated_wrapped_vmk X p req =
     secret_new (ext_sha384 X
       (as_bytes ''vmk-wrap'' @ [0] @ as_bytes (kms_device_id req) @ [0] @ as_bytes (kms_vm_id req)
        @ [0] @ as_bytes (kms_capsule_hash req) @ [0]
        @ as_bytes (kp_expected_boot_policy_hash p)))"

definition kms_evaluate ::
  "('x) attest_env_scheme \<Rightarrow> kms_policy \<Rightarrow> kms_request \<Rightarrow> receipt_chain
     \<Rightarrow> receipt_chain \<times> key_release_decision" where
  "kms_evaluate X p req chain =
     (let inputs_hash = kms_inputs_hash X req in
      case deny_reason_for p req of
        Some reason \<Rightarrow>
          (chain_append X chain (event_str EvKeyRelease) (kms_vm_id req) ''deny'' KMS_POLICY_ID inputs_hash,
           KeyDeny reason)
      | None \<Rightarrow>
          (let chain' = chain_append X chain (event_str EvKeyRelease) (kms_vm_id req) ''allow''
                 KMS_POLICY_ID inputs_hash;
               receipt_json = env_receipt_pretty X (last (ch_receipts chain'))
           in (chain', KeyAllow (simulated_wrapped_vmk X p req) receipt_json)))"

definition kms_evaluate_suited ::
  "('x) attest_env_scheme \<Rightarrow> kms_policy \<Rightarrow> suited_request \<Rightarrow> receipt_chain
     \<Rightarrow> receipt_chain \<times> key_release_decision" where
  "kms_evaluate_suited X p req chain = kms_evaluate X p (sq_request req) chain"

record unlock_evidence =
  ue_format :: string
  ue_device_id :: string
  ue_vm_id :: string
  ue_suite :: "suite_binding option"
  ue_pcr_match :: bool
  ue_boot_policy_match :: bool
  ue_capsule_allowlisted :: bool
  ue_hypervisor_version_ok :: bool
  ue_inputs_hash :: string
  ue_policy_id :: string

definition attested_unlock_evidence ::
  "('x) attest_env_scheme \<Rightarrow> kms_policy \<Rightarrow> kms_request \<Rightarrow> suite_binding option
     \<Rightarrow> key_release_decision \<Rightarrow> unlock_evidence option" where
  "attested_unlock_evidence X p req suite decision =
     (if \<not> key_is_allow decision then None
      else Some \<lparr>ue_format = ATTESTED_UNLOCK_FORMAT, ue_device_id = kms_device_id req,
                 ue_vm_id = kms_vm_id req, ue_suite = suite,
                 ue_pcr_match = pcr_satisfies (kms_pcrs req) (kp_expected_pcrs p),
                 ue_boot_policy_match = (kms_boot_policy_hash req = kp_expected_boot_policy_hash p),
                 ue_capsule_allowlisted =
                   list_ex (\<lambda>h. h = kms_capsule_hash req) (kp_allowed_capsule_hashes p),
                 ue_hypervisor_version_ok =
                   (kp_min_hypervisor_version p \<le> kms_hypervisor_version req),
                 ue_inputs_hash = kms_inputs_hash X req, ue_policy_id = KMS_POLICY_ID\<rparr>)"

definition attested_unlock_evidence_suited ::
  "('x) attest_env_scheme \<Rightarrow> kms_policy \<Rightarrow> suited_request \<Rightarrow> key_release_decision
     \<Rightarrow> unlock_evidence option" where
  "attested_unlock_evidence_suited X p req decision =
     attested_unlock_evidence X p (sq_request req) (sq_suite req) decision"

subsection \<open>PCR comparison\<close>

lemma first_mismatch_None:
  "first_mismatch b expected = None \<longleftrightarrow> (\<forall>(pcr, want) \<in> set expected. bt_get b pcr = Some want)"
  by (induction b expected rule: first_mismatch.induct) auto

lemma first_mismatch_Some:
  assumes "bt_sorted expected"
  shows "first_mismatch b expected = Some pcr \<longleftrightarrow>
     (\<exists>want. bt_get expected pcr = Some want \<and> bt_get b pcr \<noteq> Some want)
     \<and> (\<forall>q < pcr. \<forall>want. bt_get expected q = Some want \<longrightarrow> bt_get b q = Some want)"
  using assms
proof (induction b expected rule: first_mismatch.induct)
  case (2 b p want rest)
  have srt: "bt_sorted rest" and above: "\<forall>q \<in> fst ` set rest. p < q"
    using "2.prems" by (auto simp: bt_sorted_def)
  have get: "bt_get ((p, want) # rest) q = (if q = p then Some want else bt_get rest q)" for q
    by (simp add: bt_get_def)
  have rest: "p < q" if "bt_get rest q = Some w" for q w
    using bt_get_in_set [OF that] above by force
  show ?case
  proof (cases "bt_get b p = Some want")
    case True
    have "p \<noteq> pcr" if "bt_get rest pcr = Some w" for w using rest [OF that] by blast
    with True 2(1) [OF _ srt] show ?thesis
      by (simp add: get) (metis rest not_less_iff_gr_or_eq option.inject)
  next
    case False
    then show ?thesis
      by (simp add: get) (metis rest not_less_iff_gr_or_eq option.inject)
  qed
qed simp

lemma deny_reason_None_iff [guards]:
  "deny_reason_for p req = None \<longleftrightarrow>
     kms_boot_policy_hash req = kp_expected_boot_policy_hash p
     \<and> pcr_satisfies (kms_pcrs req) (kp_expected_pcrs p)
     \<and> kms_capsule_hash req \<in> set (kp_allowed_capsule_hashes p)
     \<and> kp_min_hypervisor_version p \<le> kms_hypervisor_version req"
  by (auto simp: deny_reason_for_def pcr_satisfies_def list_ex_iff not_less split: option.splits)

lemma kms_evaluate_allow: "key_is_allow (snd (kms_evaluate X p req chain)) \<longleftrightarrow> deny_reason_for p req = None"
  by (simp add: kms_evaluate_def Let_def split: option.splits)

lemma kms_evaluate_chain:
  "fst (kms_evaluate X p req chain) =
     chain_append X chain (event_str EvKeyRelease) (kms_vm_id req)
       (if deny_reason_for p req = None then ''allow'' else ''deny'') KMS_POLICY_ID (kms_inputs_hash X req)"
  by (simp add: kms_evaluate_def Let_def split: option.splits)

subsection \<open>Properties\<close>

text \<open>C33: A key is released exactly when the boot policy hash is the pinned one, every expected
  PCR is present with the expected digest, the capsule is allow-listed and the hypervisor is
  recent enough; and either way exactly one receipt is appended, a \<open>key_release\<close> for this
  VM, with this decision and the hash of this request.\<close>

theorem key_release_exact:
  "(key_is_allow (snd (kms_evaluate X p req chain)) \<longleftrightarrow>
      kms_boot_policy_hash req = kp_expected_boot_policy_hash p
      \<and> list_all (\<lambda>(pcr, want). pcr_get (kms_pcrs req) pcr = Some want) (kp_expected_pcrs p)
      \<and> kms_capsule_hash req \<in> set (kp_allowed_capsule_hashes p)
      \<and> kp_min_hypervisor_version p \<le> kms_hypervisor_version req)
   \<and> (\<exists>r. ch_receipts (fst (kms_evaluate X p req chain)) = ch_receipts chain @ [r]
        \<and> rc_event r = ''key_release'' \<and> rc_subject r = kms_vm_id req
        \<and> rc_decision r = (if key_is_allow (snd (kms_evaluate X p req chain)) then ''allow'' else ''deny'')
        \<and> rc_policy_id r = KMS_POLICY_ID \<and> rc_inputs_hash r = kms_inputs_hash X req
        \<and> rc_previous_hash r = chain_head_hash chain)"
proof -
  have "list_all (\<lambda>(pcr, want). pcr_get (kms_pcrs req) pcr = Some want) (kp_expected_pcrs p)
      \<longleftrightarrow> pcr_satisfies (kms_pcrs req) (kp_expected_pcrs p)"
    by (simp add: pcr_satisfies_def first_mismatch_None list_all_iff pcr_get_def)
  then show ?thesis
    by (simp add: kms_evaluate_allow deny_reason_None_iff kms_evaluate_chain)
       (simp add: chain_append_def event_str_def Let_def)
qed

text \<open>The audit spine stays verifiable: a fresh chain that any sequence of key-release
  requests under any policies has been evaluated on verifies and has one receipt per
  request.\<close>

theorem key_release_audit_verifies:
  "chain_verify X (fold (\<lambda>(p, req) c. fst (kms_evaluate X p req c)) rs receipt_chain_new) = Ok ()
   \<and> length (ch_receipts (fold (\<lambda>(p, req) c. fst (kms_evaluate X p req c)) rs receipt_chain_new)) = length rs"
proof (induction rs rule: rev_induct)
  case Nil
  show ?case by simp (simp add: receipt_chain_new_def)
next
  case (snoc x rs)
  then show ?case by (simp add: case_prod_beta kms_evaluate_chain chain_append_verifies)
qed

text \<open>Unlock evidence is minted for allowed requests only, and what it says is true: all
  four gate flags are set and its input hash is the one of the receipt just appended.\<close>

theorem evidence_is_sound:
  "case attested_unlock_evidence_suited X p req (snd (kms_evaluate_suited X p req chain)) of
     None \<Rightarrow> \<not> key_is_allow (snd (kms_evaluate_suited X p req chain))
   | Some ev \<Rightarrow>
       key_is_allow (snd (kms_evaluate_suited X p req chain))
       \<and> ue_pcr_match ev \<and> ue_boot_policy_match ev \<and> ue_capsule_allowlisted ev
       \<and> ue_hypervisor_version_ok ev \<and> ue_suite ev = sq_suite req
       \<and> ue_inputs_hash ev = rc_inputs_hash (last (ch_receipts (fst (kms_evaluate_suited X p req chain))))"
proof (cases "deny_reason_for p (sq_request req)")
  case None
  then show ?thesis
    by (simp add: attested_unlock_evidence_suited_def attested_unlock_evidence_def
        kms_evaluate_suited_def kms_evaluate_allow kms_evaluate_chain chain_append_last)
       (simp add: deny_reason_None_iff list_ex_iff)
next
  case (Some reason)
  then show ?thesis
    by (simp add: attested_unlock_evidence_suited_def attested_unlock_evidence_def
        kms_evaluate_suited_def kms_evaluate_allow)
qed

end
