(* ===== verification/Messages.thy ===== *)
theory Messages
  imports Mm Devices Receipts Capsule
begin

text \<open>
  The texts of the error types: the \<open>#[error("...")]\<close> formats (\<open>Display\<close>) and the derived
  \<open>{:?}\<close> formats (\<open>Debug\<close>) that the lifecycle and the control plane put into the reasons
  they record and return.
\<close>

subsection \<open>Formats\<close>

text \<open>\<open>{:#x}\<close>, the names of fieldless variants, and a variant with one string.\<close>

definition show_hex_alt :: "nat \<Rightarrow> string" where
  "show_hex_alt n = ''0x'' @ show_hex n"

definition width_debug :: "width \<Rightarrow> string" where
  "width_debug w = (case w of WByte \<Rightarrow> ''Byte'' | WWord \<Rightarrow> ''Word'' | WDword \<Rightarrow> ''Dword''
     | WQword \<Rightarrow> ''Qword'')"

definition signature_status_debug :: "signature_status \<Rightarrow> string" where
  "signature_status_debug s = (case s of SigUnverified \<Rightarrow> ''Unverified'' | SigValid \<Rightarrow> ''Valid''
     | SigInvalid \<Rightarrow> ''Invalid'')"

definition policy_status_debug :: "policy_status \<Rightarrow> string" where
  "policy_status_debug s = (case s of PolUnchecked \<Rightarrow> ''Unchecked'' | PolPass \<Rightarrow> ''Pass''
     | PolFail \<Rightarrow> ''Fail'')"

definition deny_reason_debug :: "deny_reason \<Rightarrow> string" where
  "deny_reason_debug d = (case d of
       UnsignedManifest \<Rightarrow> ''UnsignedManifest''
     | PassthroughForbidden \<Rightarrow> ''PassthroughForbidden''
     | StaleHypervisor \<Rightarrow> ''StaleHypervisor''
     | DebugForbidden \<Rightarrow> ''DebugForbidden''
     | EgressDenied \<Rightarrow> ''EgressDenied''
     | EncryptionRequired \<Rightarrow> ''EncryptionRequired''
     | PcrMismatch \<Rightarrow> ''PcrMismatch''
     | DenyOther s \<Rightarrow> ''Other('' @ debug_str s @ '')'')"

subsection \<open>Error texts\<close>

definition mm_error_text :: "mm_error \<Rightarrow> string" where
  "mm_error_text e = (case e of
       ZeroLength \<Rightarrow> ''zero-length mapping is not allowed''
     | WriteExecuteForbidden \<Rightarrow> ''writable+executable mapping rejected (W^X violation)''
     | OverlapsReservedHostRange \<Rightarrow>
         ''mapping host range overlaps the reserved host/hypervisor range''
     | PageNotZeroed \<Rightarrow> ''target host page(s) not zeroed before assignment''
     | PagePoisoned \<Rightarrow> ''host page is poisoned and cannot be assigned until re-zeroed''
     | UnknownMapping i \<Rightarrow> ''unknown mapping id '' @ show_u64 i
     | QuotaExceeded req avail \<Rightarrow> ''memory quota exceeded: requested '' @ show_u64 req
         @ '' MB, '' @ show_u64 avail @ '' MB available'')"

definition dev_error_text :: "dev_error \<Rightarrow> string" where
  "dev_error_text e = (case e of
       UnmappedAddress a \<Rightarrow> ''unmapped MMIO address '' @ show_hex_alt (unat a)
     | UnknownPort p \<Rightarrow> ''unknown I/O port '' @ show_hex_alt (unat p)
     | UnknownDevice i \<Rightarrow> ''unknown device index '' @ show_nat i
     | UnsupportedWidth off w \<Rightarrow> ''unsupported access width '' @ width_debug w @ '' at offset ''
         @ show_hex_alt (unat off)
     | OffsetOutOfRange off \<Rightarrow> ''offset '' @ show_hex_alt (unat off) @ '' out of range for device''
     | ValueTooWide v w \<Rightarrow> ''value '' @ show_hex_alt (unat v) @ '' does not fit access width ''
         @ width_debug w)"

definition capsule_error_text :: "capsule_error \<Rightarrow> string" where
  "capsule_error_text e = (case e of
       CapJson m \<Rightarrow> ''malformed capsule manifest json: '' @ m
     | CapSchema expected got \<Rightarrow> ''unexpected schema: expected `'' @ expected @ ''`, got `''
         @ got @ ''`''
     | CapNoSignatures \<Rightarrow> ''manifest has no signatures''
     | CapSignatureNotValid s \<Rightarrow> ''no valid signature: signature status is ''
         @ signature_status_debug s
     | CapHypervisorTooOld runtime minimum \<Rightarrow> ''hypervisor too old: runtime '' @ show_u64 runtime
         @ '' < manifest minimum '' @ show_u64 minimum
     | CapBootPolicyRollback found minimum \<Rightarrow> ''boot policy rollback: manifest ''
         @ show_u64 found @ '' < tenant minimum '' @ show_u64 minimum)"

definition gate_error_text :: "gate_error \<Rightarrow> string" where
  "gate_error_text e = (case e of
       GateSignatureNotValid s \<Rightarrow> ''signature not valid: '' @ signature_status_debug s
     | GatePolicyNotPassing s \<Rightarrow> ''policy not passing: '' @ policy_status_debug s
     | GateImageHashMismatch expected found \<Rightarrow> ''image hash mismatch: expected `'' @ expected
         @ ''`, manifest `'' @ found @ ''`''
     | GateHypervisorTooOld runtime minimum \<Rightarrow> ''hypervisor too old: runtime ''
         @ show_u64 runtime @ '' < manifest minimum '' @ show_u64 minimum
     | GateBootPolicyRollback found minimum \<Rightarrow> ''boot policy rollback: manifest ''
         @ show_u64 found @ '' < tenant minimum '' @ show_u64 minimum
     | GateKeyUnwrapNotAuthorized \<Rightarrow> ''key unwrap not authorized''
     | GateDevicePolicyDenied \<Rightarrow> ''device policy denied''
     | GateMemoryOverBudget requested budget \<Rightarrow> ''memory over budget: manifest ''
         @ show_u64 requested @ ''mb > budget '' @ show_u64 budget @ ''mb''
     | GateDebugOverride \<Rightarrow> ''debug override is not permitted'')"

definition chain_error_text :: "chain_error \<Rightarrow> string" where
  "chain_error_text e = (case e of
       ChainBadSchema i expected found \<Rightarrow> ''receipt '' @ show_nat i
         @ '' has wrong schema: expected '' @ expected @ '', found '' @ found
     | ChainHashMismatch i expected found \<Rightarrow> ''receipt '' @ show_nat i
         @ '' hash mismatch: expected '' @ expected @ '', found '' @ found
     | ChainBrokenLink i expected found \<Rightarrow> ''receipt '' @ show_nat i
         @ '' broken link: previous_receipt_hash '' @ found @ '' != '' @ expected
     | ChainJson m \<Rightarrow> ''json error: '' @ m)"

end
