(* ===== verification/Vm.thy ===== *)
theory Vm
  imports Messages Vcpu Attest
begin

text \<open>
  The virtual machine lifecycle of \<open>hyper-vm\<close> (\<open>runtime.rs\<close>, \<open>spec.rs\<close>, \<open>error.rs\<close>,
  \<open>lib.rs\<close>): the capsule, one record per typed state, the runtime, and one definition per
  method of \<open>VmLifecycle\<close>. Methods that consume their argument return the next state or an
  error next to the new runtime.
\<close>

subsection \<open>Capsules\<close>

record boot_spec =
  bs_firmware :: string
  bs_cmdline :: string
  bs_boot_policy_version :: u64

record vm_cpu_spec =
  vcs_vcpus :: u32

record memory_spec =
  mms_max_mb :: u64

record virtual_disk_spec =
  vds_disk_id :: string
  vds_size_mb :: u64
  vds_read_only :: bool

record virtual_nic_spec =
  vns_nic_id :: string
  vns_mode :: string

record device_assignment_spec =
  das_passthrough :: "string list"

record vm_policy =
  vp_tenant_min_boot_policy :: u64
  vp_memory_budget_mb :: u64
  vp_key_unwrap_authorized :: bool
  vp_device_policy_ok :: bool
  vp_measured_boot :: bool
  vp_requests_debug_console :: bool

record key_release_plan =
  kpl_device_id :: string
  kpl_capsule_hash :: string
  kpl_boot_policy_hash :: string
  kpl_pcrs :: pcr_bank
  kpl_nonce :: string

record vm_capsule =
  vc_capsule_id :: string
  vc_manifest :: verified_manifest
  vc_boot :: boot_spec
  vc_cpu :: vm_cpu_spec
  vc_memory :: memory_spec
  vc_storage :: "virtual_disk_spec list"
  vc_network :: "virtual_nic_spec list"
  vc_devices :: device_assignment_spec
  vc_policy :: vm_policy
  vc_key_plan :: key_release_plan

subsection \<open>States and errors\<close>

datatype vm_state =
    VsDefined | VsVerified | VsPrepared | VsAwaitingKeyRelease | VsUnlocked | VsAttached
  | VsRunning | VsPaused | VsStopping | VsStopped | VsFailed | VsQuarantined | VsDestroyed

datatype vm_error =
    VmPolicyDenied string
  | VmLaunchGate gate_error
  | VmCapsuleError string
  | VmMemory mm_error
  | VmDevice dev_error
  | VmKeyReleaseDenied string
  | VmReceipt chain_error
  | VmInvalidTransition string

definition vm_error_text :: "vm_error \<Rightarrow> string" where
  "vm_error_text e = (case e of
       VmPolicyDenied m \<Rightarrow> ''policy denied: '' @ m
     | VmLaunchGate g \<Rightarrow> ''launch gate denied: '' @ gate_error_text g
     | VmCapsuleError m \<Rightarrow> ''capsule verification failed: '' @ m
     | VmMemory m \<Rightarrow> ''memory error: '' @ mm_error_text m
     | VmDevice d \<Rightarrow> ''device error: '' @ dev_error_text d
     | VmKeyReleaseDenied m \<Rightarrow> ''key release denied: '' @ m
     | VmReceipt c \<Rightarrow> ''receipt chain error: '' @ chain_error_text c
     | VmInvalidTransition m \<Rightarrow> ''invalid transition: '' @ m)"

record vm_resources =
  vr_npt :: guest_table
  vr_quota :: memory_quota_manager
  vr_memory :: guest_memory_map
  vr_host_ranges :: "host_phys_range list"
  vr_mapping_ids :: "u64 list"
  vr_npt_root :: u64
  vr_reserved_mb :: u64

record vm_handle =
  vh_capsule :: vm_capsule
  vh_vm_id :: vm_id

record verified_vm =
  vv_capsule :: vm_capsule
  vv_vm_id :: vm_id
  vv_approval :: launch_approval

record prepared_vm =
  pv_capsule :: vm_capsule
  pv_vm_id :: vm_id
  pv_resources :: vm_resources

record unlocked_vm =
  uv_capsule :: vm_capsule
  uv_vm_id :: vm_id
  uv_resources :: vm_resources
  uv_wrapped_vmk :: secret_handle

record attached_vm =
  av_capsule :: vm_capsule
  av_vm_id :: vm_id
  av_resources :: vm_resources
  av_wrapped_vmk :: secret_handle
  av_devices :: "test_device device_graph"
  av_vcpus :: "vcpu list"

record runnable_vm =
  rn_vm_id :: vm_id
  rn_verified_manifest :: verified_manifest
  rn_assigned_memory :: guest_memory_map
  rn_vcpus :: "vcpu list"
  rn_npt_root :: u64
  rn_devices :: "test_device device_graph"
  rn_network :: "virtual_nic_spec list"
  rn_receipts :: receipt_chain

record running_vm =
  rv_vm_id :: vm_id
  rv_resources :: vm_resources
  rv_wrapped_vmk :: secret_handle
  rv_scheduler :: scheduler
  rv_runnable :: runnable_vm

record paused_vm =
  pz_vm_id :: vm_id
  pz_resources :: vm_resources
  pz_wrapped_vmk :: secret_handle
  pz_runnable :: runnable_vm

record stopped_vm =
  sv_vm_id :: vm_id
  sv_resources :: vm_resources
  sv_wrapped_vmk :: secret_handle

record snapshot_receipt =
  snap_vm_id :: string
  snap_receipt_id :: string
  snap_chain_head :: string

record destroy_receipt =
  dst_vm_id :: string
  dst_receipt_id :: string
  dst_chain_head :: string
  dst_zeroized_ranges :: nat

subsection \<open>The runtime\<close>

definition GUEST_HPA_BASE :: u64 where "GUEST_HPA_BASE = 0x100000000"
definition RESERVED_HPA_BASE :: u64 where "RESERVED_HPA_BASE = 0xF00000000000"
definition RESERVED_HPA_LEN :: u64 where "RESERVED_HPA_LEN = 0x100000"
definition MIB :: u64 where "MIB = 1024 * 1024"

record slate_runtime =
  rt_policy :: policy_document
  rt_kms :: kms_policy
  rt_hypervisor_version :: u64
  rt_receipts :: receipt_chain

definition runtime_new :: "policy_document \<Rightarrow> kms_policy \<Rightarrow> u64 \<Rightarrow> slate_runtime" where
  "runtime_new doc kms hv =
     \<lparr>rt_policy = doc, rt_kms = kms, rt_hypervisor_version = hv, rt_receipts = receipt_chain_new\<rparr>"

definition rt_policy_id :: "slate_runtime \<Rightarrow> string" where
  "rt_policy_id rt = pd_policy_id (rt_policy rt)"

text \<open>Every operation hashes a line of inputs and appends one receipt with the policy's id.\<close>

definition rt_append ::
  "('x) attest_env_scheme \<Rightarrow> slate_runtime \<Rightarrow> string \<Rightarrow> string \<Rightarrow> string \<Rightarrow> string \<Rightarrow> slate_runtime" where
  "rt_append X rt event subject decision inputs =
     rt\<lparr>rt_receipts := chain_append X (rt_receipts rt) event subject decision (rt_policy_id rt)
                        (ext_sha384_hex X (as_bytes inputs))\<rparr>"

text \<open>The slice \<open>&hex[..16]\<close> panics on a shorter string, which no 384-bit digest gives.\<close>

definition derive_npt_root :: "('x) extern_scheme \<Rightarrow> string \<Rightarrow> u64" where
  "derive_npt_root X vm =
     (let h = ext_sha384_hex X (as_bytes vm);
          hex_part = (case strip_prefix ''sha384:'' h of Some p \<Rightarrow> p | None \<Rightarrow> h);
          v = (case from_str_radix_16 64 (take 16 hex_part) of Some n \<Rightarrow> word_of_nat n | None \<Rightarrow> 1)
      in v OR 1)"

subsection \<open>Define and verify\<close>

definition vm_define_op ::
  "('x) attest_env_scheme \<Rightarrow> slate_runtime \<Rightarrow> vm_capsule \<Rightarrow> slate_runtime \<times> (vm_error + vm_handle)" where
  "vm_define_op X rt capsule =
     (let vm = um_vm_id (vm_inner (vc_manifest capsule));
          rt' = rt_append X rt (event_str EvVmDefine) vm ''allow''
                  (''define|'' @ vc_capsule_id capsule @ ''|''
                   @ um_image_hash (vm_inner (vc_manifest capsule)))
      in (rt', Ok \<lparr>vh_capsule = capsule, vh_vm_id = vm\<rparr>))"

definition capsule_launch_request :: "slate_runtime \<Rightarrow> vm_capsule \<Rightarrow> vm_launch_request" where
  "capsule_launch_request rt capsule =
     \<lparr>lq_hypervisor_version = rt_hypervisor_version rt,
      lq_manifest_signed = (vm_signature_status (vc_manifest capsule) = SigValid),
      lq_measured_boot = vp_measured_boot (vc_policy capsule),
      lq_requests_debug_console = vp_requests_debug_console (vc_policy capsule)\<rparr>"

definition capsule_launch_context :: "slate_runtime \<Rightarrow> vm_capsule \<Rightarrow> launch_context" where
  "capsule_launch_context rt capsule =
     \<lparr>lc_hypervisor_version = rt_hypervisor_version rt,
      lc_tenant_min_boot_policy = vp_tenant_min_boot_policy (vc_policy capsule),
      lc_expected_image_hash = um_image_hash (vm_inner (vc_manifest capsule)),
      lc_key_unwrap_authorized = vp_key_unwrap_authorized (vc_policy capsule),
      lc_device_policy_ok = vp_device_policy_ok (vc_policy capsule),
      lc_memory_budget_mb = vp_memory_budget_mb (vc_policy capsule),
      lc_debug_override = False\<rparr>"

definition vm_verify_op ::
  "('x) attest_env_scheme \<Rightarrow> slate_runtime \<Rightarrow> vm_handle \<Rightarrow> slate_runtime \<times> (vm_error + verified_vm)" where
  "vm_verify_op X rt handle =
     (let capsule = vh_capsule handle; vm = vh_vm_id handle;
          m = vm_inner (vc_manifest capsule) in
      case evaluate_vm_launch X (rt_policy rt) (capsule_launch_request rt capsule) of
        PolicyDeny reason \<Rightarrow>
          (rt_append X rt (event_str EvManifestVerify) vm ''deny'' (''verify_deny|'' @ vm),
           Err (VmPolicyDenied (deny_reason_debug reason)))
      | PolicyRequireApproval challenge \<Rightarrow>
          (rt_append X rt (event_str EvManifestVerify) vm ''require_approval''
             (''verify_approval|'' @ vm),
           Err (VmPolicyDenied (''out-of-band approval required: '' @ challenge)))
      | PolicyAllow _ \<Rightarrow>
          (case check_launch (vc_manifest capsule) (capsule_launch_context rt capsule) of
             Inl e \<Rightarrow> (rt, Err (VmLaunchGate e))
           | Inr approval \<Rightarrow>
               (rt_append X rt (event_str EvManifestVerify) vm ''allow''
                  (''verify|'' @ vm @ ''|'' @ um_image_hash m),
                Ok \<lparr>vv_capsule = capsule, vv_vm_id = vm, vv_approval = approval\<rparr>)))"

subsection \<open>Prepare\<close>

definition guest_ram_len :: "u64 \<Rightarrow> u64" where
  "guest_ram_len want_mb = max (sat_mul want_mb MIB) PAGE_SIZE"

definition reserved_host_range :: host_phys_range where
  "reserved_host_range = \<lparr>hr_start = RESERVED_HPA_BASE, hr_len = RESERVED_HPA_LEN\<rparr>"

definition vm_prepare_op ::
  "('x) attest_env_scheme \<Rightarrow> slate_runtime \<Rightarrow> verified_vm \<Rightarrow> slate_runtime \<times> (vm_error + prepared_vm)" where
  "vm_prepare_op X rt v =
     (let capsule = vv_capsule v; vm = vv_vm_id v;
          want_mb = mms_max_mb (vc_memory capsule) in
      case try_reserve (quota_new (vp_memory_budget_mb (vc_policy capsule))) want_mb of
        (quota, Inl e) \<Rightarrow> (rt, Err (VmMemory e))
      | (quota, Inr _) \<Rightarrow>
          (let npt = with_reserved_host_range in_memory_new reserved_host_range;
               len = guest_ram_len want_mb in
           case allocate in_memory_ops npt vm 0 GUEST_HPA_BASE len perms_RW of
             (npt', Inl e) \<Rightarrow> (rt, Err (VmMemory e))
           | (npt', Inr rec) \<Rightarrow>
               (let root = derive_npt_root X vm;
                    memory = add_region (memory_map_new vm root)
                      \<lparr>gpa_start = 0, region_len = len, region_kind = GuestRam,
                       region_perms = perms_RW\<rparr> ''guest-ram'';
                    resources = \<lparr>vr_npt = npt', vr_quota = quota, vr_memory = memory,
                      vr_host_ranges = [host_physical_range rec],
                      vr_mapping_ids = [npt_mapping_id rec], vr_npt_root = root,
                      vr_reserved_mb = want_mb\<rparr>
                in (rt_append X rt ''vm_prepare'' vm ''allow''
                      (''prepare|'' @ vm @ ''|'' @ show_u64 want_mb @ ''mb''),
                    Ok \<lparr>pv_capsule = capsule, pv_vm_id = vm, pv_resources = resources\<rparr>))))"

subsection \<open>Unlock\<close>

definition capsule_key_request :: "slate_runtime \<Rightarrow> vm_capsule \<Rightarrow> vm_id \<Rightarrow> kms_request" where
  "capsule_key_request rt capsule vm =
     (let plan = vc_key_plan capsule in
      \<lparr>kms_request_type = ''key_release'', kms_device_id = kpl_device_id plan, kms_vm_id = vm,
       kms_capsule_hash = kpl_capsule_hash plan, kms_boot_policy_hash = kpl_boot_policy_hash plan,
       kms_pcrs = kpl_pcrs plan, kms_hypervisor_version = rt_hypervisor_version rt,
       kms_nonce = kpl_nonce plan\<rparr>)"

definition vm_unlock_op ::
  "('x) attest_env_scheme \<Rightarrow> slate_runtime \<Rightarrow> prepared_vm \<Rightarrow> slate_runtime \<times> (vm_error + unlocked_vm)" where
  "vm_unlock_op X rt p =
     (let capsule = pv_capsule p; vm = pv_vm_id p;
          (chain, decision) = kms_evaluate X (rt_kms rt) (capsule_key_request rt capsule vm) (rt_receipts rt);
          rt' = rt\<lparr>rt_receipts := chain\<rparr> in
      case decision of
        KeyAllow vmk receipt_json \<Rightarrow>
          (rt', Ok \<lparr>uv_capsule = capsule, uv_vm_id = vm, uv_resources = pv_resources p,
                   uv_wrapped_vmk = vmk\<rparr>)
      | KeyDeny reason \<Rightarrow> (rt', Err (VmKeyReleaseDenied reason)))"

subsection \<open>Attach\<close>

text \<open>The loop over the passthrough devices.\<close>

fun attach_passthrough ::
  "('x) attest_env_scheme \<Rightarrow> slate_runtime \<Rightarrow> vm_id \<Rightarrow> string list \<Rightarrow> slate_runtime \<times> (vm_error + unit)" where
  "attach_passthrough X rt vm [] = (rt, Ok ())"
| "attach_passthrough X rt vm (dev # devs) =
     (case evaluate_device_assignment X (rt_policy rt) \<lparr>dq_passthrough = True, dq_device = dev\<rparr> of
        PolicyAllow _ \<Rightarrow> attach_passthrough X rt vm devs
      | PolicyDeny reason \<Rightarrow>
          (rt_append X rt (event_str EvDeviceAssign) vm ''deny'' (''attach_deny|'' @ vm @ ''|'' @ dev),
           Err (VmPolicyDenied (''device passthrough denied for '' @ dev @ '': ''
                  @ deny_reason_debug reason)))
      | PolicyRequireApproval challenge \<Rightarrow>
          (rt, Err (VmPolicyDenied (''device assignment needs approval: '' @ challenge))))"

text \<open>The loop \<open>for i in 0..dev_count\<close>, over the indices left.\<close>

fun attach_devices ::
  "test_device device_graph \<Rightarrow> nat list \<Rightarrow> test_device device_graph \<times> (dev_error + unit)" where
  "attach_devices g [] = (g, Ok ())"
| "attach_devices g (i # is) =
     (let base = 0x1000 + word_of_nat i * 0x1000; len = REG_COUNT * 8 in
      case register_device g (test_device_new (word_of_nat i)) (Some (base, len)) None
             (Some (word_of_nat i)) of
        (g', Inl e) \<Rightarrow> (g', Err e)
      | (g', Inr _) \<Rightarrow> attach_devices g' is)"

fun create_vcpus :: "nat \<Rightarrow> vcpu_id_allocator \<Rightarrow> vm_id \<Rightarrow> vcpu list" where
  "create_vcpus 0 a vm = []"
| "create_vcpus (Suc n) a vm =
     (let (a', i) = alloc_vcpu_id a in vcpu_new i vm # create_vcpus n a' vm)"

definition vm_attach_op ::
  "('x) attest_env_scheme \<Rightarrow> slate_runtime \<Rightarrow> unlocked_vm \<Rightarrow> slate_runtime \<times> (vm_error + attached_vm)" where
  "vm_attach_op X rt u =
     (let capsule = uv_capsule u; vm = uv_vm_id u in
      case attach_passthrough X rt vm (das_passthrough (vc_devices capsule)) of
        (rt1, Inl e) \<Rightarrow> (rt1, Err e)
      | (rt1, Inr _) \<Rightarrow>
          (let dev_count = length (vc_storage capsule) + length (vc_network capsule) in
           case attach_devices (graph_new vm) [0..<dev_count] of
             (devices, Inl e) \<Rightarrow> (rt1, Err (VmDevice e))
           | (devices, Inr _) \<Rightarrow>
               (let vcpus = create_vcpus (unat (vcs_vcpus (vc_cpu capsule))) allocator_new vm
                in (rt_append X rt1 (event_str EvDeviceAssign) vm ''allow''
                      (''attach|'' @ vm @ ''|'' @ show_nat dev_count @ ''dev|''
                       @ show_nat (length vcpus) @ ''vcpu''),
                    Ok \<lparr>av_capsule = capsule, av_vm_id = vm, av_resources = uv_resources u,
                        av_wrapped_vmk = uv_wrapped_vmk u, av_devices = devices,
                        av_vcpus = vcpus\<rparr>))))"

subsection \<open>Run, pause, snapshot, stop, destroy\<close>

definition vm_run_op ::
  "('x) attest_env_scheme \<Rightarrow> slate_runtime \<Rightarrow> attached_vm \<Rightarrow> slate_runtime \<times> (vm_error + running_vm)" where
  "vm_run_op X rt a =
     (let capsule = av_capsule a; vm = av_vm_id a;
          sched = fold (\<lambda>v s. sched_enqueue s (v_id v) NormalGuest) (av_vcpus a) scheduler_new;
          vcpus = map (\<lambda>v. v\<lparr>v_state := Running\<rparr>) (av_vcpus a);
          rt' = rt_append X rt (event_str EvVmLaunch) vm ''allow''
                  (''run|'' @ vm @ ''|'' @ um_image_hash (vm_inner (vc_manifest capsule)));
          runnable = \<lparr>rn_vm_id = vm, rn_verified_manifest = vc_manifest capsule,
            rn_assigned_memory = vr_memory (av_resources a), rn_vcpus = vcpus,
            rn_npt_root = vr_npt_root (av_resources a), rn_devices = av_devices a,
            rn_network = vc_network capsule, rn_receipts = rt_receipts rt'\<rparr>
      in (rt', Ok \<lparr>rv_vm_id = vm, rv_resources = av_resources a,
                  rv_wrapped_vmk = av_wrapped_vmk a, rv_scheduler = sched,
                  rv_runnable = runnable\<rparr>))"

definition peek_next_runnable :: "running_vm \<Rightarrow> running_vm \<times> vcpu_id option" where
  "peek_next_runnable r =
     (let (s, v) = next_runnable (rv_scheduler r) in (r\<lparr>rv_scheduler := s\<rparr>, v))"

definition set_vcpu_states :: "vcpu_state \<Rightarrow> runnable_vm \<Rightarrow> runnable_vm" where
  "set_vcpu_states st r = r\<lparr>rn_vcpus := map (\<lambda>v. v\<lparr>v_state := st\<rparr>) (rn_vcpus r)\<rparr>"

definition vm_pause_op ::
  "('x) attest_env_scheme \<Rightarrow> slate_runtime \<Rightarrow> running_vm \<Rightarrow> slate_runtime \<times> (vm_error + paused_vm)" where
  "vm_pause_op X rt r =
     (rt_append X rt ''vm_pause'' (rv_vm_id r) ''allow'' (''pause|'' @ rv_vm_id r),
      Ok \<lparr>pz_vm_id = rv_vm_id r, pz_resources = rv_resources r,
          pz_wrapped_vmk = rv_wrapped_vmk r,
          pz_runnable = set_vcpu_states Blocked (rv_runnable r)\<rparr>)"

definition vm_snapshot_op ::
  "('x) attest_env_scheme \<Rightarrow> slate_runtime \<Rightarrow> paused_vm \<Rightarrow> slate_runtime \<times> (vm_error + snapshot_receipt)" where
  "vm_snapshot_op X rt p =
     (let rt' = rt_append X rt (event_str EvSnapshot) (pz_vm_id p) ''allow''
                  (''snapshot|'' @ pz_vm_id p)
      in (rt', Ok \<lparr>snap_vm_id = pz_vm_id p,
                  snap_receipt_id = rc_receipt_id (last (ch_receipts (rt_receipts rt'))),
                  snap_chain_head = chain_head_hash (rt_receipts rt')\<rparr>))"

text \<open>
  \<open>stop\<close> marks the vCPUs of the bundle halted and then drops the bundle, so nothing of it is
  left in the result.
\<close>

definition vm_stop_op ::
  "('x) attest_env_scheme \<Rightarrow> slate_runtime \<Rightarrow> running_vm \<Rightarrow> slate_runtime \<times> (vm_error + stopped_vm)" where
  "vm_stop_op X rt r =
     (rt_append X rt ''vm_stop'' (rv_vm_id r) ''allow'' (''stop|'' @ rv_vm_id r),
      Ok \<lparr>sv_vm_id = rv_vm_id r, sv_resources = rv_resources r,
          sv_wrapped_vmk = rv_wrapped_vmk r\<rparr>)"

text \<open>
  What \<open>destroy\<close> does to the resources and the key before they are dropped: unmap every
  mapping (a missing one is skipped), scrub every host range, release the quota, zeroize.
\<close>

definition scrub_stopped :: "stopped_vm \<Rightarrow> stopped_vm" where
  "scrub_stopped s =
     (let r = sv_resources s;
          npt1 = fold (\<lambda>i t. fst (nested_unmap in_memory_ops t i)) (vr_mapping_ids r) (vr_npt r);
          npt2 = fold (\<lambda>h t. t\<lparr>nt_zeroizer := mark_zeroed (nt_zeroizer t) (hr_start h) (hr_len h)\<rparr>)
                   (vr_host_ranges r) npt1
      in s\<lparr>sv_resources := r\<lparr>vr_npt := npt2,
                               vr_quota := quota_release (vr_quota r) (vr_reserved_mb r)\<rparr>,
           sv_wrapped_vmk := secret_zeroize (sv_wrapped_vmk s)\<rparr>)"

text \<open>The third component is the consumed VM as it is dropped.\<close>

definition vm_destroy_op ::
  "('x) attest_env_scheme \<Rightarrow> slate_runtime \<Rightarrow> stopped_vm
     \<Rightarrow> slate_runtime \<times> (vm_error + destroy_receipt) \<times> stopped_vm" where
  "vm_destroy_op X rt s =
     (let zeroized = length (vr_host_ranges (sv_resources s));
          s' = scrub_stopped s;
          rt' = rt_append X rt (event_str EvDestroy) (sv_vm_id s) ''allow''
                  (''destroy|'' @ sv_vm_id s)
      in (rt', Ok \<lparr>dst_vm_id = sv_vm_id s,
                  dst_receipt_id = rc_receipt_id (last (ch_receipts (rt_receipts rt'))),
                  dst_chain_head = chain_head_hash (rt_receipts rt'),
                  dst_zeroized_ranges = zeroized\<rparr>, s'))"

end
