(* ===== verification/Lifecycle.thy ===== *)
theory Lifecycle
  imports Vm "HOL-Library.Sublist"
begin

text \<open>
  The operations of \<open>Vm\<close> one by one: the receipt each appends, the exact condition under
  which it succeeds, and the closed form of what it builds (the guest's memory, its device
  graph, its vCPUs).
\<close>

subsection \<open>The receipt an operation appends\<close>

lemma rt_append_sel [simp]:
  "rt_policy (rt_append X rt ev subj dec inp) = rt_policy rt"
  "rt_kms (rt_append X rt ev subj dec inp) = rt_kms rt"
  "rt_hypervisor_version (rt_append X rt ev subj dec inp) = rt_hypervisor_version rt"
  by (simp_all add: rt_append_def)

text \<open>The events a chain allows for a subject, in order.\<close>

definition allowed_events :: "string \<Rightarrow> receipt_chain \<Rightarrow> string list" where
  "allowed_events vm c =
     map rc_event (filter (\<lambda>r. rc_subject r = vm \<and> rc_decision r = ''allow'') (ch_receipts c))"

lemma allowed_events_append [simp]:
  "allowed_events vm (chain_append X c ev subj dec pol inp) =
     allowed_events vm c @ (if subj = vm \<and> dec = ''allow'' then [ev] else [])"
  by (simp add: allowed_events_def chain_append_def Let_def)

lemma allowed_events_rt_append [simp]:
  "allowed_events vm (rt_receipts (rt_append X rt ev subj dec inp)) =
     allowed_events vm (rt_receipts rt) @ (if subj = vm \<and> dec = ''allow'' then [ev] else [])"
  by (simp add: rt_append_def)

lemma rt_append_verifies:
  "chain_verify X (rt_receipts rt) = Ok () \<Longrightarrow>
     chain_verify X (rt_receipts (rt_append X rt ev subj dec inp)) = Ok ()"
  by (simp add: rt_append_def chain_append_verifies)

lemma rt_append_length [simp]:
  "length (ch_receipts (rt_receipts (rt_append X rt ev subj dec inp))) =
     Suc (length (ch_receipts (rt_receipts rt)))"
  by (simp add: rt_append_def)

text \<open>What an operation may do to the runtime: keep it, or append one receipt about its VM.\<close>

definition audited ::
  "('x) attest_env_scheme \<Rightarrow> slate_runtime \<Rightarrow> string \<Rightarrow> slate_runtime \<Rightarrow> bool" where
  "audited X rt vm rt' \<longleftrightarrow>
     (rt' = rt \<or> (\<exists>ev dec pol inp. rt' = rt\<lparr>rt_receipts := chain_append X (rt_receipts rt) ev vm dec pol inp\<rparr>))"

lemma audited_refl [simp]: "audited X rt vm rt"
  by (simp add: audited_def)

lemma audited_append [simp]: "audited X rt vm (rt_append X rt ev vm dec inp)"
  unfolding audited_def rt_append_def by blast

lemma audited_keeps:
  assumes "audited X rt vm rt'"
  shows "rt_policy rt' = rt_policy rt" "rt_kms rt' = rt_kms rt"
    "rt_hypervisor_version rt' = rt_hypervisor_version rt"
    "chain_verify X (rt_receipts rt) = Ok () \<Longrightarrow> chain_verify X (rt_receipts rt') = Ok ()"
    "prefix (ch_receipts (rt_receipts rt)) (ch_receipts (rt_receipts rt'))"
  using assms by (auto simp: audited_def chain_append_verifies) (auto simp: chain_append_def Let_def)

lemma audited_trail:
  "audited X rt vm rt' \<Longrightarrow> prefix (allowed_events w (rt_receipts rt)) (allowed_events w (rt_receipts rt'))"
  by (auto simp: audited_def)

subsection \<open>When each operation succeeds\<close>

definition capsule_admitted :: "('x) attest_env_scheme \<Rightarrow> slate_runtime \<Rightarrow> vm_capsule \<Rightarrow> bool" where
  "capsule_admitted X rt c \<longleftrightarrow>
     is_allow (evaluate_vm_launch X (rt_policy rt) (capsule_launch_request rt c))
     \<and> is_ok (check_launch (vc_manifest c) (capsule_launch_context rt c))"

lemma verify_op_cases:
  obtains (ok) a where "check_launch (vc_manifest (vh_capsule h)) (capsule_launch_context rt (vh_capsule h)) = Ok a"
      "capsule_admitted X rt (vh_capsule h)"
      "vm_verify_op X rt h = (rt_append X rt ''manifest_verify'' (vh_vm_id h) ''allow''
         (''verify|'' @ vh_vm_id h @ ''|'' @ um_image_hash (vm_inner (vc_manifest (vh_capsule h)))),
         Ok \<lparr>vv_capsule = vh_capsule h, vv_vm_id = vh_vm_id h, vv_approval = a\<rparr>)"
  | (fail) rt' e where "\<not> capsule_admitted X rt (vh_capsule h)" "audited X rt (vh_vm_id h) rt'"
      "vm_verify_op X rt h = (rt', Err e)"
proof (cases "evaluate_vm_launch X (rt_policy rt) (capsule_launch_request rt (vh_capsule h))")
  case (PolicyAllow r)
  show thesis
  proof (cases "check_launch (vc_manifest (vh_capsule h)) (capsule_launch_context rt (vh_capsule h))")
    case (Inl e)
    with PolicyAllow show thesis
      by (intro fail [of rt "VmLaunchGate e"]) (simp_all add: capsule_admitted_def vm_verify_op_def Let_def)
  next
    case (Inr a)
    with PolicyAllow show thesis
      by (intro ok [of a]) (simp_all add: capsule_admitted_def vm_verify_op_def Let_def event_str_def)
  qed
next
  case (PolicyDeny d)
  then show thesis
    by (intro fail [OF _ audited_append]) (simp_all add: capsule_admitted_def vm_verify_op_def Let_def)
next
  case (PolicyRequireApproval d)
  then show thesis
    by (intro fail [OF _ audited_append]) (simp_all add: capsule_admitted_def vm_verify_op_def Let_def)
qed

text \<open>
  Guest RAM starts at 4 GiB of host memory and the reserved range at \<open>0xF000_0000_0000\<close>, so
  at most 251654144 MiB fit between them.
\<close>

definition guest_ram_fits :: "u64 \<Rightarrow> bool" where
  "guest_ram_fits want_mb \<longleftrightarrow> want_mb \<le> 251654144"

lemma unat_guest_ram_len:
  "unat (guest_ram_len mb) = max (min (unat mb * 1048576) (2 ^ 64 - 1)) 4096"
proof -
  have "unat (guest_ram_len mb) = max (unat (sat_mul mb MIB)) (unat PAGE_SIZE)"
    by (simp add: guest_ram_len_def max_def word_le_nat_alt)
  then show ?thesis by (simp add: unat_sat_mul MIB_def PAGE_SIZE_def)
qed

lemma guest_ram_overlap_iff:
  "hr_overlaps \<lparr>hr_start = GUEST_HPA_BASE, hr_len = guest_ram_len mb\<rparr> reserved_host_range
     \<longleftrightarrow> \<not> guest_ram_fits mb"
proof -
  have "unat (sat_add GUEST_HPA_BASE (guest_ram_len mb))
      = min (4294967296 + unat (guest_ram_len mb)) (2 ^ 64 - 1)"
    by (simp add: unat_sat_add GUEST_HPA_BASE_def)
  moreover have "unat (sat_add RESERVED_HPA_BASE RESERVED_HPA_LEN) = 263882791714816"
    by (simp add: unat_sat_add RESERVED_HPA_BASE_def RESERVED_HPA_LEN_def)
  moreover have "unat RESERVED_HPA_BASE = 263882790666240" "unat GUEST_HPA_BASE = 4294967296"
    by (simp_all add: RESERVED_HPA_BASE_def GUEST_HPA_BASE_def)
  ultimately show ?thesis
    by (simp add: hr_overlaps_def hr_end_def reserved_host_range_def guest_ram_fits_def
        word_less_nat_alt word_le_nat_alt unat_guest_ram_len) linarith
qed

definition fresh_guest_table :: guest_table where
  "fresh_guest_table = with_reserved_host_range in_memory_new reserved_host_range"

lemma fresh_map_allowed:
  "map_allowed fresh_guest_table GUEST_HPA_BASE (guest_ram_len mb) perms_RW \<longleftrightarrow> guest_ram_fits mb"
proof -
  have "unat (guest_ram_len mb) \<noteq> 0" by (simp add: unat_guest_ram_len)
  then have "guest_ram_len mb \<noteq> 0" by force
  then show ?thesis
    by (simp add: map_allowed_def fresh_guest_table_def with_reserved_host_range_def
        is_write_execute_def perms_RW_def guest_ram_overlap_iff)
qed

text \<open>The resources of a prepared VM, as a closed form.\<close>

definition guest_table :: "u64 \<Rightarrow> guest_table" where
  "guest_table mb = fst (allocate in_memory_ops fresh_guest_table [] 0 GUEST_HPA_BASE
     (guest_ram_len mb) perms_RW)"

lemma allocate_fresh:
  assumes "guest_ram_fits mb"
  shows "allocate in_memory_ops fresh_guest_table vm 0 GUEST_HPA_BASE (guest_ram_len mb) perms_RW
     = (guest_table mb, Ok \<lparr>guest_physical_range = \<lparr>gr_start = 0, gr_len = guest_ram_len mb\<rparr>,
          host_physical_range = \<lparr>hr_start = GUEST_HPA_BASE, hr_len = guest_ram_len mb\<rparr>,
          npt_mapping_id = 0, owner_vm_id = vm, zeroed_before_assign = True\<rparr>)"
    and "table_contents (guest_table mb) =
       [0 \<mapsto> new_mapping 0 0 GUEST_HPA_BASE (guest_ram_len mb) perms_RW]"
    and "table_reachable reserved_host_range (guest_table mb)"
proof -
  let ?z = "mark_zeroed (nt_zeroizer fresh_guest_table) GUEST_HPA_BASE (guest_ram_len mb)"
  let ?l = "guest_ram_len mb"
  have fresh: "nt_npt fresh_guest_table = \<lparr>npt_next_id = 0, npt_mappings = []\<rparr>"
      "nt_records fresh_guest_table = []"
    by (simp_all add: fresh_guest_table_def with_reserved_host_range_def nested_new_def in_memory_new_def)
  have ok: "map_allowed fresh_guest_table GUEST_HPA_BASE ?l perms_RW"
    using assms by (simp add: fresh_map_allowed)
  then have enf: "enforce fresh_guest_table GUEST_HPA_BASE ?l perms_RW = Ok ()"
    by (simp add: enforce_Ok_iff)
  have nz: "?l \<noteq> 0" using ok by (simp add: map_allowed_def)
  obtain z' where z': "zeroizer_assign ?z GUEST_HPA_BASE ?l = (z', Ok ())"
    by (cases rule: zeroizer_assign_cases [of ?z GUEST_HPA_BASE ?l])
       (use is_zeroed_mark_zeroed [OF nz] in auto)
  define t where "t = fresh_guest_table\<lparr>nt_zeroizer := z',
      nt_npt := \<lparr>npt_next_id = 1, npt_mappings = [(0, new_mapping 0 0 GUEST_HPA_BASE ?l perms_RW)]\<rparr>,
      nt_records := [(0, new_mapping 0 0 GUEST_HPA_BASE ?l perms_RW)]\<rparr>"
  have alloc: "allocate in_memory_ops fresh_guest_table w 0 GUEST_HPA_BASE ?l perms_RW
     = (t, Ok \<lparr>guest_physical_range = \<lparr>gr_start = 0, gr_len = ?l\<rparr>,
          host_physical_range = \<lparr>hr_start = GUEST_HPA_BASE, hr_len = ?l\<rparr>,
          npt_mapping_id = 0, owner_vm_id = w, zeroed_before_assign = True\<rparr>)" for w
    using nz by (simp add: allocate_def enf nested_map_def z' in_memory_map_def t_def Let_def
        new_mapping_def fresh)
  then have t: "guest_table mb = t" by (simp add: guest_table_def)
  with alloc show "allocate in_memory_ops fresh_guest_table vm 0 GUEST_HPA_BASE ?l perms_RW
     = (guest_table mb, Ok \<lparr>guest_physical_range = \<lparr>gr_start = 0, gr_len = ?l\<rparr>,
          host_physical_range = \<lparr>hr_start = GUEST_HPA_BASE, hr_len = ?l\<rparr>,
          npt_mapping_id = 0, owner_vm_id = vm, zeroed_before_assign = True\<rparr>)" by simp
  show "table_contents (guest_table mb) = [0 \<mapsto> new_mapping 0 0 GUEST_HPA_BASE ?l perms_RW]"
    by (simp add: t t_def bt_get_def fun_eq_iff)
  show "table_reachable reserved_host_range (guest_table mb)"
    unfolding guest_table_def fresh_guest_table_def
    by (intro table_reachable.allocating table_reachable.start)
qed

definition prepared_resources :: "('x) extern_scheme \<Rightarrow> vm_id \<Rightarrow> u64 \<Rightarrow> u64 \<Rightarrow> vm_resources" where
  "prepared_resources X vm budget mb =
     \<lparr>vr_npt = guest_table mb, vr_quota = \<lparr>max_mb = budget, used_mb = mb\<rparr>,
      vr_memory = \<lparr>gm_schema_version = MM_SCHEMA_VERSION, gm_vm_id = vm,
        gm_regions = [\<lparr>gpa_start = 0, region_len = guest_ram_len mb, region_kind = GuestRam,
                       region_perms = perms_RW\<rparr>],
        gm_npt_root = derive_npt_root X vm, gm_mmio_traps = []\<rparr>,
      vr_host_ranges = [\<lparr>hr_start = GUEST_HPA_BASE, hr_len = guest_ram_len mb\<rparr>],
      vr_mapping_ids = [0], vr_npt_root = derive_npt_root X vm, vr_reserved_mb = mb\<rparr>"

definition capsule_memory_ok :: "vm_capsule \<Rightarrow> bool" where
  "capsule_memory_ok c \<longleftrightarrow>
     mms_max_mb (vc_memory c) \<le> vp_memory_budget_mb (vc_policy c)
     \<and> guest_ram_fits (mms_max_mb (vc_memory c))"

lemma prepare_op_cases:
  obtains (ok) "capsule_memory_ok (vv_capsule v)"
      "vm_prepare_op X rt v = (rt_append X rt ''vm_prepare'' (vv_vm_id v) ''allow''
          (''prepare|'' @ vv_vm_id v @ ''|'' @ show_u64 (mms_max_mb (vc_memory (vv_capsule v))) @ ''mb''),
        Ok \<lparr>pv_capsule = vv_capsule v, pv_vm_id = vv_vm_id v,
            pv_resources = prepared_resources X (vv_vm_id v)
              (vp_memory_budget_mb (vc_policy (vv_capsule v))) (mms_max_mb (vc_memory (vv_capsule v)))\<rparr>)"
  | (fail) e where "\<not> capsule_memory_ok (vv_capsule v)" "vm_prepare_op X rt v = (rt, Err (VmMemory e))"
proof (cases "mms_max_mb (vc_memory (vv_capsule v)) \<le> vp_memory_budget_mb (vc_policy (vv_capsule v))")
  case False
  then show thesis
    by (intro fail) (simp_all add: capsule_memory_ok_def vm_prepare_op_def try_reserve_def Let_def
        quota_new_def available_mb_def sat_sub_def not_le)
next
  case budget: True
  let ?mb = "mms_max_mb (vc_memory (vv_capsule v))"
  let ?budget = "vp_memory_budget_mb (vc_policy (vv_capsule v))"
  have res: "try_reserve (quota_new ?budget) ?mb = (\<lparr>max_mb = ?budget, used_mb = ?mb\<rparr>, Ok ())"
    using budget by (simp add: try_reserve_def Let_def quota_new_def available_mb_def sat_sub_def
        flip: not_le)
  note prep = vm_prepare_op_def Let_def res fresh_guest_table_def [symmetric]
  show thesis
  proof (cases "guest_ram_fits ?mb")
    case True
    show thesis
      using budget True
      by (intro ok)
         (simp_all add: capsule_memory_ok_def prep allocate_fresh(1) prepared_resources_def
            memory_map_new_def add_region_def)
  next
    case False
    then have "\<not> map_allowed fresh_guest_table GUEST_HPA_BASE (guest_ram_len ?mb) perms_RW"
      by (simp add: fresh_map_allowed)
    then obtain e where
      "enforce fresh_guest_table GUEST_HPA_BASE (guest_ram_len ?mb) perms_RW = Err e"
      by (cases rule: enforce_cases [of fresh_guest_table GUEST_HPA_BASE "guest_ram_len ?mb" perms_RW]) auto
    then have "allocate in_memory_ops fresh_guest_table (vv_vm_id v) 0 GUEST_HPA_BASE
        (guest_ram_len ?mb) perms_RW = (fresh_guest_table, Err e)"
      by (simp add: allocate_def)
    with budget False show thesis
      by (intro fail [of e])
         (simp_all add: capsule_memory_ok_def prep)
  qed
qed

lemma unlock_op_cases:
  obtains (ok) "deny_reason_for (rt_kms rt) (capsule_key_request rt (pv_capsule p) (pv_vm_id p)) = None"
      "vm_unlock_op X rt p =
         (rt\<lparr>rt_receipts := chain_append X (rt_receipts rt) ''key_release'' (pv_vm_id p) ''allow''
             KMS_POLICY_ID (kms_inputs_hash X (capsule_key_request rt (pv_capsule p) (pv_vm_id p)))\<rparr>,
          Ok \<lparr>uv_capsule = pv_capsule p, uv_vm_id = pv_vm_id p, uv_resources = pv_resources p,
              uv_wrapped_vmk = simulated_wrapped_vmk X (rt_kms rt)
                (capsule_key_request rt (pv_capsule p) (pv_vm_id p))\<rparr>)"
  | (fail) r where "deny_reason_for (rt_kms rt) (capsule_key_request rt (pv_capsule p) (pv_vm_id p)) = Some r"
      "vm_unlock_op X rt p =
         (rt\<lparr>rt_receipts := chain_append X (rt_receipts rt) ''key_release'' (pv_vm_id p) ''deny''
             KMS_POLICY_ID (kms_inputs_hash X (capsule_key_request rt (pv_capsule p) (pv_vm_id p)))\<rparr>,
          Err (VmKeyReleaseDenied r))"
proof -
  have vm: "kms_vm_id (capsule_key_request rt (pv_capsule p) (pv_vm_id p)) = pv_vm_id p"
    by (simp add: capsule_key_request_def Let_def)
  show thesis
  proof (cases "deny_reason_for (rt_kms rt) (capsule_key_request rt (pv_capsule p) (pv_vm_id p))")
    case None
    then show thesis
      by (intro ok) (simp_all add: vm_unlock_op_def kms_evaluate_def Let_def event_str_def vm)
  next
    case (Some r)
    then show thesis
      by (intro fail) (simp_all add: vm_unlock_op_def kms_evaluate_def Let_def event_str_def vm)
  qed
qed

definition passthrough_allowed :: "slate_runtime \<Rightarrow> vm_capsule \<Rightarrow> bool" where
  "passthrough_allowed rt c \<longleftrightarrow>
     das_passthrough (vc_devices c) = [] \<or> pd_allow_device_passthrough (rt_policy rt)"

lemma attach_passthrough_cases:
  obtains (ok) "devs = [] \<or> pd_allow_device_passthrough (rt_policy rt)"
      "attach_passthrough X rt vm devs = (rt, Ok ())"
  | (fail) e where "devs \<noteq> []" "\<not> pd_allow_device_passthrough (rt_policy rt)"
      "attach_passthrough X rt vm devs =
         (rt_append X rt ''device_assign'' vm ''deny'' (''attach_deny|'' @ vm @ ''|'' @ hd devs), Err e)"
proof (cases "pd_allow_device_passthrough (rt_policy rt)")
  case True
  then have "attach_passthrough X rt vm devs = (rt, Ok ())"
    by (induction devs) (simp_all add: evaluate_device_assignment_def policy_allow_def)
  with True show thesis using ok by simp
next
  case False
  show thesis
  proof (cases devs)
    case Nil
    then show thesis using ok by simp
  next
    case (Cons d ds)
    with False show thesis
      using fail by (simp add: evaluate_device_assignment_def event_str_def)
  qed
qed

subsection \<open>The device graph \<open>attach\<close> builds\<close>

definition device_route :: "nat \<Rightarrow> mmio_route" where
  "device_route i = \<lparr>mr_base = 0x1000 + word_of_nat i * 0x1000, mr_len = REG_COUNT * 8,
                     mr_device_index = i\<rparr>"

definition attach_inv :: "vm_id \<Rightarrow> nat \<Rightarrow> test_device device_graph \<Rightarrow> bool" where
  "attach_inv vm n g \<longleftrightarrow>
     dg_vm_id g = vm \<and> dg_devices g = map (\<lambda>i. test_device_new (word_of_nat i)) [0..<n]
     \<and> dg_mmio_routes g = map device_route [0..<n] \<and> dg_io_routes g = []
     \<and> (\<forall>i. irq_for g i = (if i < n then Some (word_of_nat i) else None))"

lemma unat_device_base:
  assumes "i < 2 ^ 51"
  shows "unat (0x1000 + word_of_nat i * 0x1000 :: u64) = 4096 * (i + 1)"
proof -
  have "(0x1000 + word_of_nat i * 0x1000 :: u64) = word_of_nat (4096 * (i + 1))" by simp
  moreover have "unat (word_of_nat (4096 * (i + 1)) :: u64) = 4096 * (i + 1)"
    using assms by (intro unat_of_nat_small) simp
  ultimately show ?thesis by (simp add: mult.commute)
qed

lemma device_routes_apart:
  assumes "i < j" "j < 2 ^ 51"
  shows "\<not> range_overlaps (mr_base (device_route i)) (mr_len (device_route i))
            (mr_base (device_route j)) (mr_len (device_route j))"
proof -
  have "unat (sat_add (mr_base (device_route i)) (mr_len (device_route i))) \<le> 4096 * (i + 1) + 64"
    using unat_device_base [of i] assms
    by (simp add: unat_sat_add device_route_def REG_COUNT_def)
  moreover have "unat (mr_base (device_route j)) = 4096 * (j + 1)"
    using unat_device_base [of j] assms by (simp add: device_route_def)
  ultimately show ?thesis
    using assms(1) by (simp add: range_overlaps_def word_less_nat_alt)
qed

lemma attach_step:
  assumes inv: "attach_inv vm n g" and n: "n < 2 ^ 51"
  obtains g' where "register_device g (test_device_new (word_of_nat n))
       (Some (0x1000 + word_of_nat n * 0x1000, REG_COUNT * 8)) None (Some (word_of_nat n)) = (g', Ok n)"
    "attach_inv vm (Suc n) g'"
proof -
  have ins: "mmio_insert (dg_mmio_routes g) (0x1000 + word_of_nat n * 0x1000) (REG_COUNT * 8) n
      = (map device_route [0..<Suc n], Ok ())"
  proof (cases rule: mmio_insert_cases [of "dg_mmio_routes g" "0x1000 + word_of_nat n * 0x1000" "REG_COUNT * 8" n])
    case ok
    with inv show ?thesis by (simp add: attach_inv_def device_route_def)
  next
    case (fail e)
    then obtain i where "i < n" "range_overlaps (mr_base (device_route i)) (mr_len (device_route i))
        (mr_base (device_route n)) (mr_len (device_route n))"
      using inv by (auto simp: attach_inv_def REG_COUNT_def device_route_def)
    with device_routes_apart [of i n] n show ?thesis by blast
  qed
  define g' where "g' = g\<lparr>dg_mmio_routes := map device_route [0..<Suc n],
      dg_irq_routes := irq_insert (dg_irq_routes g) n (word_of_nat n),
      dg_devices := dg_devices g @ [test_device_new (word_of_nat n)]\<rparr>"
  have len: "length (dg_devices g) = n" using inv by (simp add: attach_inv_def)
  have reg: "register_device g (test_device_new (word_of_nat n))
       (Some (0x1000 + word_of_nat n * 0x1000, REG_COUNT * 8)) None (Some (word_of_nat n)) = (g', Ok n)"
    by (simp add: register_device_def register_mmio_def register_io_def len ins g'_def Let_def
        del: upt_Suc)
  moreover have "attach_inv vm (Suc n) g'"
    using inv by (auto simp: attach_inv_def g'_def irq_for_def irq_lookup_insert)
  ultimately show thesis by (rule that)
qed

lemma attach_devices_from:
  assumes "attach_inv vm k g" "k \<le> n" "n \<le> 2 ^ 51"
  shows "\<exists>g'. attach_devices g [k..<n] = (g', Ok ()) \<and> attach_inv vm n g'"
  using assms
proof (induction "n - k" arbitrary: k g)
  case 0
  then show ?case by simp
next
  case (Suc d)
  then have k: "k < n" "k < 2 ^ 51" by auto
  obtain g' where g': "register_device g (test_device_new (word_of_nat k))
       (Some (0x1000 + word_of_nat k * 0x1000, REG_COUNT * 8)) None (Some (word_of_nat k)) = (g', Ok k)"
    "attach_inv vm (Suc k) g'"
    using attach_step [OF Suc.prems(1) k(2)] by blast
  have "d = n - Suc k" using Suc.hyps(2) by simp
  from Suc.hyps(1) [OF this g'(2)] Suc.prems k
  obtain g'' where "attach_devices g' [Suc k..<n] = (g'', Ok ())" "attach_inv vm n g''" by auto
  then show ?case using k g'(1) by (simp add: upt_conv_Cons Let_def del: upt_Suc)
qed

lemma attach_devices_total:
  assumes "n \<le> 2 ^ 51"
  obtains g where "attach_devices (graph_new vm) [0..<n] = (g, Ok ())" "attach_inv vm n g"
proof -
  have "attach_inv vm 0 (graph_new vm)"
    by (simp add: attach_inv_def graph_new_def irq_for_def irq_lookup_def)
  from attach_devices_from [OF this _ assms] show thesis using that by auto
qed

lemma create_vcpus_from:
  "create_vcpus n \<lparr>alloc_next = word_of_nat k\<rparr> vm = map (\<lambda>i. vcpu_new (word_of_nat i) vm) [k..<k + n]"
proof (induction n arbitrary: k)
  case (Suc n)
  from Suc [of "Suc k"] show ?case
    by (simp add: alloc_vcpu_id_def Let_def upt_conv_Cons add.commute del: upt_Suc)
qed simp

lemma create_vcpus_eq: "create_vcpus n allocator_new vm = map (\<lambda>i. vcpu_new (word_of_nat i) vm) [0..<n]"
  using create_vcpus_from [of n 0 vm] by (simp add: allocator_new_def)

definition capsule_device_count :: "vm_capsule \<Rightarrow> nat" where
  "capsule_device_count c = length (vc_storage c) + length (vc_network c)"

text \<open>A capsule with at most \<open>2^51\<close> disks and NICs: below that no base address wraps.\<close>

lemma attach_op_cases:
  assumes "capsule_device_count (uv_capsule u) \<le> 2 ^ 51"
  obtains (ok) g where "passthrough_allowed rt (uv_capsule u)"
      "attach_inv (uv_vm_id u) (capsule_device_count (uv_capsule u)) g"
      "vm_attach_op X rt u =
        (rt_append X rt ''device_assign'' (uv_vm_id u) ''allow''
           (''attach|'' @ uv_vm_id u @ ''|'' @ show_nat (capsule_device_count (uv_capsule u)) @ ''dev|''
            @ show_nat (unat (vcs_vcpus (vc_cpu (uv_capsule u)))) @ ''vcpu''),
         Ok \<lparr>av_capsule = uv_capsule u, av_vm_id = uv_vm_id u, av_resources = uv_resources u,
             av_wrapped_vmk = uv_wrapped_vmk u, av_devices = g,
             av_vcpus = map (\<lambda>i. vcpu_new (word_of_nat i) (uv_vm_id u))
                          [0..<unat (vcs_vcpus (vc_cpu (uv_capsule u)))]\<rparr>)"
  | (fail) e where "\<not> passthrough_allowed rt (uv_capsule u)"
      "vm_attach_op X rt u =
        (rt_append X rt ''device_assign'' (uv_vm_id u) ''deny''
           (''attach_deny|'' @ uv_vm_id u @ ''|'' @ hd (das_passthrough (vc_devices (uv_capsule u)))), Err e)"
proof (cases rule: attach_passthrough_cases
    [of "das_passthrough (vc_devices (uv_capsule u))" rt X "uv_vm_id u"])
  case 1: ok
  from assms obtain g where g: "attach_devices (graph_new (uv_vm_id u)) [0..<capsule_device_count (uv_capsule u)]
      = (g, Ok ())" "attach_inv (uv_vm_id u) (capsule_device_count (uv_capsule u)) g"
    by (rule attach_devices_total)
  show thesis
    by (rule ok [OF _ g(2)])
       (use 1 g(1) in \<open>simp_all add: passthrough_allowed_def vm_attach_op_def Let_def create_vcpus_eq
          event_str_def capsule_device_count_def\<close>)
next
  case 2: (fail e)
  show thesis
    by (rule fail [of e]) (use 2 in \<open>simp_all add: passthrough_allowed_def vm_attach_op_def Let_def\<close>)
qed

lemma run_op_outcome:
  obtains rt' r where "vm_run_op X rt a = (rt', Ok r)" "rv_vm_id r = av_vm_id a"
    "rn_verified_manifest (rv_runnable r) = vc_manifest (av_capsule a)"
proof -
  obtain rt' res where run: "vm_run_op X rt a = (rt', res)" by fastforce
  then show thesis using that by (auto simp: vm_run_op_def Let_def)
qed

subsection \<open>The memory of a prepared machine\<close>

lemma zero_sat_add: "sat_add 0 (b :: 'a::len word) = b"
  using unsigned_less [of b, where 'a = nat] by (simp add: sat_add_def)

lemma guest_table_translate:
  assumes "guest_ram_fits mb"
  shows "nested_translate in_memory_ops (guest_table mb) a =
     (if a < guest_ram_len mb then Some (GUEST_HPA_BASE + a) else None)"
proof -
  let ?n = "nt_npt (guest_table mb)" and ?m = "new_mapping 0 0 GUEST_HPA_BASE (guest_ram_len mb) perms_RW"
  have srt: "bt_sorted (npt_mappings ?n)"
    using table_reachable_sound [OF allocate_fresh(3) [OF assms]] by simp
  have ran: "ran (bt_get (npt_mappings ?n)) = {?m}" by (simp add: allocate_fresh(2) [OF assms])
  have len: "unat (guest_ram_len mb) \<le> 263878495698944"
    using assms by (simp add: unat_guest_ram_len guest_ram_fits_def word_le_nat_alt)
  have covers: "mapping_covers a ?m \<longleftrightarrow> a < guest_ram_len mb"
    by (simp add: mapping_covers_def zero_sat_add)
  show ?thesis
  proof (cases "a < guest_ram_len mb")
    case True
    then obtain h where h: "in_memory_translate ?n a = Some h"
      using in_memory_translate_None [OF srt, of a] by (auto simp: ran covers)
    have "unat GUEST_HPA_BASE + unat a < 2 ^ 64"
      using True len by (simp add: GUEST_HPA_BASE_def word_less_nat_alt)
    with in_memory_translate_Some [OF srt h] True h show ?thesis
      by (simp add: ran nested_translate_def sat_add_def)
  next
    case False
    then have "in_memory_translate ?n a = None"
      using in_memory_translate_None [OF srt, of a] by (simp add: ran covers)
    with False show ?thesis by (simp add: nested_translate_def)
  qed
qed

lemma guest_table_frames:
  assumes "guest_ram_fits mb"
  shows "frames (nt_zeroizer (guest_table mb)) f =
     (if f \<in> set (frame_list GUEST_HPA_BASE (guest_ram_len mb)) then Some Assigned else None)"
proof -
  let ?z = "mark_zeroed (nt_zeroizer fresh_guest_table) GUEST_HPA_BASE (guest_ram_len mb)"
  let ?t = "fresh_guest_table\<lparr>nt_zeroizer := ?z\<rparr>"
  have enf: "is_ok (enforce fresh_guest_table GUEST_HPA_BASE (guest_ram_len mb) perms_RW)"
    using assms fresh_map_allowed [of mb]
    by (cases rule: enforce_cases [of fresh_guest_table GUEST_HPA_BASE "guest_ram_len mb" perms_RW]) auto
  have inv: "bt_sorted (npt_mappings (nt_npt ?t))"
    by (simp add: fresh_guest_table_def with_reserved_host_range_def nested_new_def in_memory_new_def)
  have ok: "is_ok (snd (nested_map in_memory_ops ?t 0 GUEST_HPA_BASE (guest_ram_len mb) perms_RW))"
    using allocate_fresh(1) [OF assms, of "[]"] enf
    by (auto simp: allocate_def split: sum.splits prod.splits)
  have fresh: "frames (nt_zeroizer fresh_guest_table) f = None"
    by (simp add: fresh_guest_table_def with_reserved_host_range_def nested_new_def zeroizer_new_def)
  from inv have "frames (nt_zeroizer (fst (nested_map in_memory_ops ?t 0 GUEST_HPA_BASE (guest_ram_len mb) perms_RW))) f
      = (if f \<in> set (frame_list GUEST_HPA_BASE (guest_ram_len mb)) then Some Assigned else None)"
    by (cases rule: in_memory.nested_map_cases
          [where g = 0 and h = GUEST_HPA_BASE and l = "guest_ram_len mb" and p = perms_RW])
       (use ok fresh in \<open>auto simp: set_frames_apply frames_mark_zeroed\<close>)
  then show ?thesis using enf by (simp add: guest_table_def fst_allocate)
qed

lemma scrub_guest_table:
  assumes "guest_ram_fits mb"
    and "t' = fst (nested_unmap in_memory_ops (guest_table mb) 0)"
    and "t'' = t'\<lparr>nt_zeroizer := mark_zeroed (nt_zeroizer t') GUEST_HPA_BASE (guest_ram_len mb)\<rparr>"
  shows "table_contents t'' = Map.empty"
    and "frames (nt_zeroizer t'') f =
       (if f \<in> set (frame_list GUEST_HPA_BASE (guest_ram_len mb)) then Some Zeroed else None)"
proof -
  note sound = table_reachable_sound [OF allocate_fresh(3) [OF assms(1)]]
  have inv: "bt_sorted (npt_mappings (nt_npt (guest_table mb)))" using sound by simp
  have agr: "nested_agrees (\<lambda>n. bt_get (npt_mappings n)) (guest_table mb)"
    using sound by (simp add: nested_sound_def)
  note cont = allocate_fresh(2) [OF assms(1)]
  have rec: "bt_get (nt_records (guest_table mb)) 0 = Some (new_mapping 0 0 GUEST_HPA_BASE (guest_ram_len mb) perms_RW)"
    using agr cont by (simp add: nested_agrees_def)
  have "unat (guest_ram_len mb) \<noteq> 0" by (simp add: unat_guest_ram_len)
  then have nz: "guest_ram_len mb \<noteq> 0" by force
  have un: "table_contents t' = Map.empty \<and> (\<forall>f. frames (nt_zeroizer t') f =
      (if f \<in> set (frame_list GUEST_HPA_BASE (guest_ram_len mb)) then Some Poisoned else None))"
    using inv agr
  proof (cases rule: in_memory.nested_unmap_cases [where i = 0])
    case (ok u m)
    have m: "m = new_mapping 0 0 GUEST_HPA_BASE (guest_ram_len mb) perms_RW" using ok(2) rec by simp
    show ?thesis
      using ok(1,6,8) cont assms(2) nz
      by (simp add: m frames_zeroizer_poison guest_table_frames [OF assms(1)])
  next
    case (unknown u e)
    then show ?thesis using rec by simp
  qed
  show "table_contents t'' = Map.empty" using un assms(3) by simp
  show "frames (nt_zeroizer t'') f =
       (if f \<in> set (frame_list GUEST_HPA_BASE (guest_ram_len mb)) then Some Zeroed else None)"
    using un assms(3) nz by (simp add: frames_mark_zeroed)
qed

subsection \<open>A sample runtime\<close>

definition sample_attest_env :: attest_env where
  "sample_attest_env = \<lparr>ext_sha384 = sha384, ext_hex = hex, env_receipt_json = sample_receipt_json,
     env_security_json = sample_security_json, env_policy_parse = (\<lambda>s. Inl s),
     env_launch_json = (\<lambda>r. []), env_key_json = (\<lambda>r. []), env_device_json = (\<lambda>r. []),
     env_flow_json = (\<lambda>r. []), env_capsule_parse = (\<lambda>s. Inl s), env_request_json = (\<lambda>r. []),
     env_receipt_pretty = (\<lambda>r. [])\<rparr>"

definition sample_policy_doc :: policy_document where
  "sample_policy_doc = \<lparr>pd_schema_version = 1, pd_policy_id = ''pol'',
     pd_minimum_hypervisor_version = 2, pd_require_signed_manifest = True,
     pd_require_measured_boot = True, pd_allow_device_passthrough = False,
     pd_allow_debug_console = False, pd_network_default = ''deny'',
     pd_storage = \<lparr>require_encryption = True, allow_read_write_base_image = False\<rparr>,
     pd_key_release = \<lparr>kr_mode = ''remote_attested_kms'', require_pcr_match_for_sensitive_vms = True\<rparr>\<rparr>"

definition sample_kms :: kms_policy where
  "sample_kms = \<lparr>kp_expected_pcrs = [(0, ''p0'')], kp_min_hypervisor_version = 2,
     kp_allowed_capsule_hashes = [''cap''], kp_expected_boot_policy_hash = ''boot''\<rparr>"

definition sample_capsule :: "string \<Rightarrow> vm_capsule" where
  "sample_capsule vm = \<lparr>vc_capsule_id = ''cap-1'',
     vc_manifest = sample_verified\<lparr>vm_inner := sample_manifest\<lparr>um_vm_id := vm\<rparr>\<rparr>,
     vc_boot = \<lparr>bs_firmware = ''ovmf'', bs_cmdline = [], bs_boot_policy_version = 5\<rparr>,
     vc_cpu = \<lparr>vcs_vcpus = 2\<rparr>, vc_memory = \<lparr>mms_max_mb = 512\<rparr>,
     vc_storage = [\<lparr>vds_disk_id = ''blk0'', vds_size_mb = 1024, vds_read_only = False\<rparr>],
     vc_network = [\<lparr>vns_nic_id = ''net0'', vns_mode = ''isolated''\<rparr>],
     vc_devices = \<lparr>das_passthrough = []\<rparr>,
     vc_policy = \<lparr>vp_tenant_min_boot_policy = 4, vp_memory_budget_mb = 1024,
       vp_key_unwrap_authorized = True, vp_device_policy_ok = True, vp_measured_boot = True,
       vp_requests_debug_console = False\<rparr>,
     vc_key_plan = \<lparr>kpl_device_id = ''dev'', kpl_capsule_hash = ''cap'',
       kpl_boot_policy_hash = ''boot'', kpl_pcrs = [(0, ''p0'')], kpl_nonce = ''n''\<rparr>\<rparr>"

definition sample_runtime :: slate_runtime where
  "sample_runtime = runtime_new sample_policy_doc sample_kms 3"

subsection \<open>Properties\<close>

text \<open>C7: Preparation bounds the guest's memory. It succeeds exactly when the requested size is
  within the capsule's budget and at most 251654144 MiB, the space below the reserved host
  range. Then the guest sees its RAM from address 0 to the requested size in bytes (at least
  one page), backed by host memory from 4 GiB up, and nothing beyond it; no page is writable
  and executable, none is the hypervisor's, and the quota is not exceeded. On an error
  nothing is recorded.\<close>

theorem prepare_memory_exact:
  "(let mb = mms_max_mb (vc_memory (vv_capsule v));
        budget = vp_memory_budget_mb (vc_policy (vv_capsule v)) in
    (is_ok (snd (vm_prepare_op X rt v)) \<longleftrightarrow> mb \<le> budget \<and> mb \<le> 251654144)
    \<and> (case snd (vm_prepare_op X rt v) of
        Inl e \<Rightarrow> fst (vm_prepare_op X rt v) = rt
      | Inr p \<Rightarrow>
          nested_translate in_memory_ops (vr_npt (pv_resources p)) a =
            (if unat a < max (unat mb * 1048576) 4096 then Some (0x100000000 + a) else None)
          \<and> \<not> has_writable_executable_pages (vr_npt (pv_resources p))
          \<and> \<not> maps_host_hypervisor_text (vr_npt (pv_resources p))
          \<and> used_mb (vr_quota (pv_resources p)) = mb \<and> max_mb (vr_quota (pv_resources p)) = budget
          \<and> map gpa_end (gm_regions (vr_memory (pv_resources p))) = [guest_ram_len mb]))"
proof (cases rule: prepare_op_cases [of v X rt])
  case ok
  define mb where "mb = mms_max_mb (vc_memory (vv_capsule v))"
  note mb = mb_def [symmetric]
  from ok have fits: "guest_ram_fits mb" by (simp add: capsule_memory_ok_def mb_def)
  then have le: "unat mb \<le> 251654144" by (simp add: guest_ram_fits_def word_le_nat_alt)
  note safe = nested_sound_no_text [OF conjunct1 [OF conjunct2
      [OF table_reachable_sound [OF allocate_fresh(3) [OF fits]]]]]
  have "a < guest_ram_len mb \<longleftrightarrow> unat a < max (unat mb * 1048576) 4096"
    using le by (simp add: word_less_nat_alt unat_guest_ram_len)
  then show ?thesis
    using ok safe fits
    by (simp add: capsule_memory_ok_def guest_ram_fits_def mb prepared_resources_def
        guest_table_translate GUEST_HPA_BASE_def gpa_end_def zero_sat_add)
next
  case (fail e)
  then show ?thesis by (auto simp: capsule_memory_ok_def guest_ram_fits_def)
qed

text \<open>C9: The device graph that \<open>attach\<close> builds, for up to \<open>2^51\<close> disks and NICs: the operation
  succeeds exactly when no passthrough is asked for or the policy allows it; then there is
  one device per disk and NIC, the addresses from \<open>0x1000 * (i + 1)\<close> on reach device \<open>i\<close> and
  no other, its interrupt line is \<open>i\<close> reduced to eight bits, and there are as many vCPUs as
  asked for, all ready, with ids counting from 0.\<close>

theorem attach_builds_device_graph:
  assumes "capsule_device_count (uv_capsule u) \<le> 2 ^ 51"
  shows "(is_ok (snd (vm_attach_op X rt u)) \<longleftrightarrow>
      das_passthrough (vc_devices (uv_capsule u)) = [] \<or> pd_allow_device_passthrough (rt_policy rt))
    \<and> (case snd (vm_attach_op X rt u) of Inl e \<Rightarrow> True | Inr a \<Rightarrow>
        device_count (av_devices a) = capsule_device_count (uv_capsule u)
        \<and> list_all (\<lambda>i. irq_for (av_devices a) i = Some (word_of_nat i)
             \<and> mmio_translate (dg_mmio_routes (av_devices a)) (0x1000 + word_of_nat i * 0x1000) = Some (i, 0))
             [0..<capsule_device_count (uv_capsule u)]
        \<and> length (av_vcpus a) = unat (vcs_vcpus (vc_cpu (uv_capsule u)))
        \<and> map v_id (av_vcpus a) = map word_of_nat [0..<length (av_vcpus a)]
        \<and> list_all (\<lambda>c. v_state c = Ready) (av_vcpus a))"
  using assms
proof (cases rule: attach_op_cases [of u rt X])
  case (ok g)
  let ?n = "capsule_device_count (uv_capsule u)"
  have "mmio_translate (dg_mmio_routes g) (0x1000 + word_of_nat i * 0x1000) = Some (i, 0)" if "i < ?n" for i
  proof -
    have i: "i < 2 ^ 51" using that assms by simp
    have self: "mr_contains (device_route i) (0x1000 + word_of_nat i * 0x1000)"
      using unat_device_base [OF i] i
      by (simp add: mr_contains_def mr_end_def device_route_def word_less_nat_alt unat_sat_add REG_COUNT_def)
    have "find (\<lambda>r. mr_contains r (0x1000 + word_of_nat i * 0x1000)) (map device_route [0..<?n])
        = Some (device_route i)"
    proof (rule find_unique)
      show "sorted_wrt (\<lambda>x y. \<not> (mr_contains x (0x1000 + word_of_nat i * 0x1000)
          \<and> mr_contains y (0x1000 + word_of_nat i * 0x1000))) (map device_route [0..<?n])"
      proof (simp only: sorted_wrt_map, rule sorted_wrt_mono_rel [OF _ sorted_wrt_upt])
        fix x y assume "x \<in> set [0..<?n]" "y \<in> set [0..<?n]" "x < y"
        with device_routes_apart [of x y] assms
        show "\<not> (mr_contains (device_route x) (0x1000 + word_of_nat i * 0x1000)
          \<and> mr_contains (device_route y) (0x1000 + word_of_nat i * 0x1000))"
          by (auto simp: mr_contains_iff dest: range_overlapsI)
      qed
    qed (use that self in auto)
    with ok(2) show ?thesis by (simp add: mmio_translate_def attach_inv_def device_route_def)
  qed
  with ok show ?thesis
    by (simp add: passthrough_allowed_def device_count_def attach_inv_def list_all_iff vcpu_new_def comp_def)
next
  case (fail e)
  then show ?thesis by (simp add: passthrough_allowed_def)
qed

definition sample_unlocked :: unlocked_vm where
  "sample_unlocked = \<lparr>uv_capsule = sample_capsule ''vm-1'', uv_vm_id = ''vm-1'',
     uv_resources = prepared_resources sample_attest_env ''vm-1'' 1024 512,
     uv_wrapped_vmk = secret_new [1, 2, 3]\<rparr>"

lemma attach_builds_device_graph_witness:
  "is_ok (snd (vm_attach_op sample_attest_env sample_runtime sample_unlocked))
   \<and> (case snd (vm_attach_op sample_attest_env sample_runtime sample_unlocked) of
        Inl e \<Rightarrow> False | Inr a \<Rightarrow> device_count (av_devices a) = 2 \<and> length (av_vcpus a) = 2)"
proof -
  have n: "capsule_device_count (uv_capsule sample_unlocked) = 2"
    by (simp add: sample_unlocked_def sample_capsule_def capsule_device_count_def)
  have p: "das_passthrough (vc_devices (uv_capsule sample_unlocked)) = []"
      "vcs_vcpus (vc_cpu (uv_capsule sample_unlocked)) = 2"
    by (simp_all add: sample_unlocked_def sample_capsule_def)
  from attach_builds_device_graph [of sample_unlocked sample_attest_env sample_runtime] n p
  show ?thesis by (auto split: sum.splits)
qed

end
