(* ===== verification/System.thy ===== *)
theory System
  imports Lifecycle
begin

text \<open>
  A runtime with any number of virtual machines, each in one of the typed states, whose
  operations interleave in any order. Its invariants: the receipt chain verifies, every
  machine has left its audit trail, and every machine past a gate satisfied it.
\<close>

subsection \<open>A runtime with many machines\<close>

datatype vm_value =
    DefinedVm vm_handle
  | VerifiedVm verified_vm
  | PreparedVm prepared_vm
  | UnlockedVm unlocked_vm
  | AttachedVm attached_vm
  | RunningVm running_vm
  | PausedVm paused_vm
  | StoppedVm stopped_vm

text \<open>The accessors \<open>state()\<close> and \<open>vm_id()\<close> of the typed states.\<close>

definition value_state :: "vm_value \<Rightarrow> vm_state" where
  "value_state v = (case v of DefinedVm _ \<Rightarrow> VsDefined | VerifiedVm _ \<Rightarrow> VsVerified
     | PreparedVm _ \<Rightarrow> VsPrepared | UnlockedVm _ \<Rightarrow> VsUnlocked | AttachedVm _ \<Rightarrow> VsAttached
     | RunningVm _ \<Rightarrow> VsRunning | PausedVm _ \<Rightarrow> VsPaused | StoppedVm _ \<Rightarrow> VsStopped)"

definition value_vm_id :: "vm_value \<Rightarrow> vm_id" where
  "value_vm_id v = (case v of DefinedVm h \<Rightarrow> vh_vm_id h | VerifiedVm w \<Rightarrow> vv_vm_id w
     | PreparedVm p \<Rightarrow> pv_vm_id p | UnlockedVm u \<Rightarrow> uv_vm_id u | AttachedVm a \<Rightarrow> av_vm_id a
     | RunningVm r \<Rightarrow> rv_vm_id r | PausedVm p \<Rightarrow> pz_vm_id p | StoppedVm t \<Rightarrow> sv_vm_id t)"

lemmas value_defs = value_state_def value_vm_id_def

definition outcome :: "('a \<Rightarrow> vm_value) \<Rightarrow> vm_error + 'a \<Rightarrow> vm_value option" where
  "outcome mk r = (case r of Inl _ \<Rightarrow> None | Inr x \<Rightarrow> Some (mk x))"

lemma outcome_simps [simp]: "outcome mk (Err e) = None" "outcome mk (Ok x) = Some (mk x)"
  by (simp_all add: outcome_def)

text \<open>
  One lifecycle operation on one machine. The operation consumes its argument: on an error,
  and after a snapshot or a destroy, nothing is left.
\<close>

inductive vm_step ::
  "('x) attest_env_scheme \<Rightarrow> slate_runtime \<Rightarrow> vm_value \<Rightarrow> slate_runtime \<Rightarrow> vm_value option \<Rightarrow> bool"
  for X rt where
  step_verify: "vm_verify_op X rt h = (rt', r) \<Longrightarrow> vm_step X rt (DefinedVm h) rt' (outcome VerifiedVm r)"
| step_prepare: "vm_prepare_op X rt v = (rt', r) \<Longrightarrow> vm_step X rt (VerifiedVm v) rt' (outcome PreparedVm r)"
| step_unlock: "vm_unlock_op X rt p = (rt', r) \<Longrightarrow> vm_step X rt (PreparedVm p) rt' (outcome UnlockedVm r)"
| step_attach: "vm_attach_op X rt u = (rt', r) \<Longrightarrow> vm_step X rt (UnlockedVm u) rt' (outcome AttachedVm r)"
| step_run: "vm_run_op X rt a = (rt', r) \<Longrightarrow> vm_step X rt (AttachedVm a) rt' (outcome RunningVm r)"
| step_peek: "vm_step X rt (RunningVm r) rt (Some (RunningVm (fst (peek_next_runnable r))))"
| step_pause: "vm_pause_op X rt r = (rt', p) \<Longrightarrow> vm_step X rt (RunningVm r) rt' (outcome PausedVm p)"
| step_snapshot: "vm_snapshot_op X rt p = (rt', r) \<Longrightarrow> vm_step X rt (PausedVm p) rt' None"
| step_stop: "vm_stop_op X rt r = (rt', t) \<Longrightarrow> vm_step X rt (RunningVm r) rt' (outcome StoppedVm t)"
| step_destroy: "vm_destroy_op X rt t = (rt', r, t') \<Longrightarrow> vm_step X rt (StoppedVm t) rt' None"

text \<open>
  The states of a runtime built by \<open>SlateRuntime::new\<close> and the machines its clients hold.
  A capsule holds a verified manifest, which only verification makes. A client may drop a
  machine at any time.
\<close>

type_synonym slate_system = "slate_runtime \<times> vm_value list"

inductive slate_step ::
  "('x) attest_env_scheme \<Rightarrow> signature_verifier \<Rightarrow> slate_system \<Rightarrow> slate_system \<Rightarrow> bool" for X check where
  sys_define: "verified_by check hv bp (vc_manifest c) \<Longrightarrow> vm_define_op X rt c = (rt', Ok h) \<Longrightarrow>
    slate_step X check (rt, vs) (rt', vs @ [DefinedVm h])"
| sys_step: "vm_step X rt v rt' (Some v') \<Longrightarrow> slate_step X check (rt, vs @ v # ws) (rt', vs @ v' # ws)"
| sys_end: "vm_step X rt v rt' None \<Longrightarrow> slate_step X check (rt, vs @ v # ws) (rt', vs @ ws)"
| sys_drop: "slate_step X check (rt, vs @ v # ws) (rt, vs @ ws)"

inductive slate_reachable ::
  "('x) attest_env_scheme \<Rightarrow> signature_verifier \<Rightarrow> policy_document \<Rightarrow> kms_policy \<Rightarrow> u64 \<Rightarrow> slate_system \<Rightarrow> bool"
  for X check doc kms hv where
  reach_new: "slate_reachable X check doc kms hv (runtime_new doc kms hv, [])"
| reach_step: "slate_reachable X check doc kms hv s \<Longrightarrow> slate_step X check s s' \<Longrightarrow> slate_reachable X check doc kms hv s'"

subsection \<open>What one step does\<close>

lemma attach_op_outcome:
  obtains (ok) a inp where "vm_attach_op X rt u = (rt_append X rt ''device_assign'' (uv_vm_id u) ''allow'' inp, Ok a)"
      "passthrough_allowed rt (uv_capsule u)" "av_capsule a = uv_capsule u" "av_vm_id a = uv_vm_id u"
      "av_resources a = uv_resources u" "av_wrapped_vmk a = uv_wrapped_vmk u"
  | (fail) rt' e where "vm_attach_op X rt u = (rt', Err e)" "audited X rt (uv_vm_id u) rt'"
proof (cases rule: attach_passthrough_cases
    [of "das_passthrough (vc_devices (uv_capsule u))" rt X "uv_vm_id u"])
  case 1: ok
  let ?n = "length (vc_storage (uv_capsule u)) + length (vc_network (uv_capsule u))"
  obtain g r where gr: "attach_devices (graph_new (uv_vm_id u)) [0..<?n] = (g, r)" by fastforce
  show thesis
  proof (cases r)
    case (Inl e)
    with 1 gr show thesis
      by (intro fail [of rt "VmDevice e"]) (simp_all add: vm_attach_op_def Let_def)
  next
    case (Inr x)
    with 1 gr show thesis
      by (intro ok) (auto simp: vm_attach_op_def Let_def event_str_def passthrough_allowed_def)
  qed
next
  case 2: (fail e)
  then show thesis by (intro fail [OF _ audited_append]) (simp add: vm_attach_op_def Let_def)
qed

lemma unlock_audited: "audited X rt (pv_vm_id p) (fst (vm_unlock_op X rt p))"
  by (cases rule: unlock_op_cases [of rt p X]) (auto simp: audited_def)

lemma vm_step_audited:
  assumes "vm_step X rt v rt' out"
  shows "audited X rt (value_vm_id v) rt'"
  using assms
proof cases
  case (step_verify h r)
  then show ?thesis
    by (cases rule: verify_op_cases [of h rt X]) (auto simp: value_vm_id_def)
next
  case (step_prepare w r)
  then show ?thesis
    by (cases rule: prepare_op_cases [of w X rt]) (auto simp: value_vm_id_def)
next
  case (step_unlock p r)
  then show ?thesis using unlock_audited [of X rt p] by (simp add: value_vm_id_def)
next
  case (step_attach u r)
  then show ?thesis
    by (cases rule: attach_op_outcome [of X rt u]) (auto simp: value_vm_id_def)
qed (auto simp: value_vm_id_def vm_run_op_def vm_pause_op_def vm_snapshot_op_def vm_stop_op_def
      vm_destroy_op_def Let_def)

subsection \<open>Audit trails\<close>

text \<open>What the chain must allow for a machine before it can be in a state, in this order.\<close>

definition expected_trail :: "vm_state \<Rightarrow> string list" where
  "expected_trail s =
     (let launched = [''vm_define'', ''manifest_verify'', ''vm_prepare'', ''key_release'',
                      ''device_assign'', ''vm_launch''] in
      case s of VsDefined \<Rightarrow> take 1 launched | VsVerified \<Rightarrow> take 2 launched
      | VsPrepared \<Rightarrow> take 3 launched | VsUnlocked \<Rightarrow> take 4 launched
      | VsAttached \<Rightarrow> take 5 launched | VsRunning \<Rightarrow> launched
      | VsPaused \<Rightarrow> launched @ [''vm_pause''] | VsStopped \<Rightarrow> launched @ [''vm_stop'']
      | _ \<Rightarrow> [])"

lemma vm_step_trail:
  assumes "vm_step X rt v rt' (Some v')"
  shows "value_vm_id v' = value_vm_id v \<and>
    (\<exists>evs. expected_trail (value_state v') = expected_trail (value_state v) @ evs
      \<and> allowed_events (value_vm_id v) (rt_receipts rt') = allowed_events (value_vm_id v) (rt_receipts rt) @ evs)"
  using assms
proof cases
  case (step_verify h r)
  then show ?thesis
    by (cases rule: verify_op_cases [of h rt X])
       (auto simp: value_defs expected_trail_def outcome_def split: sum.splits)
next
  case (step_prepare w r)
  then show ?thesis
    by (cases rule: prepare_op_cases [of w X rt])
       (auto simp: value_defs expected_trail_def outcome_def split: sum.splits)
next
  case (step_unlock p r)
  then show ?thesis
    by (cases rule: unlock_op_cases [of rt p X])
       (auto simp: value_defs expected_trail_def outcome_def split: sum.splits)
next
  case (step_attach u r)
  then show ?thesis
    by (cases rule: attach_op_outcome [of X rt u])
       (auto simp: value_defs expected_trail_def outcome_def split: sum.splits)
qed (auto simp: value_defs expected_trail_def vm_run_op_def vm_pause_op_def vm_stop_op_def Let_def
      event_str_def peek_next_runnable_def split: prod.splits)

definition trail_ok :: "slate_runtime \<Rightarrow> vm_value \<Rightarrow> bool" where
  "trail_ok rt v \<longleftrightarrow>
     subseq (expected_trail (value_state v)) (allowed_events (value_vm_id v) (rt_receipts rt))"

lemma subseq_prefix_right: "subseq xs ys \<Longrightarrow> prefix ys zs \<Longrightarrow> subseq xs zs"
  by (metis list_emb_append_mono list_emb_Nil append_Nil2 prefix_def)

lemma trail_ok_audited: "trail_ok rt v \<Longrightarrow> audited X rt vm rt' \<Longrightarrow> trail_ok rt' v"
  unfolding trail_ok_def by (blast intro: subseq_prefix_right audited_trail)

lemma trail_ok_step:
  assumes "trail_ok rt v" "vm_step X rt v rt' (Some v')"
  shows "trail_ok rt' v'"
proof -
  from vm_step_trail [OF assms(2)] obtain evs where
    "value_vm_id v' = value_vm_id v" "expected_trail (value_state v') = expected_trail (value_state v) @ evs"
    "allowed_events (value_vm_id v) (rt_receipts rt') = allowed_events (value_vm_id v) (rt_receipts rt) @ evs"
    by blast
  with assms(1) show ?thesis by (simp add: trail_ok_def)
qed

lemma define_op_eq:
  "vm_define_op X rt c = (rt_append X rt ''vm_define'' (um_vm_id (vm_inner (vc_manifest c))) ''allow''
      (''define|'' @ vc_capsule_id c @ ''|'' @ um_image_hash (vm_inner (vc_manifest c))),
    Ok \<lparr>vh_capsule = c, vh_vm_id = um_vm_id (vm_inner (vc_manifest c))\<rparr>)"
  by (simp add: vm_define_op_def Let_def event_str_def)

lemma define_audited: "audited X rt (um_vm_id (vm_inner (vc_manifest c))) (fst (vm_define_op X rt c))"
  by (simp add: define_op_eq)

lemma define_trail: "vm_define_op X rt c = (rt', Ok h) \<Longrightarrow> trail_ok rt' (DefinedVm h)"
  by (auto simp: define_op_eq trail_ok_def value_defs expected_trail_def list_emb_append2)

subsection \<open>Gates\<close>

definition capsule_key_ok :: "slate_runtime \<Rightarrow> vm_capsule \<Rightarrow> vm_id \<Rightarrow> bool" where
  "capsule_key_ok rt c vm \<longleftrightarrow> deny_reason_for (rt_kms rt) (capsule_key_request rt c vm) = None"

definition capsule_vm_id :: "vm_capsule \<Rightarrow> vm_id" where
  "capsule_vm_id c = um_vm_id (vm_inner (vc_manifest c))"

definition capsule_resources :: "('x) extern_scheme \<Rightarrow> vm_capsule \<Rightarrow> vm_resources" where
  "capsule_resources X c = prepared_resources X (capsule_vm_id c)
     (vp_memory_budget_mb (vc_policy c)) (mms_max_mb (vc_memory c))"

text \<open>Everything a capsule must satisfy to run on a runtime with these settings.\<close>

definition capsule_ready :: "('x) attest_env_scheme \<Rightarrow> slate_runtime \<Rightarrow> vm_capsule \<Rightarrow> bool" where
  "capsule_ready X rt c \<longleftrightarrow>
     capsule_admitted X rt c \<and> capsule_memory_ok c \<and> capsule_key_ok rt c (capsule_vm_id c)
     \<and> passthrough_allowed rt c"

definition manifest_verified :: "signature_verifier \<Rightarrow> vm_capsule \<Rightarrow> bool" where
  "manifest_verified check c \<longleftrightarrow> (\<exists>hv bp. verified_by check hv bp (vc_manifest c))"

definition capsule_vmk :: "('x) attest_env_scheme \<Rightarrow> slate_runtime \<Rightarrow> vm_capsule \<Rightarrow> secret_handle" where
  "capsule_vmk X rt c = simulated_wrapped_vmk X (rt_kms rt) (capsule_key_request rt c (capsule_vm_id c))"

text \<open>What is known of a machine in each state, for the capsule it was made from.\<close>

definition made_from ::
  "('x) attest_env_scheme \<Rightarrow> signature_verifier \<Rightarrow> slate_runtime \<Rightarrow> vm_capsule \<Rightarrow> vm_value \<Rightarrow> bool" where
  "made_from X check rt c v \<longleftrightarrow> manifest_verified check c \<and> value_vm_id v = capsule_vm_id c \<and>
     (case v of
        DefinedVm h \<Rightarrow> vh_capsule h = c
      | VerifiedVm w \<Rightarrow> vv_capsule w = c \<and> capsule_admitted X rt c
      | PreparedVm p \<Rightarrow> pv_capsule p = c \<and> capsule_admitted X rt c \<and> capsule_memory_ok c
          \<and> pv_resources p = capsule_resources X c
      | UnlockedVm u \<Rightarrow> uv_capsule u = c \<and> capsule_admitted X rt c \<and> capsule_memory_ok c
          \<and> capsule_key_ok rt c (capsule_vm_id c) \<and> uv_resources u = capsule_resources X c
          \<and> uv_wrapped_vmk u = capsule_vmk X rt c
      | AttachedVm a \<Rightarrow> av_capsule a = c \<and> capsule_ready X rt c
          \<and> av_resources a = capsule_resources X c \<and> av_wrapped_vmk a = capsule_vmk X rt c
      | RunningVm r \<Rightarrow> capsule_ready X rt c \<and> rn_verified_manifest (rv_runnable r) = vc_manifest c
          \<and> rv_resources r = capsule_resources X c \<and> rv_wrapped_vmk r = capsule_vmk X rt c
      | PausedVm p \<Rightarrow> capsule_ready X rt c \<and> rn_verified_manifest (pz_runnable p) = vc_manifest c
          \<and> pz_resources p = capsule_resources X c \<and> pz_wrapped_vmk p = capsule_vmk X rt c
      | StoppedVm t \<Rightarrow> capsule_ready X rt c
          \<and> sv_resources t = capsule_resources X c \<and> sv_wrapped_vmk t = capsule_vmk X rt c)"

lemma gates_audited:
  assumes "audited X rt vm rt'"
  shows "capsule_admitted Y rt' = capsule_admitted Y rt" "capsule_key_ok rt' = capsule_key_ok rt"
    "passthrough_allowed rt' = passthrough_allowed rt" "capsule_ready Y rt' = capsule_ready Y rt"
    "capsule_vmk Y rt' = capsule_vmk Y rt" "made_from Y check rt' = made_from Y check rt"
proof -
  note keeps = audited_keeps(1-3) [OF assms]
  show g: "capsule_admitted Y rt' = capsule_admitted Y rt" "capsule_key_ok rt' = capsule_key_ok rt"
    "passthrough_allowed rt' = passthrough_allowed rt" "capsule_vmk Y rt' = capsule_vmk Y rt"
    by (simp_all add: fun_eq_iff keeps capsule_admitted_def capsule_launch_request_def
        capsule_launch_context_def capsule_key_ok_def capsule_key_request_def passthrough_allowed_def
        capsule_vmk_def Let_def)
  then show r: "capsule_ready Y rt' = capsule_ready Y rt"
    by (simp add: fun_eq_iff capsule_ready_def)
  show "made_from Y check rt' = made_from Y check rt"
    by (simp add: fun_eq_iff made_from_def g r split: vm_value.splits)
qed

lemma made_from_step:
  assumes made: "made_from X check rt c v" and step: "vm_step X rt v rt' (Some v')"
  shows "made_from X check rt' c v'"
proof -
  have aud: "audited X rt (value_vm_id v) rt'" by (rule vm_step_audited [OF step])
  have "made_from X check rt c v'"
    using step made
  proof cases
    case (step_verify h r)
    with made show ?thesis
      by (cases rule: verify_op_cases [of h rt X]) (auto simp: made_from_def value_vm_id_def outcome_def)
  next
    case (step_prepare w r)
    with made show ?thesis
      by (cases rule: prepare_op_cases [of w X rt])
         (auto simp: made_from_def value_vm_id_def outcome_def capsule_resources_def)
  next
    case (step_unlock p r)
    with made show ?thesis
      by (cases rule: unlock_op_cases [of rt p X])
         (auto simp: made_from_def value_vm_id_def outcome_def capsule_key_ok_def capsule_vmk_def)
  next
    case (step_attach u r)
    with made show ?thesis
      by (cases rule: attach_op_outcome [of X rt u])
         (auto simp: made_from_def value_vm_id_def outcome_def capsule_ready_def)
  qed (auto simp: made_from_def value_vm_id_def vm_run_op_def vm_pause_op_def vm_stop_op_def Let_def
        set_vcpu_states_def peek_next_runnable_def split: prod.splits)
  then show ?thesis by (simp add: gates_audited [OF aud])
qed

subsection \<open>Invariants of every reachable runtime\<close>

definition slate_inv ::
  "('x) attest_env_scheme \<Rightarrow> signature_verifier \<Rightarrow> policy_document \<Rightarrow> kms_policy \<Rightarrow> u64 \<Rightarrow> slate_runtime \<Rightarrow> vm_value list \<Rightarrow> bool" where
  "slate_inv X check doc kms hv rt vs \<longleftrightarrow>
     rt_policy rt = doc \<and> rt_kms rt = kms \<and> rt_hypervisor_version rt = hv
     \<and> chain_verify X (rt_receipts rt) = Ok ()
     \<and> (\<forall>v \<in> set vs. trail_ok rt v \<and> (\<exists>c. made_from X check rt c v))"

lemma slate_inv_audited:
  assumes inv: "slate_inv X check doc kms hv rt vs" and aud: "audited X rt vm rt'"
  shows "slate_inv X check doc kms hv rt' vs"
proof -
  have "chain_verify X (rt_receipts rt') = Ok ()"
    using inv audited_keeps(4) [OF aud] by (simp add: slate_inv_def)
  with inv show ?thesis
    using audited_keeps(1-3) [OF aud] trail_ok_audited [OF _ aud]
    by (simp add: slate_inv_def gates_audited(6) [OF aud])
qed

lemma slate_inv_subset: "slate_inv X check doc kms hv rt vs \<Longrightarrow> set ws \<subseteq> set vs \<Longrightarrow> slate_inv X check doc kms hv rt ws"
  by (auto simp: slate_inv_def)

lemma slate_inv_member:
  assumes "slate_inv X check doc kms hv rt vs" "trail_ok rt v" "made_from X check rt c v" "set ws \<subseteq> insert v (set vs)"
  shows "slate_inv X check doc kms hv rt ws"
  using assms by (auto simp: slate_inv_def)

lemma slate_step_inv:
  assumes "slate_step X check (rt, vs) (rt', vs')" "slate_inv X check doc kms hv rt vs"
  shows "slate_inv X check doc kms hv rt' vs'"
  using assms
proof cases
  case (sys_define hv' bp c h)
  have aud: "audited X rt (um_vm_id (vm_inner (vc_manifest c))) rt'"
    using define_audited [of X rt c] sys_define(3) by simp
  have "made_from X check rt' c (DefinedVm h)"
    using sys_define by (auto simp: made_from_def define_op_eq value_vm_id_def
        manifest_verified_def capsule_vm_id_def)
  from slate_inv_member [OF slate_inv_audited [OF assms(2) aud] _ this] show ?thesis
    using define_trail [OF sys_define(3)] sys_define(1) by simp
next
  case (sys_step v v' us ws)
  note aud = vm_step_audited [OF sys_step(3)]
  from assms(2) sys_step(1) obtain c where v: "trail_ok rt v" "made_from X check rt c v"
    by (auto simp: slate_inv_def)
  show ?thesis
    by (rule slate_inv_member [OF slate_inv_audited [OF assms(2) aud]
        trail_ok_step [OF v(1) sys_step(3)] made_from_step [OF v(2) sys_step(3)]])
       (use sys_step(1,2) in auto)
next
  case (sys_end v us ws)
  show ?thesis
    by (rule slate_inv_subset [OF slate_inv_audited [OF assms(2) vm_step_audited [OF sys_end(3)]]])
       (use sys_end(1,2) in auto)
next
  case (sys_drop us v ws)
  show ?thesis
    unfolding sys_drop(2) by (rule slate_inv_subset [OF assms(2)]) (use sys_drop in auto)
qed

lemma slate_reachable_inv: "slate_reachable X check doc kms hv s \<Longrightarrow> slate_inv X check doc kms hv (fst s) (snd s)"
proof (induction rule: slate_reachable.induct)
  case reach_new
  show ?case by (simp add: slate_inv_def runtime_new_def)
next
  case (reach_step s s')
  then show ?case using slate_step_inv [of X check "fst s" "snd s" "fst s'" "snd s'"] by simp
qed

subsection \<open>A ready capsule runs\<close>

lemma reach_last_step:
  assumes "slate_reachable X check doc kms hv (rt, vs @ [v])" "vm_step X rt v rt' (Some v')"
  shows "slate_reachable X check doc kms hv (rt', vs @ [v'])"
  using reach_step [OF assms(1) sys_step [OF assms(2), of check vs "[]"]] .

lemma ready_capsule_runs:
  assumes reach: "slate_reachable X check doc kms hv (rt, vs)"
    and cap: "verified_by check hv' bp (vc_manifest c)" "capsule_ready X rt c"
      "capsule_device_count c \<le> 2 ^ 51"
  obtains rt' r where "slate_reachable X check doc kms hv (rt', vs @ [RunningVm r])"
    "capsule_ready X rt' = capsule_ready X rt" "rv_vm_id r = capsule_vm_id c"
    "rn_verified_manifest (rv_runnable r) = vc_manifest c"
proof -
  define rt1 h where "rt1 = fst (vm_define_op X rt c)" and "h = \<lparr>vh_capsule = c, vh_vm_id = capsule_vm_id c\<rparr>"
  then have h: "vm_define_op X rt c = (rt1, Ok h)" "vh_capsule h = c" "vh_vm_id h = capsule_vm_id c"
    by (simp_all add: define_op_eq capsule_vm_id_def)
  have r1: "slate_reachable X check doc kms hv (rt1, vs @ [DefinedVm h])"
    by (rule reach_step [OF reach sys_define [OF cap(1) h(1)]])
  have a1: "audited X rt (capsule_vm_id c) rt1"
    using define_audited [of X rt c] h(1) by (simp add: capsule_vm_id_def)
  note g1 = gates_audited [OF a1]
  have "capsule_admitted X rt1 (vh_capsule h)" using cap(2) by (simp add: h g1 capsule_ready_def)
  then obtain rt2 w where w: "vm_verify_op X rt1 h = (rt2, Ok w)" "vv_capsule w = c" "vv_vm_id w = capsule_vm_id c"
    by (cases rule: verify_op_cases [of h rt1 X]) (simp_all add: h)
  have s2: "vm_step X rt1 (DefinedVm h) rt2 (Some (VerifiedVm w))"
    using vm_step.step_verify [OF w(1)] by simp
  note r2 = reach_last_step [OF r1 s2] and g2 = gates_audited [OF vm_step_audited [OF s2]]
  have "capsule_memory_ok (vv_capsule w)" using cap(2) by (simp add: w capsule_ready_def)
  then obtain rt3 p where p: "vm_prepare_op X rt2 w = (rt3, Ok p)" "pv_capsule p = c" "pv_vm_id p = capsule_vm_id c"
    by (cases rule: prepare_op_cases [of w X rt2]) (simp_all add: w)
  have s3: "vm_step X rt2 (VerifiedVm w) rt3 (Some (PreparedVm p))"
    using vm_step.step_prepare [OF p(1)] by simp
  note r3 = reach_last_step [OF r2 s3] and g3 = gates_audited [OF vm_step_audited [OF s3]]
  have "capsule_key_ok rt3 c (capsule_vm_id c)" using cap(2) by (simp add: g3 g2 g1 capsule_ready_def)
  then obtain rt4 u where u: "vm_unlock_op X rt3 p = (rt4, Ok u)" "uv_capsule u = c" "uv_vm_id u = capsule_vm_id c"
    by (cases rule: unlock_op_cases [of rt3 p X]) (simp_all add: p capsule_key_ok_def)
  have s4: "vm_step X rt3 (PreparedVm p) rt4 (Some (UnlockedVm u))"
    using vm_step.step_unlock [OF u(1)] by simp
  note r4 = reach_last_step [OF r3 s4] and g4 = gates_audited [OF vm_step_audited [OF s4]]
  have "passthrough_allowed rt4 (uv_capsule u)" using cap(2) by (simp add: u g4 g3 g2 g1 capsule_ready_def)
  moreover have "capsule_device_count (uv_capsule u) \<le> 2 ^ 51" using cap(3) by (simp add: u)
  ultimately obtain rt5 a where a: "vm_attach_op X rt4 u = (rt5, Ok a)" "av_capsule a = c"
      "av_vm_id a = capsule_vm_id c"
    using attach_op_cases [of u rt4 X] by (metis attached_vm.select_convs(1,2) u(2,3))
  have s5: "vm_step X rt4 (UnlockedVm u) rt5 (Some (AttachedVm a))"
    using vm_step.step_attach [OF a(1)] by simp
  note r5 = reach_last_step [OF r4 s5] and g5 = gates_audited [OF vm_step_audited [OF s5]]
  obtain rt6 r where r: "vm_run_op X rt5 a = (rt6, Ok r)" "rv_vm_id r = capsule_vm_id c"
      "rn_verified_manifest (rv_runnable r) = vc_manifest c"
    using run_op_outcome [of X rt5 a] a by metis
  have s6: "vm_step X rt5 (AttachedVm a) rt6 (Some (RunningVm r))"
    using vm_step.step_run [OF r(1)] by simp
  note g6 = gates_audited [OF vm_step_audited [OF s6]]
  show thesis
    using that [OF reach_last_step [OF r5 s6] _ r(2,3)] by (simp add: g6 g5 g4 g3 g2 g1)
qed

subsection \<open>Two sample machines\<close>

lemma sample_capsule_verified:
  "verified_by (allowlist_verify [''k1'']) 3 4 (vc_manifest (sample_capsule vm))"
  by (auto simp: verified_by_def capsule_verify_Ok_iff sample_verified_def sample_manifest_def
      allowlist_verify_def ALLOWED_ALGS_def sample_capsule_def)

lemma sample_capsule_ready: "capsule_ready X sample_runtime (sample_capsule vm)"
  by (simp add: capsule_ready_def capsule_admitted_def launch_allow_iff capsule_launch_request_def
      capsule_launch_context_def check_launch_def Let_def capsule_memory_ok_def guest_ram_fits_def
      capsule_key_ok_def deny_reason_None_iff capsule_key_request_def pcr_satisfies_def
      passthrough_allowed_def sample_runtime_def runtime_new_def sample_policy_doc_def sample_kms_def
      sample_capsule_def sample_verified_def sample_manifest_def bt_get_def)

lemma sample_vm_id [simp]: "capsule_vm_id (sample_capsule vm) = vm"
  by (simp add: capsule_vm_id_def sample_capsule_def sample_verified_def)

lemma sample_devices [simp]: "capsule_device_count (sample_capsule vm) \<le> 2 ^ 51"
  by (simp add: capsule_device_count_def sample_capsule_def)

lemma two_machines_run:
  obtains rt r r' where "slate_reachable X (allowlist_verify [''k1'']) sample_policy_doc sample_kms 3 (rt, [RunningVm r, RunningVm r'])"
    "rv_vm_id r = ''vm-1''" "rv_vm_id r' = ''vm-2''"
proof -
  have start: "slate_reachable X (allowlist_verify [''k1'']) sample_policy_doc sample_kms 3 (sample_runtime, [])"
    unfolding sample_runtime_def by (rule reach_new)
  obtain rt1 r where r: "slate_reachable X (allowlist_verify [''k1'']) sample_policy_doc sample_kms 3 (rt1, [] @ [RunningVm r])"
    "capsule_ready X rt1 = capsule_ready X sample_runtime" "rv_vm_id r = capsule_vm_id (sample_capsule ''vm-1'')"
    using ready_capsule_runs [OF start sample_capsule_verified sample_capsule_ready sample_devices] by metis
  have "capsule_ready X rt1 (sample_capsule ''vm-2'')" by (simp add: r(2) sample_capsule_ready)
  from ready_capsule_runs [OF r(1) sample_capsule_verified this sample_devices]
  obtain rt2 r' where "slate_reachable X (allowlist_verify [''k1'']) sample_policy_doc sample_kms 3 (rt2, ([] @ [RunningVm r]) @ [RunningVm r'])"
    "rv_vm_id r' = capsule_vm_id (sample_capsule ''vm-2'')" by metis
  with r(3) show thesis using that by simp
qed

lemma capsule_resources_sel:
  "vr_npt (capsule_resources X c) = guest_table (mms_max_mb (vc_memory c))"
  "vr_mapping_ids (capsule_resources X c) = [0]"
  "vr_host_ranges (capsule_resources X c) =
     [\<lparr>hr_start = GUEST_HPA_BASE, hr_len = guest_ram_len (mms_max_mb (vc_memory c))\<rparr>]"
  by (simp_all add: capsule_resources_def prepared_resources_def)

subsection \<open>Properties\<close>

text \<open>C2: In every reachable system, whatever the interleaving of operations on however many
  machines, the receipt chain verifies, and every machine that exists has left the receipts
  of all transitions before its state: its chain allows for it, in this order, the events of
  definition, verification, preparation, key release, device assignment and launch, as far
  as its state requires.\<close>

theorem every_machine_is_audited:
  assumes "slate_reachable X check doc kms hv s"
  shows "chain_verify X (rt_receipts (fst s)) = Ok ()
    \<and> (\<forall>v. v \<in> set (snd s) \<longrightarrow>
         subseq (expected_trail (value_state v)) (allowed_events (value_vm_id v) (rt_receipts (fst s))))"
  using slate_reachable_inv [OF assms] by (simp add: slate_inv_def trail_ok_def)

lemma every_machine_is_audited_witness:
  "\<exists>s r. slate_reachable sample_attest_env (allowlist_verify [''k1'']) sample_policy_doc sample_kms 3 s
     \<and> chain_verify sample_attest_env (rt_receipts (fst s)) = Ok ()
     \<and> subseq (expected_trail VsRunning) (allowed_events ''vm-2'' (rt_receipts (fst s)))
     \<and> RunningVm r \<in> set (snd s)"
proof -
  obtain rt r r' where s: "slate_reachable sample_attest_env (allowlist_verify [''k1'']) sample_policy_doc sample_kms 3
      (rt, [RunningVm r, RunningVm r'])" "rv_vm_id r' = ''vm-2''"
    by (rule two_machines_run)
  from every_machine_is_audited [OF s(1)] s show ?thesis
    by (intro exI [of _ "(rt, [RunningVm r, RunningVm r'])"] exI [of _ r']) (auto simp: value_defs)
qed

text \<open>C8: Destruction scrubs. When a stopped machine of a reachable system is destroyed, the
  resources that are dropped map nothing, every frame of the guest's memory is zeroed and no
  frame is assigned or poisoned, the quota is released, the wrapped key is all zeros, and
  the receipt says that one range was scrubbed and names the new head of the chain.\<close>

theorem destroy_scrubs_everything:
  assumes "slate_reachable X check doc kms hv (rt, vs)" "StoppedVm t \<in> set vs"
  shows "case vm_destroy_op X rt t of (rt', r, t') \<Rightarrow>
      table_contents (vr_npt (sv_resources t')) = Map.empty
    \<and> (\<forall>f. frames (nt_zeroizer (vr_npt (sv_resources t'))) f =
         (if \<exists>h. h \<in> set (vr_host_ranges (sv_resources t)) \<and> f \<in> set (frame_list (hr_start h) (hr_len h))
          then Some Zeroed else None))
    \<and> used_mb (vr_quota (sv_resources t')) = 0
    \<and> set (sh_bytes (sv_wrapped_vmk t')) \<subseteq> {0}
    \<and> secret_len (sv_wrapped_vmk t') = secret_len (sv_wrapped_vmk t)
    \<and> (\<exists>d. r = Ok d \<and> dst_vm_id d = sv_vm_id t \<and> dst_zeroized_ranges d = 1
         \<and> dst_chain_head d = chain_head_hash (rt_receipts rt'))"
proof -
  from slate_reachable_inv [OF assms(1)] assms(2) obtain c where "made_from X check rt c (StoppedVm t)"
    by (auto simp: slate_inv_def)
  then have res: "sv_resources t = capsule_resources X c" and mem: "guest_ram_fits (mms_max_mb (vc_memory c))"
    by (auto simp: made_from_def capsule_ready_def capsule_memory_ok_def)
  note scrub = scrub_guest_table [OF mem refl refl, simplified]
  show ?thesis
    using zeroize_all_zero [of "sv_wrapped_vmk t"]
    by (simp add: vm_destroy_op_def Let_def scrub_stopped_def res capsule_resources_sel scrub)
       (simp add: capsule_resources_def prepared_resources_def quota_release_def sat_sub_def)
qed

lemma last_step_reach:
  "slate_reachable X check doc kms hv (rt, [v, w]) \<Longrightarrow> vm_step X rt w rt' (Some w') \<Longrightarrow>
     slate_reachable X check doc kms hv (rt', [v, w'])"
  using reach_last_step [of X check doc kms hv rt "[v]" w rt' w'] by simp

lemma destroy_scrubs_everything_witness:
  "\<exists>rt vs t. slate_reachable sample_attest_env (allowlist_verify [''k1'']) sample_policy_doc sample_kms 3 (rt, vs)
     \<and> StoppedVm t \<in> set vs \<and> sv_vm_id t = ''vm-2''
     \<and> (case vm_destroy_op sample_attest_env rt t of (rt', r, t') \<Rightarrow>
          table_contents (vr_npt (sv_resources t')) = Map.empty
          \<and> set (sh_bytes (sv_wrapped_vmk t')) \<subseteq> {0})"
proof -
  obtain rt r r' where s: "slate_reachable sample_attest_env (allowlist_verify [''k1''])
      sample_policy_doc sample_kms 3 (rt, [RunningVm r, RunningVm r'])" "rv_vm_id r' = ''vm-2''"
    by (rule two_machines_run)
  define rt1 t where "rt1 = fst (vm_stop_op sample_attest_env rt r')"
    and "t = \<lparr>sv_vm_id = rv_vm_id r', sv_resources = rv_resources r', sv_wrapped_vmk = rv_wrapped_vmk r'\<rparr>"
  then have "vm_stop_op sample_attest_env rt r' = (rt1, Ok t)" by (simp add: vm_stop_op_def)
  from vm_step.step_stop [OF this]
  have r: "slate_reachable sample_attest_env (allowlist_verify [''k1'']) sample_policy_doc sample_kms 3
      (rt1, [RunningVm r, StoppedVm t])"
    by (intro last_step_reach [OF s(1)]) simp
  have memb: "StoppedVm t \<in> set [RunningVm r, StoppedVm t]" by simp
  have id: "sv_vm_id t = ''vm-2''" using s(2) by (simp add: t_def)
  from destroy_scrubs_everything [OF r memb] id r memb show ?thesis
    by (intro exI [of _ rt1] exI [of _ "[RunningVm r, StoppedVm t]"] exI [of _ t])
       (simp add: case_prod_beta)
qed

text \<open>C12: Machines of one runtime are not isolated from each other in host memory: any two running
  machines have their first guest page, and every page both have, backed by the same host
  address. Each page table and its zeroing state belong to one machine, so nothing refuses
  the second assignment.\<close>

theorem running_machines_share_host_memory:
  assumes "slate_reachable X check doc kms hv (rt, vs)" "RunningVm r \<in> set vs" "RunningVm r' \<in> set vs"
  shows "nested_translate in_memory_ops (vr_npt (rv_resources r)) 0 = Some GUEST_HPA_BASE
    \<and> nested_translate in_memory_ops (vr_npt (rv_resources r')) 0 = Some GUEST_HPA_BASE
    \<and> (nested_translate in_memory_ops (vr_npt (rv_resources r)) a = None
       \<or> nested_translate in_memory_ops (vr_npt (rv_resources r')) a = None
       \<or> nested_translate in_memory_ops (vr_npt (rv_resources r)) a
         = nested_translate in_memory_ops (vr_npt (rv_resources r')) a)"
proof -
  have table: "\<exists>mb. vr_npt (rv_resources q) = guest_table mb \<and> guest_ram_fits mb" if "RunningVm q \<in> set vs" for q
  proof -
    from slate_reachable_inv [OF assms(1)] that obtain c where "made_from X check rt c (RunningVm q)"
      by (auto simp: slate_inv_def)
    then show ?thesis
      by (auto simp: made_from_def capsule_ready_def capsule_memory_ok_def capsule_resources_sel)
  qed
  have pos: "0 < guest_ram_len mb" for mb
    by (simp add: word_less_nat_alt unat_guest_ram_len)
  from table [OF assms(2)] table [OF assms(3)] show ?thesis
    using pos by (auto simp: guest_table_translate split: if_splits)
qed

lemma running_machines_share_host_memory_witness:
  "\<exists>rt r r'. slate_reachable sample_attest_env (allowlist_verify [''k1'']) sample_policy_doc sample_kms 3
      (rt, [RunningVm r, RunningVm r'])
    \<and> rv_vm_id r \<noteq> rv_vm_id r'
    \<and> nested_translate in_memory_ops (vr_npt (rv_resources r)) 0
      = nested_translate in_memory_ops (vr_npt (rv_resources r')) 0"
proof -
  obtain rt r r' where s: "slate_reachable sample_attest_env (allowlist_verify [''k1''])
      sample_policy_doc sample_kms 3 (rt, [RunningVm r, RunningVm r'])"
    "rv_vm_id r = ''vm-1''" "rv_vm_id r' = ''vm-2''"
    by (rule two_machines_run)
  from running_machines_share_host_memory [OF s(1), of r r' 0] s show ?thesis
    by (intro exI [of _ rt] exI [of _ r] exI [of _ r']) simp
qed

end
