(* ===== verification/Control.thy ===== *)
theory Control
  imports Lifecycle
begin

text \<open>
  The control plane of \<open>hyper-control\<close>: capsule descriptors, the registry of machines by
  their stage, and one definition per command. A command returns the new control plane next
  to a message or an error. The JSON views are records that an encoder of the environment
  prints.
\<close>

subsection \<open>Constants and errors\<close>

definition CONTROL_CAPSULE_SCHEMA :: string where
  "CONTROL_CAPSULE_SCHEMA = ''chain.control.capsule.v1''"
definition CONTROL_DOCTOR_SCHEMA :: string where
  "CONTROL_DOCTOR_SCHEMA = ''chain.control.doctor.v1''"
definition CONTROL_POLICY_SCHEMA :: string where
  "CONTROL_POLICY_SCHEMA = ''chain.control.policy_view.v1''"
definition CONTROL_RECEIPTS_SCHEMA :: string where
  "CONTROL_RECEIPTS_SCHEMA = ''chain.control.receipts_view.v1''"
definition CONTROL_SCHEMA_VERSION :: u32 where "CONTROL_SCHEMA_VERSION = 1"

definition DEFAULT_HYPERVISOR_VERSION :: u64 where "DEFAULT_HYPERVISOR_VERSION = 52"
definition DEFAULT_BOOT_POLICY_HASH :: string where
  "DEFAULT_BOOT_POLICY_HASH = ''sha384:bootpol-local''"
definition DEFAULT_CAPSULE_HASH :: string where
  "DEFAULT_CAPSULE_HASH = ''sha384:capsule-local''"

datatype control_error =
    CtlJson string
  | CtlSchema string string
  | CtlCapsule capsule_error
  | CtlVm vm_error
  | CtlNotFound string
  | CtlInvalidState string string string string
  | CtlWipeRequired string
  | CtlReceipt string

definition control_error_text :: "control_error \<Rightarrow> string" where
  "control_error_text e = (case e of
       CtlJson m \<Rightarrow> ''malformed control capsule json: '' @ m
     | CtlSchema expected got \<Rightarrow> ''unexpected schema: expected `'' @ expected @ ''`, got `'' @ got @ ''`''
     | CtlCapsule c \<Rightarrow> ''capsule verification failed: '' @ capsule_error_text c
     | CtlVm v \<Rightarrow> ''lifecycle denied: '' @ vm_error_text v
     | CtlNotFound vm \<Rightarrow> ''unknown vm id: '' @ vm
     | CtlInvalidState action vm found needed \<Rightarrow> ''invalid state for `'' @ action @ ''` on `'' @ vm
         @ ''`: vm is `'' @ found @ ''`, need `'' @ needed @ ''`''
     | CtlWipeRequired vm \<Rightarrow> ''destroy refused for `'' @ vm @ ''`: pass --wipe to confirm zeroization''
     | CtlReceipt m \<Rightarrow> ''receipt chain verification failed: '' @ m)"

subsection \<open>Capsule descriptors\<close>

text \<open>
  The manifest of a descriptor is an arbitrary JSON value, which is only ever turned back into
  text and parsed as a manifest; the field holds that text. A default-able field left out is
  the parser's default.
\<close>

record control_capsule_spec =
  ccs_schema :: string
  ccs_capsule_id :: string
  ccs_manifest :: string
  ccs_allowed_key_ids :: "string list"
  ccs_boot :: boot_spec
  ccs_storage :: "virtual_disk_spec list"
  ccs_network :: "virtual_nic_spec list"
  ccs_devices :: device_assignment_spec
  ccs_policy :: vm_policy
  ccs_key_plan :: key_release_plan

definition into_capsule ::
  "('x) capsule_env_scheme \<Rightarrow> control_capsule_spec \<Rightarrow> u64 \<Rightarrow> control_error + vm_capsule" where
  "into_capsule X spec min_hypervisor_version =
     (if ccs_schema spec \<noteq> CONTROL_CAPSULE_SCHEMA
      then Err (CtlSchema CONTROL_CAPSULE_SCHEMA (ccs_schema spec))
      else case parse_manifest X (ccs_manifest spec) of
        Inl e \<Rightarrow> Err (CtlCapsule e)
      | Inr untrusted \<Rightarrow>
          (case capsule_verify untrusted (allowlist_verify (ccs_allowed_key_ids spec))
                  min_hypervisor_version (vp_tenant_min_boot_policy (ccs_policy spec)) of
             Inl e \<Rightarrow> Err (CtlCapsule e)
           | Inr verified \<Rightarrow>
               Ok \<lparr>vc_capsule_id = ccs_capsule_id spec, vc_manifest = verified,
                   vc_boot = ccs_boot spec,
                   vc_cpu = \<lparr>vcs_vcpus = cc_vcpus (um_cpu (vm_inner verified))\<rparr>,
                   vc_memory = \<lparr>mms_max_mb = cm_max_mb (um_memory (vm_inner verified))\<rparr>,
                   vc_storage = ccs_storage spec, vc_network = ccs_network spec,
                   vc_devices = ccs_devices spec, vc_policy = ccs_policy spec,
                   vc_key_plan = ccs_key_plan spec\<rparr>))"

subsection \<open>The registry\<close>

datatype vm_stage =
    StDefined vm_handle
  | StVerified verified_vm
  | StRunning running_vm
  | StPaused paused_vm
  | StStopped stopped_vm
  | StDestroyed
  | StSnapshotted
  | StFailed string

definition stage_state :: "vm_stage \<Rightarrow> vm_state" where
  "stage_state st = (case st of StDefined _ \<Rightarrow> VsDefined | StVerified _ \<Rightarrow> VsVerified
     | StRunning _ \<Rightarrow> VsRunning | StPaused _ \<Rightarrow> VsPaused | StStopped _ \<Rightarrow> VsStopped
     | StDestroyed \<Rightarrow> VsDestroyed | StSnapshotted \<Rightarrow> VsStopped | StFailed _ \<Rightarrow> VsFailed)"

text \<open>The \<open>snake_case\<close> names of the state enum in JSON.\<close>

definition vm_state_name :: "vm_state \<Rightarrow> string" where
  "vm_state_name s = (case s of VsDefined \<Rightarrow> ''defined'' | VsVerified \<Rightarrow> ''verified''
     | VsPrepared \<Rightarrow> ''prepared'' | VsAwaitingKeyRelease \<Rightarrow> ''awaiting_key_release''
     | VsUnlocked \<Rightarrow> ''unlocked'' | VsAttached \<Rightarrow> ''attached'' | VsRunning \<Rightarrow> ''running''
     | VsPaused \<Rightarrow> ''paused'' | VsStopping \<Rightarrow> ''stopping'' | VsStopped \<Rightarrow> ''stopped''
     | VsFailed \<Rightarrow> ''failed'' | VsQuarantined \<Rightarrow> ''quarantined'' | VsDestroyed \<Rightarrow> ''destroyed'')"

definition stage_state_name :: "vm_stage \<Rightarrow> string" where
  "stage_state_name st = (case st of StSnapshotted \<Rightarrow> ''snapshotted''
     | StFailed reason \<Rightarrow> ''failed: '' @ reason
     | other \<Rightarrow> vm_state_name (stage_state other))"

record control =
  ct_runtime :: slate_runtime
  ct_registry :: "(string, vm_stage) btree_map"
  ct_snapshots :: "(string, snapshot_receipt) btree_map"
  ct_policy_doc :: policy_document

definition control_new :: "policy_document \<Rightarrow> kms_policy \<Rightarrow> u64 \<Rightarrow> control" where
  "control_new doc kms hv =
     \<lparr>ct_runtime = runtime_new doc kms hv, ct_registry = [], ct_snapshots = [], ct_policy_doc = doc\<rparr>"

text \<open>The document that the built-in policy text denotes.\<close>

definition default_policy_doc :: policy_document where
  "default_policy_doc = \<lparr>pd_schema_version = 1, pd_policy_id = ''pol-hyperctl-local'',
     pd_minimum_hypervisor_version = 52, pd_require_signed_manifest = True,
     pd_require_measured_boot = True, pd_allow_device_passthrough = False,
     pd_allow_debug_console = False, pd_network_default = ''deny'',
     pd_storage = \<lparr>require_encryption = True, allow_read_write_base_image = False\<rparr>,
     pd_key_release = \<lparr>kr_mode = ''remote_attested_kms'', require_pcr_match_for_sensitive_vms = True\<rparr>\<rparr>"

definition default_pcrs :: pcr_bank where
  "default_pcrs = pcr_set (pcr_set (pcr_set [] PCR0 ''sha384:p0'') PCR7 ''sha384:p7'') PCR11 ''sha384:p11''"

definition default_kms :: kms_policy where
  "default_kms = \<lparr>kp_expected_pcrs = default_pcrs, kp_min_hypervisor_version = DEFAULT_HYPERVISOR_VERSION,
     kp_allowed_capsule_hashes = [DEFAULT_CAPSULE_HASH],
     kp_expected_boot_policy_hash = DEFAULT_BOOT_POLICY_HASH\<rparr>"

definition control_new_local :: control where
  "control_new_local = control_new default_policy_doc default_kms DEFAULT_HYPERVISOR_VERSION"

definition registry_insert :: "control \<Rightarrow> string \<Rightarrow> vm_stage \<Rightarrow> control" where
  "registry_insert c vm st = c\<lparr>ct_registry := bt_insert vm st (ct_registry c)\<rparr>"

definition registry_take :: "control \<Rightarrow> string \<Rightarrow> control \<times> (control_error + vm_stage)" where
  "registry_take c vm =
     (c\<lparr>ct_registry := bt_remove vm (ct_registry c)\<rparr>,
      case bt_get (ct_registry c) vm of Some st \<Rightarrow> Ok st | None \<Rightarrow> Err (CtlNotFound vm))"

definition registry_reject ::
  "control \<Rightarrow> string \<Rightarrow> string \<Rightarrow> string \<Rightarrow> vm_stage \<Rightarrow> control \<times> (control_error + 'a)" where
  "registry_reject c vm action needed st =
     (let found = stage_state_name st in
      (registry_insert c vm st, Err (CtlInvalidState action vm found needed)))"

subsection \<open>The environment and its views\<close>

record doctor_report =
  dr_schema :: string
  dr_schema_version :: u32
  dr_status :: string
  dr_hypervisor_version :: u64
  dr_policy_id :: string
  dr_deny_by_default :: bool
  dr_network_default :: string
  dr_expected_boot_policy_hash :: string
  dr_expected_capsule_hash :: string
  dr_vm_count :: nat
  dr_receipt_count :: nat
  dr_receipt_chain_valid :: bool
  dr_vms :: "(string \<times> string) list"

record policy_view =
  pvw_schema :: string
  pvw_schema_version :: u32
  pvw_deny_by_default :: bool
  pvw_hypervisor_version :: u64
  pvw_policy :: policy_document

record receipts_view =
  rvw_schema :: string
  rvw_schema_version :: u32
  rvw_valid :: bool
  rvw_total :: nat
  rvw_head :: string
  rvw_vm :: "string option"
  rvw_vm_receipts :: "(string \<times> string \<times> string) list option"

record control_env = attest_env +
  env_control_parse :: "string \<Rightarrow> string + control_capsule_spec"
  env_doctor_text :: "doctor_report \<Rightarrow> string"
  env_policy_view_text :: "policy_view \<Rightarrow> string"
  env_receipts_view_text :: "receipts_view \<Rightarrow> string"

subsection \<open>Commands\<close>

text \<open>The branch every command takes when a lifecycle operation is refused.\<close>

definition mark_failed :: "control \<Rightarrow> slate_runtime \<Rightarrow> string \<Rightarrow> vm_error \<Rightarrow> control \<times> (control_error + 'a)" where
  "mark_failed c rt vm e =
     (registry_insert (c\<lparr>ct_runtime := rt\<rparr>) vm (StFailed (vm_error_text e)), Err (CtlVm e))"

definition slate_doctor :: "('x) control_env_scheme \<Rightarrow> control \<Rightarrow> string" where
  "slate_doctor X c =
     (let vms = map (\<lambda>(vm, st). (vm, stage_state_name st)) (ct_registry c);
          chain_valid = is_ok (chain_verify X (rt_receipts (ct_runtime c))) in
      env_doctor_text X
        \<lparr>dr_schema = CONTROL_DOCTOR_SCHEMA, dr_schema_version = CONTROL_SCHEMA_VERSION,
         dr_status = (if chain_valid then ''ok'' else ''degraded''),
         dr_hypervisor_version = rt_hypervisor_version (ct_runtime c),
         dr_policy_id = pd_policy_id (ct_policy_doc c), dr_deny_by_default = True,
         dr_network_default = pd_network_default (ct_policy_doc c),
         dr_expected_boot_policy_hash = DEFAULT_BOOT_POLICY_HASH,
         dr_expected_capsule_hash = DEFAULT_CAPSULE_HASH,
         dr_vm_count = length (ct_registry c),
         dr_receipt_count = length (ch_receipts (rt_receipts (ct_runtime c))),
         dr_receipt_chain_valid = chain_valid, dr_vms = vms\<rparr>)"

definition vm_define :: "('x) control_env_scheme \<Rightarrow> control \<Rightarrow> string \<Rightarrow> control \<times> (control_error + string)" where
  "vm_define X c capsule_json =
     (case env_control_parse X capsule_json of
        Inl e \<Rightarrow> (c, Err (CtlJson e))
      | Inr spec \<Rightarrow>
     (case into_capsule X spec (rt_hypervisor_version (ct_runtime c)) of
        Inl e \<Rightarrow> (c, Err e)
      | Inr capsule \<Rightarrow>
     (case vm_define_op X (ct_runtime c) capsule of
        (rt, Inl e) \<Rightarrow> (c\<lparr>ct_runtime := rt\<rparr>, Err (CtlVm e))
      | (rt, Inr handle) \<Rightarrow>
          (let vm = vh_vm_id handle in
           (registry_insert (c\<lparr>ct_runtime := rt\<rparr>) vm (StDefined handle), Ok vm)))))"

definition vm_verify :: "('x) control_env_scheme \<Rightarrow> control \<Rightarrow> string \<Rightarrow> control \<times> (control_error + string)" where
  "vm_verify X c vm =
     (case registry_take c vm of
        (c1, Inl e) \<Rightarrow> (c1, Err e)
      | (c1, Inr st) \<Rightarrow>
     (case st of
        StDefined h \<Rightarrow>
          (case vm_verify_op X (ct_runtime c1) h of
             (rt, Inr v) \<Rightarrow>
               (let img = la_image_hash (vv_approval v) in
                (registry_insert (c1\<lparr>ct_runtime := rt\<rparr>) vm (StVerified v),
                 Ok (''verified '' @ vm @ '': image '' @ img)))
           | (rt, Inl e) \<Rightarrow> mark_failed c1 rt vm e)
      | other \<Rightarrow> registry_reject c1 vm ''verify'' ''defined'' other))"

definition drive_to_running ::
  "('x) control_env_scheme \<Rightarrow> slate_runtime \<Rightarrow> verified_vm \<Rightarrow> slate_runtime \<times> (vm_error + running_vm)" where
  "drive_to_running X rt v =
     (case vm_prepare_op X rt v of
        (rt1, Inl e) \<Rightarrow> (rt1, Err e)
      | (rt1, Inr prepared) \<Rightarrow>
     (case vm_unlock_op X rt1 prepared of
        (rt2, Inl e) \<Rightarrow> (rt2, Err e)
      | (rt2, Inr unlocked) \<Rightarrow>
     (case vm_attach_op X rt2 unlocked of
        (rt3, Inl e) \<Rightarrow> (rt3, Err e)
      | (rt3, Inr attached) \<Rightarrow> vm_run_op X rt3 attached)))"

definition vm_launch :: "('x) control_env_scheme \<Rightarrow> control \<Rightarrow> string \<Rightarrow> control \<times> (control_error + string)" where
  "vm_launch X c vm =
     (case registry_take c vm of
        (c1, Inl e) \<Rightarrow> (c1, Err e)
      | (c1, Inr st) \<Rightarrow>
     (case st of
        StVerified v \<Rightarrow>
          (case drive_to_running X (ct_runtime c1) v of
             (rt, Inr running) \<Rightarrow>
               (let vcpus = length (rn_vcpus (rv_runnable running));
                    devices = device_count (rn_devices (rv_runnable running)) in
                (registry_insert (c1\<lparr>ct_runtime := rt\<rparr>) vm (StRunning running),
                 Ok (''launched '' @ vm @ '': running ('' @ show_nat vcpus @ '' vcpus, ''
                     @ show_nat devices @ '' devices)'')))
           | (rt, Inl e) \<Rightarrow> mark_failed c1 rt vm e)
      | other \<Rightarrow> registry_reject c1 vm ''launch'' ''verified'' other))"

definition vm_pause :: "('x) control_env_scheme \<Rightarrow> control \<Rightarrow> string \<Rightarrow> control \<times> (control_error + string)" where
  "vm_pause X c vm =
     (case registry_take c vm of
        (c1, Inl e) \<Rightarrow> (c1, Err e)
      | (c1, Inr st) \<Rightarrow>
     (case st of
        StRunning r \<Rightarrow>
          (case vm_pause_op X (ct_runtime c1) r of
             (rt, Inr p) \<Rightarrow>
               (registry_insert (c1\<lparr>ct_runtime := rt\<rparr>) vm (StPaused p), Ok (''paused '' @ vm))
           | (rt, Inl e) \<Rightarrow> mark_failed c1 rt vm e)
      | other \<Rightarrow> registry_reject c1 vm ''pause'' ''running'' other))"

text \<open>The second half of \<open>vm_snapshot\<close>, on the paused guest.\<close>

definition snapshot_paused ::
  "('x) control_env_scheme \<Rightarrow> control \<Rightarrow> string \<Rightarrow> string \<Rightarrow> paused_vm \<Rightarrow> control \<times> (control_error + string)" where
  "snapshot_paused X c vm name paused =
     (case vm_snapshot_op X (ct_runtime c) paused of
        (rt, Inr receipt) \<Rightarrow>
          (let summary = ''snapshot `'' @ name @ ''` of '' @ vm @ '': receipt '' @ snap_receipt_id receipt
                 @ '' @ '' @ snap_chain_head receipt;
               c1 = c\<lparr>ct_runtime := rt, ct_snapshots := bt_insert name receipt (ct_snapshots c)\<rparr>
           in (registry_insert c1 vm StSnapshotted, Ok summary))
      | (rt, Inl e) \<Rightarrow> mark_failed c rt vm e)"

definition vm_snapshot ::
  "('x) control_env_scheme \<Rightarrow> control \<Rightarrow> string \<Rightarrow> string \<Rightarrow> control \<times> (control_error + string)" where
  "vm_snapshot X c vm name =
     (case registry_take c vm of
        (c1, Inl e) \<Rightarrow> (c1, Err e)
      | (c1, Inr st) \<Rightarrow>
     (case st of
        StPaused p \<Rightarrow> snapshot_paused X c1 vm name p
      | StRunning r \<Rightarrow>
          (case vm_pause_op X (ct_runtime c1) r of
             (rt, Inr p) \<Rightarrow> snapshot_paused X (c1\<lparr>ct_runtime := rt\<rparr>) vm name p
           | (rt, Inl e) \<Rightarrow> mark_failed c1 rt vm e)
      | other \<Rightarrow> registry_reject c1 vm ''snapshot'' ''running|paused'' other))"

definition vm_stop :: "('x) control_env_scheme \<Rightarrow> control \<Rightarrow> string \<Rightarrow> control \<times> (control_error + string)" where
  "vm_stop X c vm =
     (case registry_take c vm of
        (c1, Inl e) \<Rightarrow> (c1, Err e)
      | (c1, Inr st) \<Rightarrow>
     (case st of
        StRunning r \<Rightarrow>
          (case vm_stop_op X (ct_runtime c1) r of
             (rt, Inr s) \<Rightarrow>
               (registry_insert (c1\<lparr>ct_runtime := rt\<rparr>) vm (StStopped s), Ok (''stopped '' @ vm))
           | (rt, Inl e) \<Rightarrow> mark_failed c1 rt vm e)
      | other \<Rightarrow> registry_reject c1 vm ''stop'' ''running'' other))"

text \<open>The taken stage of \<open>vm_destroy\<close>; \<open>destroy\<close>'s third component is the guest as dropped.\<close>

definition destroy_taken :: "('x) control_env_scheme \<Rightarrow> control \<Rightarrow> string \<Rightarrow> control \<times> (control_error + string)" where
  "destroy_taken X c vm =
     (case registry_take c vm of
        (c1, Inl e) \<Rightarrow> (c1, Err e)
      | (c1, Inr st) \<Rightarrow>
     (case st of
        StStopped s \<Rightarrow>
          (case vm_destroy_op X (ct_runtime c1) s of
             (rt, Inr receipt, dropped) \<Rightarrow>
               (registry_insert (c1\<lparr>ct_runtime := rt\<rparr>) vm StDestroyed,
                Ok (''destroyed '' @ vm @ '': zeroized '' @ show_nat (dst_zeroized_ranges receipt)
                    @ '' range(s), receipt '' @ dst_receipt_id receipt @ '' @ '' @ dst_chain_head receipt))
           | (rt, Inl e, dropped) \<Rightarrow> mark_failed c1 rt vm e)
      | other \<Rightarrow> registry_reject c1 vm ''destroy'' ''stopped'' other))"

definition vm_destroy ::
  "('x) control_env_scheme \<Rightarrow> control \<Rightarrow> string \<Rightarrow> bool \<Rightarrow> control \<times> (control_error + string)" where
  "vm_destroy X c vm wipe =
     (case bt_get (ct_registry c) vm of
        None \<Rightarrow> (c, Err (CtlNotFound vm))
      | Some (StStopped s) \<Rightarrow>
          (if \<not> wipe then (c, Err (CtlWipeRequired vm)) else destroy_taken X c vm)
      | Some other \<Rightarrow> (c, Err (CtlInvalidState ''destroy'' vm (stage_state_name other) ''stopped'')))"

definition policy_inspect :: "('x) control_env_scheme \<Rightarrow> control \<Rightarrow> string" where
  "policy_inspect X c = env_policy_view_text X
     \<lparr>pvw_schema = CONTROL_POLICY_SCHEMA, pvw_schema_version = CONTROL_SCHEMA_VERSION,
      pvw_deny_by_default = True, pvw_hypervisor_version = rt_hypervisor_version (ct_runtime c),
      pvw_policy = ct_policy_doc c\<rparr>"

definition receipts_verify ::
  "('x) control_env_scheme \<Rightarrow> control \<Rightarrow> string option \<Rightarrow> control_error + string" where
  "receipts_verify X c vm =
     (let chain = rt_receipts (ct_runtime c) in
      case chain_verify X chain of
        Inl e \<Rightarrow> Err (CtlReceipt (chain_error_text e))
      | Inr _ \<Rightarrow>
          (let scoped = map_option (\<lambda>i. map (\<lambda>r. (rc_receipt_id r, rc_event r, rc_decision r))
                          (filter (\<lambda>r. rc_subject r = i) (ch_receipts chain))) vm
           in Ok (env_receipts_view_text X
             \<lparr>rvw_schema = CONTROL_RECEIPTS_SCHEMA, rvw_schema_version = CONTROL_SCHEMA_VERSION,
              rvw_valid = True, rvw_total = length (ch_receipts chain),
              rvw_head = chain_head_hash chain, rvw_vm = vm, rvw_vm_receipts = scoped\<rparr>)))"

end
