(* ===== verification/ControlPlane.thy ===== *)
theory ControlPlane
  imports Control System "HOL-Library.Multiset"
begin

text \<open>
  Sequences of commands of the control plane. The live machines of its registry, with its
  runtime, are always a reachable state of \<open>System\<close>: the control plane adds a name table and
  messages, and no way around a gate. A refused command leaves no trace.
\<close>

subsection \<open>More on the registry's map\<close>

lemma bt_remove_absent: "bt_get m k = None \<Longrightarrow> bt_remove k m = m"
  by (induction m) (auto simp: bt_get_def bt_remove_def split: if_splits)

lemma bt_remove_twice [simp]: "bt_remove k (bt_remove k m) = bt_remove k m"
  by (simp add: bt_remove_def)

lemma bt_remove_insert: "bt_remove k (bt_insert k v m) = bt_remove k m"
  by (induction k v m rule: bt_insert.induct) (auto simp: bt_remove_def)

lemma bt_sorted_Cons: "bt_sorted ((k, v) # m) \<longleftrightarrow> (\<forall>k' \<in> fst ` set m. k < k') \<and> bt_sorted m"
  by (auto simp: bt_sorted_def)

lemma bt_insert_front: "\<forall>k' \<in> fst ` set m. k < k' \<Longrightarrow> bt_insert k v m = (k, v) # m"
  by (cases m) auto

lemma bt_insert_remove: "bt_sorted m \<Longrightarrow> bt_insert k v (bt_remove k m) = bt_insert k v m"
proof (induction m)
  case (Cons a m)
  obtain k' v' where a: "a = (k', v')" by fastforce
  have rest: "bt_remove k m = m" if "k < k' \<or> k = k'"
    using Cons.prems that unfolding a bt_sorted_Cons bt_remove_def
    by (intro filter_True) (auto dest: order.strict_trans)
  have front: "bt_insert k v m = (k, v) # m" if "k = k'"
    using Cons.prems that by (intro bt_insert_front) (auto simp: a bt_sorted_Cons)
  have "bt_remove k (a # m) = (if k' = k then bt_remove k m else a # bt_remove k m)"
    by (simp add: a bt_remove_def)
  with Cons rest front show ?case by (auto simp: a bt_sorted_Cons)
qed (simp add: bt_remove_def)

lemma bt_insert_same: "bt_sorted m \<Longrightarrow> bt_get m k = Some v \<Longrightarrow> bt_insert k v m = m"
proof (induction m)
  case (Cons a m)
  obtain k' v' where a: "a = (k', v')" by fastforce
  show ?case
  proof (cases "k = k'")
    case False
    with Cons.prems have "(k, v) \<in> set m" by (auto simp: a bt_get_def dest: map_of_SomeD)
    with Cons.prems have "k' < k" by (force simp: a bt_sorted_Cons)
    with Cons False show ?thesis by (auto simp: a bt_sorted_Cons bt_get_def)
  qed (use Cons.prems in \<open>auto simp: a bt_get_def\<close>)
qed simp

subsection \<open>Live machines\<close>

definition stage_value :: "vm_stage \<Rightarrow> vm_value option" where
  "stage_value st = (case st of StDefined h \<Rightarrow> Some (DefinedVm h) | StVerified v \<Rightarrow> Some (VerifiedVm v)
     | StRunning r \<Rightarrow> Some (RunningVm r) | StPaused p \<Rightarrow> Some (PausedVm p)
     | StStopped s \<Rightarrow> Some (StoppedVm s) | _ \<Rightarrow> None)"

lemma stage_value_simps [simp]:
  "stage_value (StDefined h) = Some (DefinedVm h)" "stage_value (StVerified v) = Some (VerifiedVm v)"
  "stage_value (StRunning r) = Some (RunningVm r)" "stage_value (StPaused p) = Some (PausedVm p)"
  "stage_value (StStopped s) = Some (StoppedVm s)" "stage_value StDestroyed = None"
  "stage_value StSnapshotted = None" "stage_value (StFailed m) = None"
  by (simp_all add: stage_value_def)

definition opt_bag :: "'a option \<Rightarrow> 'a multiset" where
  "opt_bag x = (case x of None \<Rightarrow> {#} | Some y \<Rightarrow> {#y#})"

lemma opt_bag_simps [simp]: "opt_bag None = {#}" "opt_bag (Some y) = {#y#}"
  by (simp_all add: opt_bag_def)

definition live_bag :: "(string, vm_stage) btree_map \<Rightarrow> vm_value multiset" where
  "live_bag m = (\<Sum>(k, st)\<leftarrow>m. opt_bag (stage_value st))"

lemma live_bag_Nil [simp]: "live_bag [] = {#}"
  and live_bag_Cons [simp]: "live_bag ((k, st) # m) = opt_bag (stage_value st) + live_bag m"
  by (simp_all add: live_bag_def)

lemma live_bag_split:
  "bt_sorted m \<Longrightarrow> live_bag m = opt_bag (Option.bind (bt_get m k) stage_value) + live_bag (bt_remove k m)"
proof (induction m)
  case (Cons a m)
  obtain k' st where a: "a = (k', st)" by fastforce
  show ?case
  proof (cases "k' = k")
    case True
    with Cons.prems have "bt_get m k = None"
      by (auto simp: a bt_sorted_Cons bt_get_def map_of_eq_None_iff)
    then have "bt_remove k m = m" by (rule bt_remove_absent)
    with True show ?thesis by (simp add: a bt_get_def) (simp add: bt_remove_def)
  next
    case False
    with Cons show ?thesis by (simp add: a bt_sorted_Cons bt_get_def) (simp add: bt_remove_def add_ac)
  qed
qed (simp add: bt_remove_def)

lemma live_bag_insert:
  "bt_sorted m \<Longrightarrow> live_bag (bt_insert k st m) = opt_bag (stage_value st) + live_bag (bt_remove k m)"
  using live_bag_split [where k = k, OF bt_sorted_insert] by (simp add: bt_remove_insert)

subsection \<open>Reachable systems up to the order of their machines\<close>

definition slate_bag ::
  "('x) attest_env_scheme \<Rightarrow> signature_verifier \<Rightarrow> policy_document \<Rightarrow> kms_policy \<Rightarrow> u64 \<Rightarrow> slate_runtime
     \<Rightarrow> vm_value multiset \<Rightarrow> bool" where
  "slate_bag X check doc kms hv rt M \<longleftrightarrow> (\<exists>vs. mset vs = M \<and> slate_reachable X check doc kms hv (rt, vs))"

lemma slate_bag_new: "slate_bag X check doc kms hv (runtime_new doc kms hv) {#}"
  using reach_new by (force simp: slate_bag_def)

lemma slate_bag_define:
  assumes "slate_bag X check doc kms hv rt M" "verified_by check hv' bp (vc_manifest c)"
    "vm_define_op X rt c = (rt', Ok h)"
  shows "slate_bag X check doc kms hv rt' (add_mset (DefinedVm h) M)"
proof -
  from assms(1) obtain vs where "mset vs = M" "slate_reachable X check doc kms hv (rt, vs)"
    by (auto simp: slate_bag_def)
  with reach_step [OF _ sys_define [OF assms(2,3)]] show ?thesis
    unfolding slate_bag_def by (intro exI [of _ "vs @ [DefinedVm h]"]) auto
qed

lemma slate_bag_obtain:
  assumes "slate_bag X check doc kms hv rt (add_mset v M)"
  obtains vs ws where "slate_reachable X check doc kms hv (rt, vs @ v # ws)" "mset (vs @ ws) = M"
proof -
  from assms obtain us where us: "mset us = add_mset v M" "slate_reachable X check doc kms hv (rt, us)"
    by (auto simp: slate_bag_def)
  then have "v \<in> set us" by (metis set_mset_mset union_single_eq_member)
  then obtain vs ws where "us = vs @ v # ws" by (meson split_list)
  with us that show thesis by simp
qed

lemma slate_bag_step:
  assumes "slate_bag X check doc kms hv rt (add_mset v M)" "vm_step X rt v rt' out"
  shows "slate_bag X check doc kms hv rt' (opt_bag out + M)"
proof -
  from assms(1) obtain vs ws where r: "slate_reachable X check doc kms hv (rt, vs @ v # ws)" "mset (vs @ ws) = M"
    by (rule slate_bag_obtain)
  show ?thesis
  proof (cases out)
    case None
    with reach_step [OF r(1) sys_end] assms(2) r(2) show ?thesis
      unfolding slate_bag_def by (intro exI [of _ "vs @ ws"]) auto
  next
    case (Some v')
    with reach_step [OF r(1) sys_step] assms(2) r(2) show ?thesis
      unfolding slate_bag_def by (intro exI [of _ "vs @ v' # ws"]) auto
  qed
qed

lemma slate_bag_drop:
  assumes "slate_bag X check doc kms hv rt (opt_bag out + M)"
  shows "slate_bag X check doc kms hv rt M"
proof (cases out)
  case (Some v)
  with assms obtain vs ws where r: "slate_reachable X check doc kms hv (rt, vs @ v # ws)" "mset (vs @ ws) = M"
    by (auto elim: slate_bag_obtain)
  from reach_step [OF r(1) sys_drop] r(2) show ?thesis unfolding slate_bag_def by blast
qed (use assms in simp)

text \<open>One or more operations on one machine.\<close>

definition evolves ::
  "('x) attest_env_scheme \<Rightarrow> slate_runtime \<Rightarrow> vm_value \<Rightarrow> slate_runtime \<Rightarrow> vm_value option \<Rightarrow> bool" where
  "evolves X rt v rt' out \<longleftrightarrow>
     (\<forall>check doc kms hv M. slate_bag X check doc kms hv rt (add_mset v M)
        \<longrightarrow> slate_bag X check doc kms hv rt' (opt_bag out + M))
     \<and> (\<forall>v'. out = Some v' \<longrightarrow> value_vm_id v' = value_vm_id v)"

lemma evolves_step: "vm_step X rt v rt' out \<Longrightarrow> evolves X rt v rt' out"
  unfolding evolves_def using slate_bag_step vm_step_trail by blast

lemma evolves_trans: "evolves X rt v rt1 (Some v1) \<Longrightarrow> evolves X rt1 v1 rt2 out \<Longrightarrow> evolves X rt v rt2 out"
  by (simp add: evolves_def)

lemmas evolves_ops =
  vm_step.step_verify [THEN evolves_step] vm_step.step_prepare [THEN evolves_step]
  vm_step.step_unlock [THEN evolves_step] vm_step.step_attach [THEN evolves_step]
  vm_step.step_run [THEN evolves_step] vm_step.step_pause [THEN evolves_step]
  vm_step.step_snapshot [THEN evolves_step] vm_step.step_stop [THEN evolves_step]
  vm_step.step_destroy [THEN evolves_step]

lemma evolves_launch:
  assumes "drive_to_running X rt v = (rt', r)"
  shows "evolves X rt (VerifiedVm v) rt' (outcome RunningVm r)"
proof -
  obtain rt1 p where p: "vm_prepare_op X rt v = (rt1, p)" by fastforce
  note e1 = evolves_ops(2) [OF p]
  show ?thesis
  proof (cases p)
    case (Inl e)
    with p e1 assms show ?thesis by (auto simp: drive_to_running_def)
  next
    case P: (Inr p1)
    obtain rt2 u where u: "vm_unlock_op X rt1 p1 = (rt2, u)" by fastforce
    note e2 = evolves_trans [OF e1 [unfolded P outcome_simps] evolves_ops(3) [OF u]]
    show ?thesis
    proof (cases u)
      case (Inl e)
      with p P u e2 assms show ?thesis by (auto simp: drive_to_running_def)
    next
      case U: (Inr u1)
      obtain rt3 a where a: "vm_attach_op X rt2 u1 = (rt3, a)" by fastforce
      note e3 = evolves_trans [OF e2 [unfolded U outcome_simps] evolves_ops(4) [OF a]]
      show ?thesis
      proof (cases a)
        case (Inl e)
        with p P u U a e3 assms show ?thesis by (auto simp: drive_to_running_def)
      next
        case A: (Inr a1)
        with assms p P u U a have "vm_run_op X rt3 a1 = (rt', r)" by (simp add: drive_to_running_def)
        with evolves_trans [OF e3 [unfolded A outcome_simps] evolves_ops(5)] show ?thesis by simp
      qed
    qed
  qed
qed

subsection \<open>Commands\<close>

datatype control_command =
    CmdDefine string
  | CmdVerify string
  | CmdLaunch string
  | CmdPause string
  | CmdSnapshot string string
  | CmdStop string
  | CmdDestroy string bool

definition control_step ::
  "('x) control_env_scheme \<Rightarrow> control \<Rightarrow> control_command \<Rightarrow> control \<times> (control_error + string)" where
  "control_step X c cmd = (case cmd of CmdDefine json \<Rightarrow> vm_define X c json
     | CmdVerify vm \<Rightarrow> vm_verify X c vm | CmdLaunch vm \<Rightarrow> vm_launch X c vm
     | CmdPause vm \<Rightarrow> vm_pause X c vm | CmdSnapshot vm name \<Rightarrow> vm_snapshot X c vm name
     | CmdStop vm \<Rightarrow> vm_stop X c vm | CmdDestroy vm wipe \<Rightarrow> vm_destroy X c vm wipe)"

definition control_run :: "('x) control_env_scheme \<Rightarrow> control_command list \<Rightarrow> control \<Rightarrow> control" where
  "control_run X cmds c = fold (\<lambda>cmd c. fst (control_step X c cmd)) cmds c"

definition command_target :: "control_command \<Rightarrow> string option" where
  "command_target cmd = (case cmd of CmdDefine json \<Rightarrow> None
     | CmdVerify vm \<Rightarrow> Some vm | CmdLaunch vm \<Rightarrow> Some vm | CmdPause vm \<Rightarrow> Some vm
     | CmdSnapshot vm name \<Rightarrow> Some vm | CmdStop vm \<Rightarrow> Some vm | CmdDestroy vm wipe \<Rightarrow> Some vm)"

text \<open>
  What a command can do: be refused, replace the stage of its target by the outcome of
  operations on it, or define a machine.
\<close>

inductive control_effect ::
  "('x) control_env_scheme \<Rightarrow> control \<Rightarrow> string option \<Rightarrow> control \<Rightarrow> control_error + string \<Rightarrow> bool" for X c where
  effect_refused: "(\<And>v. e \<noteq> CtlVm v) \<Longrightarrow> control_effect X c t c (Err e)"
| effect_stage: "bt_get (ct_registry c) vm = Some st \<Longrightarrow> stage_value st = Some v
    \<Longrightarrow> evolves X (ct_runtime c) v rt' (stage_value st')
    \<Longrightarrow> (case r of Inl e \<Rightarrow> \<exists>w. e = CtlVm w \<and> st' = StFailed (vm_error_text w) | Inr m \<Rightarrow> True)
    \<Longrightarrow> control_effect X c (Some vm)
          (c\<lparr>ct_runtime := rt', ct_registry := bt_insert vm st' (ct_registry c), ct_snapshots := sn\<rparr>) r"
| effect_define: "verified_by (allowlist_verify ks) (rt_hypervisor_version (ct_runtime c)) bp (vc_manifest capsule)
    \<Longrightarrow> vm_define_op X (ct_runtime c) capsule = (rt', Ok h)
    \<Longrightarrow> control_effect X c None
          (c\<lparr>ct_runtime := rt', ct_registry := bt_insert (vh_vm_id h) (StDefined h) (ct_registry c)\<rparr>)
          (Ok (vh_vm_id h))"

lemma take_unknown: "bt_get (ct_registry c) vm = None \<Longrightarrow> registry_take c vm = (c, Err (CtlNotFound vm))"
  by (simp add: registry_take_def bt_remove_absent)

lemma take_known:
  "bt_get (ct_registry c) vm = Some st \<Longrightarrow>
     registry_take c vm = (c\<lparr>ct_registry := bt_remove vm (ct_registry c)\<rparr>, Ok st)"
  by (simp add: registry_take_def)

lemma insert_after_take:
  "bt_sorted (ct_registry c) \<Longrightarrow>
     registry_insert (c\<lparr>ct_registry := bt_remove vm (ct_registry c), ct_runtime := rt'\<rparr>) vm st =
     c\<lparr>ct_runtime := rt', ct_registry := bt_insert vm st (ct_registry c)\<rparr>"
  by (simp add: registry_insert_def bt_insert_remove)

lemma reject_after_take:
  "bt_sorted (ct_registry c) \<Longrightarrow> bt_get (ct_registry c) vm = Some st \<Longrightarrow>
     registry_reject (c\<lparr>ct_registry := bt_remove vm (ct_registry c)\<rparr>) vm action needed st =
     (c, Err (CtlInvalidState action vm (stage_state_name st) needed))"
  by (simp add: registry_reject_def registry_insert_def Let_def bt_insert_remove bt_insert_same)

lemma failed_after_take:
  "bt_sorted (ct_registry c) \<Longrightarrow>
     mark_failed (c\<lparr>ct_registry := bt_remove vm (ct_registry c), ct_runtime := rt0\<rparr>) rt' vm e =
     (c\<lparr>ct_runtime := rt', ct_registry := bt_insert vm (StFailed (vm_error_text e)) (ct_registry c)\<rparr>, Err (CtlVm e))"
  "bt_sorted (ct_registry c) \<Longrightarrow>
     mark_failed (c\<lparr>ct_registry := bt_remove vm (ct_registry c)\<rparr>) rt' vm e =
     (c\<lparr>ct_runtime := rt', ct_registry := bt_insert vm (StFailed (vm_error_text e)) (ct_registry c)\<rparr>, Err (CtlVm e))"
  by (simp_all add: mark_failed_def registry_insert_def bt_insert_remove)

lemmas after_take = insert_after_take reject_after_take failed_after_take

lemma effect_stage_ok:
  assumes "bt_get (ct_registry c) vm = Some st" "stage_value st = Some v"
    "evolves X (ct_runtime c) v rt' (stage_value st')"
  shows "control_effect X c (Some vm)
    (c\<lparr>ct_runtime := rt', ct_registry := bt_insert vm st' (ct_registry c)\<rparr>) (Ok m)"
  using effect_stage [OF assms, of "Ok m" "ct_snapshots c"] by simp

lemma effect_stage_failed:
  assumes "bt_get (ct_registry c) vm = Some st" "stage_value st = Some v" "evolves X (ct_runtime c) v rt' None"
  shows "control_effect X c (Some vm)
    (c\<lparr>ct_runtime := rt', ct_registry := bt_insert vm (StFailed (vm_error_text e)) (ct_registry c)\<rparr>) (Err (CtlVm e))"
  using effect_stage [OF assms(1,2), of X rt' "StFailed (vm_error_text e)" "Err (CtlVm e)" "ct_snapshots c"]
    assms(3) by simp

lemma effect_refused_eq:
  "c' = c \<Longrightarrow> r = Err e \<Longrightarrow> (\<And>v. e \<noteq> CtlVm v) \<Longrightarrow> control_effect X c t c' r"
  using effect_refused by blast

text \<open>Every command but \<open>vm_define\<close> and \<open>vm_destroy\<close> takes the stage, and rejects a wrong one.\<close>

lemma verify_effect:
  assumes "bt_sorted (ct_registry c)" "vm_verify X c vm = (c', r)"
  shows "control_effect X c (Some vm) c' r"
proof (cases "bt_get (ct_registry c) vm")
  case None
  with assms(2) show ?thesis by (auto simp: vm_verify_def take_unknown intro: effect_refused)
next
  case (Some st)
  note S = this
  show ?thesis
  proof (cases st)
    case (StDefined h)
    obtain rt q where q: "vm_verify_op X (ct_runtime c) h = (rt, q)" by fastforce
    note e = evolves_ops(1) [OF q]
    show ?thesis
      using assms q S StDefined e
      by (cases q) (auto simp: vm_verify_def take_known after_take intro!: effect_stage_ok effect_stage_failed)
  qed (use assms S in \<open>auto simp: vm_verify_def take_known after_take intro!: effect_refused\<close>)
qed

lemma launch_effect:
  assumes "bt_sorted (ct_registry c)" "vm_launch X c vm = (c', r)"
  shows "control_effect X c (Some vm) c' r"
proof (cases "bt_get (ct_registry c) vm")
  case None
  with assms(2) show ?thesis by (auto simp: vm_launch_def take_unknown intro: effect_refused)
next
  case (Some st)
  note S = this
  show ?thesis
  proof (cases st)
    case (StVerified v)
    obtain rt q where q: "drive_to_running X (ct_runtime c) v = (rt, q)" by fastforce
    note e = evolves_launch [OF q]
    show ?thesis
      using assms q S StVerified e
      by (cases q) (auto simp: vm_launch_def take_known after_take intro!: effect_stage_ok effect_stage_failed)
  qed (use assms S in \<open>auto simp: vm_launch_def take_known after_take intro!: effect_refused\<close>)
qed

lemma pause_effect:
  assumes "bt_sorted (ct_registry c)" "vm_pause X c vm = (c', r)"
  shows "control_effect X c (Some vm) c' r"
proof (cases "bt_get (ct_registry c) vm")
  case None
  with assms(2) show ?thesis by (auto simp: vm_pause_def take_unknown intro: effect_refused)
next
  case (Some st)
  note S = this
  show ?thesis
  proof (cases st)
    case (StRunning v)
    obtain rt q where q: "vm_pause_op X (ct_runtime c) v = (rt, q)" by fastforce
    note e = evolves_ops(6) [OF q]
    show ?thesis
      using assms q S StRunning e
      by (cases q) (auto simp: vm_pause_def take_known after_take intro!: effect_stage_ok effect_stage_failed)
  qed (use assms S in \<open>auto simp: vm_pause_def take_known after_take intro!: effect_refused\<close>)
qed

lemma stop_effect:
  assumes "bt_sorted (ct_registry c)" "vm_stop X c vm = (c', r)"
  shows "control_effect X c (Some vm) c' r"
proof (cases "bt_get (ct_registry c) vm")
  case None
  with assms(2) show ?thesis by (auto simp: vm_stop_def take_unknown intro: effect_refused)
next
  case (Some st)
  note S = this
  show ?thesis
  proof (cases st)
    case (StRunning v)
    obtain rt q where q: "vm_stop_op X (ct_runtime c) v = (rt, q)" by fastforce
    note e = evolves_ops(8) [OF q]
    show ?thesis
      using assms q S StRunning e
      by (cases q) (auto simp: vm_stop_def take_known after_take intro!: effect_stage_ok effect_stage_failed)
  qed (use assms S in \<open>auto simp: vm_stop_def take_known after_take intro!: effect_refused\<close>)
qed

lemma destroy_effect:
  assumes "bt_sorted (ct_registry c)" "vm_destroy X c vm wipe = (c', r)"
  shows "control_effect X c (Some vm) c' r"
proof (cases "bt_get (ct_registry c) vm")
  case None
  with assms(2) show ?thesis by (auto simp: vm_destroy_def intro: effect_refused)
next
  case (Some st)
  note S = this
  show ?thesis
  proof (cases st)
    case (StStopped s)
    obtain rt q d where q: "vm_destroy_op X (ct_runtime c) s = (rt, q, d)" by (metis prod.exhaust)
    note e = evolves_ops(9) [OF q]
    show ?thesis
      using assms q S StStopped e
      by (cases wipe; cases q) (auto simp: vm_destroy_def destroy_taken_def take_known after_take
          intro!: effect_stage_ok effect_stage_failed effect_refused)
  qed (use assms S in \<open>auto simp: vm_destroy_def intro!: effect_refused\<close>)
qed

lemma snapshot_paused_effect:
  assumes "bt_sorted (ct_registry c)" "bt_get (ct_registry c) vm = Some st" "stage_value st = Some v"
    "evolves X (ct_runtime c) v rt (Some (PausedVm p))"
    "snapshot_paused X (c\<lparr>ct_registry := bt_remove vm (ct_registry c), ct_runtime := rt\<rparr>) vm name p = (c', r)"
  shows "control_effect X c (Some vm) c' r"
proof -
  obtain rt' q where q: "vm_snapshot_op X rt p = (rt', q)" by fastforce
  note e = evolves_trans [OF assms(4) evolves_ops(7) [OF q]]
  show ?thesis
  proof (cases q)
    case (Inl x)
    with assms q e show ?thesis
      by (auto simp: snapshot_paused_def after_take intro!: effect_stage_failed)
  next
    case (Inr receipt)
    have "control_effect X c (Some vm)
        (c\<lparr>ct_runtime := rt', ct_registry := bt_insert vm StSnapshotted (ct_registry c),
           ct_snapshots := bt_insert name receipt (ct_snapshots c)\<rparr>) (Ok m)" for m
      by (rule effect_stage [OF assms(2,3)]) (use e in simp_all)
    moreover have "c\<lparr>ct_runtime := rt', ct_registry := R, ct_snapshots := S\<rparr> =
        c\<lparr>ct_runtime := rt', ct_snapshots := S, ct_registry := R\<rparr>" for R S
      by (cases c) simp
    ultimately show ?thesis using assms(1,5) q Inr
      by (auto simp: snapshot_paused_def registry_insert_def Let_def bt_insert_remove)
  qed
qed

lemma snapshot_effect:
  assumes "bt_sorted (ct_registry c)" "vm_snapshot X c vm name = (c', r)"
  shows "control_effect X c (Some vm) c' r"
proof (cases "bt_get (ct_registry c) vm")
  case None
  with assms(2) show ?thesis by (auto simp: vm_snapshot_def take_unknown intro: effect_refused)
next
  case (Some st)
  note S = this
  show ?thesis
  proof (cases st)
    case (StRunning v)
    obtain rt q where q: "vm_pause_op X (ct_runtime c) v = (rt, q)" by fastforce
    note e = evolves_ops(6) [OF q]
    show ?thesis
    proof (cases q)
      case (Inr p)
      show ?thesis
        by (rule snapshot_paused_effect [OF assms(1) S, where v = "RunningVm v" and rt = rt and p = p])
           (use assms q e Inr S StRunning in \<open>auto simp: vm_snapshot_def take_known\<close>)
    qed (use assms q e S StRunning in \<open>auto simp: vm_snapshot_def take_known after_take intro!: effect_stage_failed\<close>)
  next
    case (StPaused p)
    have "evolves X (ct_runtime c) (PausedVm p) (ct_runtime c) (Some (PausedVm p))"
      by (simp add: evolves_def)
    then show ?thesis
      by (rule snapshot_paused_effect [OF assms(1) S, rotated])
         (use assms S StPaused in \<open>auto simp: vm_snapshot_def take_known\<close>)
  qed (use assms S in \<open>auto simp: vm_snapshot_def take_known after_take intro!: effect_refused\<close>)
qed

lemma into_capsule_Ok:
  assumes "into_capsule X spec hv = Ok c"
  shows "verified_by (allowlist_verify (ccs_allowed_key_ids spec)) hv (vp_tenant_min_boot_policy (ccs_policy spec)) (vc_manifest c)"
  using assms by (auto simp: into_capsule_def verified_by_def split: if_splits sum.splits)

lemma into_capsule_Err: "into_capsule X spec hv = Err e \<Longrightarrow> e \<noteq> CtlVm v"
  by (auto simp: into_capsule_def split: if_splits sum.splits)

lemma define_effect:
  assumes "vm_define X c json = (c', r)"
  shows "control_effect X c None c' r"
proof (cases "env_control_parse X json")
  case (Inl e)
  with assms show ?thesis by (auto simp: vm_define_def intro: effect_refused)
next
  case P: (Inr spec)
  show ?thesis
  proof (cases "into_capsule X spec (rt_hypervisor_version (ct_runtime c))")
    case (Inl e)
    with assms P into_capsule_Err [OF Inl] show ?thesis by (auto simp: vm_define_def intro!: effect_refused)
  next
    case (Inr capsule)
    obtain rt h where d: "vm_define_op X (ct_runtime c) capsule = (rt, Ok h)" by (simp add: define_op_eq)
    from effect_define [OF into_capsule_Ok [OF Inr] d] show ?thesis
      using assms P Inr d by (auto simp: vm_define_def registry_insert_def Let_def)
  qed
qed

lemma control_step_effect:
  assumes "bt_sorted (ct_registry c)"
  shows "control_effect X c (command_target cmd) (fst (control_step X c cmd)) (snd (control_step X c cmd))"
  using assms
  by (cases cmd) (simp_all add: control_step_def command_target_def define_effect verify_effect launch_effect
      pause_effect snapshot_effect stop_effect destroy_effect)

subsection \<open>The invariant of the control plane\<close>

text \<open>
  The signature check that a control plane's machines are known to have passed: some
  signature names an accepted algorithm.
\<close>

definition self_check :: signature_verifier where
  "self_check m = allowlist_verify (map sg_key_id (um_signatures m)) m"

lemma allowlist_self_check: "allowlist_verify ks m = SigValid \<Longrightarrow> self_check m = SigValid"
  by (auto simp: self_check_def allowlist_valid_iff)

lemma verified_by_self: "verified_by (allowlist_verify ks) hv bp w \<Longrightarrow> verified_by self_check hv bp w"
  by (auto simp: verified_by_def capsule_verify_Ok_iff allowlist_self_check)

definition control_inv ::
  "('x) control_env_scheme \<Rightarrow> policy_document \<Rightarrow> kms_policy \<Rightarrow> u64 \<Rightarrow> control \<Rightarrow> bool" where
  "control_inv X doc kms hv c \<longleftrightarrow>
     bt_sorted (ct_registry c) \<and> ct_policy_doc c = doc
     \<and> (\<forall>vm st v. bt_get (ct_registry c) vm = Some st \<longrightarrow> stage_value st = Some v \<longrightarrow> value_vm_id v = vm)
     \<and> slate_bag X self_check doc kms hv (ct_runtime c) (live_bag (ct_registry c))"

lemma control_inv_new: "control_inv X doc kms hv (control_new doc kms hv)"
  by (simp add: control_inv_def control_new_def slate_bag_new)

lemma control_inv_effect:
  assumes "control_effect X c t c' r" "control_inv X doc kms hv c"
  shows "control_inv X doc kms hv c'"
  using assms
proof cases
  case (effect_stage vm st v rt' st' sn)
  let ?rest = "live_bag (bt_remove vm (ct_registry c))"
  have sorted: "bt_sorted (ct_registry c)" and doc: "ct_policy_doc c = doc"
    and own: "\<And>w s v. bt_get (ct_registry c) w = Some s \<Longrightarrow> stage_value s = Some v \<Longrightarrow> value_vm_id v = w"
    and bag: "slate_bag X self_check doc kms hv (ct_runtime c) (live_bag (ct_registry c))"
    using assms(2) by (auto simp: control_inv_def)
  have "live_bag (ct_registry c) = add_mset v ?rest"
    using live_bag_split [OF sorted, of vm] effect_stage(3,4) by simp
  with bag effect_stage(5) have "slate_bag X self_check doc kms hv rt' (opt_bag (stage_value st') + ?rest)"
    by (simp add: evolves_def)
  moreover have "value_vm_id v' = vm" if "stage_value st' = Some v'" for v'
    using own [OF effect_stage(3,4)] effect_stage(5) that by (simp add: evolves_def)
  ultimately show ?thesis
    using sorted doc own unfolding effect_stage(2)
    by (auto simp: control_inv_def live_bag_insert split: if_splits)
next
  case (effect_define ks bp capsule rt' h)
  let ?vm = "vh_vm_id h"
  let ?rest = "live_bag (bt_remove ?vm (ct_registry c))"
  have sorted: "bt_sorted (ct_registry c)" and doc: "ct_policy_doc c = doc"
    and own: "\<And>w s v. bt_get (ct_registry c) w = Some s \<Longrightarrow> stage_value s = Some v \<Longrightarrow> value_vm_id v = w"
    and bag: "slate_bag X self_check doc kms hv (ct_runtime c) (live_bag (ct_registry c))"
    using assms(2) by (auto simp: control_inv_def)
  from bag have "slate_bag X self_check doc kms hv (ct_runtime c) ?rest"
    unfolding live_bag_split [OF sorted, of ?vm] by (rule slate_bag_drop)
  from slate_bag_define [OF this verified_by_self [OF effect_define(4)] effect_define(5)]
  show ?thesis using sorted doc own unfolding effect_define(2)
    by (auto simp: control_inv_def live_bag_insert value_vm_id_def split: if_splits)
qed simp

lemma control_run_inv: "control_inv X doc kms hv c \<Longrightarrow> control_inv X doc kms hv (control_run X cmds c)"
proof (induction cmds arbitrary: c)
  case (Cons cmd cmds)
  have "bt_sorted (ct_registry c)" using Cons.prems by (simp add: control_inv_def)
  from Cons.IH [OF control_inv_effect [OF control_step_effect [OF this, of X cmd] Cons.prems]]
  show ?case by (simp add: control_run_def)
qed (simp add: control_run_def)

lemmas control_run_new_inv = control_run_inv [OF control_inv_new]

subsection \<open>Properties\<close>

text \<open>C5: The control plane refines the lifecycle system. After any sequence of commands, the
  machines in the registry together with the runtime form a reachable state of the system,
  so every property of reachable systems holds of them; each machine is registered under its
  own id; and the receipt check, over all machines or one, succeeds.\<close>

theorem control_refines_system:
  "let c = control_run X cmds (control_new doc kms hv) in
     (\<exists>vs. slate_reachable X self_check doc kms hv (ct_runtime c, vs) \<and> mset vs = live_bag (ct_registry c))
   \<and> (\<forall>vm. case Option.bind (bt_get (ct_registry c) vm) stage_value of
         None \<Rightarrow> True | Some v \<Rightarrow> value_vm_id v = vm)
   \<and> is_ok (receipts_verify X c scope)"
proof -
  let ?c = "control_run X cmds (control_new doc kms hv)"
  have inv: "control_inv X doc kms hv ?c" by (rule control_run_new_inv)
  then obtain vs where vs: "slate_reachable X self_check doc kms hv (ct_runtime ?c, vs)" "mset vs = live_bag (ct_registry ?c)"
    by (auto simp: control_inv_def slate_bag_def)
  have "is_ok (receipts_verify X ?c scope)"
    using slate_reachable_inv [OF vs(1)] by (simp add: receipts_verify_def slate_inv_def Let_def)
  with vs inv show ?thesis
    by (auto simp: Let_def control_inv_def split: option.splits Option.bind_splits)
qed

text \<open>C11: A failed command leaves no trace but a refusal by the lifecycle. For an unknown
  machine, a wrong state, a missing confirmation, a malformed or unverifiable descriptor, the
  control plane is exactly as before; when a lifecycle operation refuses, the target, and
  only the target, is marked failed with the text of the error.\<close>

theorem refused_commands_leave_no_trace:
  "let c = control_run X cmds (control_new doc kms hv) in
   case control_step X c cmd of
     (c', Inr message) \<Rightarrow> True
   | (c', Inl (CtlVm e)) \<Rightarrow> \<exists>vm. command_target cmd = Some vm
       \<and> ct_registry c' = bt_insert vm (StFailed (vm_error_text e)) (ct_registry c)
   | (c', Inl e) \<Rightarrow> c' = c"
proof -
  let ?c = "control_run X cmds (control_new doc kms hv)"
  obtain c' r where cr: "control_step X ?c cmd = (c', r)" by fastforce
  have "bt_sorted (ct_registry ?c)"
    using control_run_new_inv [of X doc kms hv cmds] by (simp add: control_inv_def)
  from control_step_effect [OF this, of X cmd] have "control_effect X ?c (command_target cmd) c' r"
    by (simp add: cr)
  then show ?thesis
    by cases (auto simp: cr Let_def split: sum.splits control_error.splits)
qed

lemma into_capsule_ok_iff:
  "(\<exists>c. into_capsule X spec hv = Ok c \<and> um_vm_id (vm_inner (vc_manifest c)) = vm) \<longleftrightarrow>
     ccs_schema spec = CONTROL_CAPSULE_SCHEMA \<and>
     (\<exists>m. parse_manifest X (ccs_manifest spec) = Ok m \<and> um_vm_id m = vm
        \<and> (\<exists>sg. sg \<in> set (um_signatures m) \<and> sg_alg sg \<in> set ALLOWED_ALGS \<and> sg_key_id sg \<in> set (ccs_allowed_key_ids spec))
        \<and> um_hypervisor_min_version m \<le> hv
        \<and> vp_tenant_min_boot_policy (ccs_policy spec) \<le> um_boot_policy_version m)"
proof (cases "ccs_schema spec = CONTROL_CAPSULE_SCHEMA")
  case True
  show ?thesis
  proof (cases "parse_manifest X (ccs_manifest spec)")
    case (Inr m)
    let ?v = "capsule_verify m (allowlist_verify (ccs_allowed_key_ids spec)) hv (vp_tenant_min_boot_policy (ccs_policy spec))"
    have "(\<exists>c. into_capsule X spec hv = Ok c \<and> um_vm_id (vm_inner (vc_manifest c)) = vm) \<longleftrightarrow>
        (\<exists>w. ?v = Ok w \<and> um_vm_id (vm_inner w) = vm)"
      using True Inr by (cases ?v) (auto simp: into_capsule_def)
    also have "\<dots> \<longleftrightarrow> um_vm_id m = vm \<and> (\<exists>w. ?v = Ok w)"
      by (auto simp: capsule_verify_Ok_iff)
    finally show ?thesis
      using True Inr by (auto simp: capsule_verify_Ok_iff allowlist_valid_iff)
  qed (use True in \<open>simp add: into_capsule_def\<close>)
qed (simp add: into_capsule_def)

text \<open>C10: What \<open>vm define\<close> checks, exactly: the descriptor decodes and has the right schema, its
  manifest decodes and has the right schema, the hypervisor and boot policy floors are met,
  and some signature names an accepted algorithm and a key id that the descriptor itself
  lists as trusted. An accepted machine replaces whatever the registry had under its id, in
  any state, and the chain gains the event of the definition and nothing for the machine it
  replaced; a refused one changes nothing.\<close>

theorem define_trusts_the_descriptor:
  "(snd (vm_define X c json) = Ok vm \<longleftrightarrow>
     (\<exists>spec m. env_control_parse X json = Ok spec \<and> ccs_schema spec = CONTROL_CAPSULE_SCHEMA
        \<and> parse_manifest X (ccs_manifest spec) = Ok m \<and> um_vm_id m = vm
        \<and> (\<exists>sg. sg \<in> set (um_signatures m) \<and> sg_alg sg \<in> set ALLOWED_ALGS
              \<and> sg_key_id sg \<in> set (ccs_allowed_key_ids spec))
        \<and> um_hypervisor_min_version m \<le> rt_hypervisor_version (ct_runtime c)
        \<and> vp_tenant_min_boot_policy (ccs_policy spec) \<le> um_boot_policy_version m))
   \<and> (case vm_define X c json of
        (c', Inl e) \<Rightarrow> c' = c
      | (c', Inr vm') \<Rightarrow>
          (\<exists>h. vh_vm_id h = vm' \<and> ct_registry c' = bt_insert vm' (StDefined h) (ct_registry c))
        \<and> allowed_events w (rt_receipts (ct_runtime c'))
          = allowed_events w (rt_receipts (ct_runtime c)) @ (if w = vm' then [''vm_define''] else []))"
proof (cases "env_control_parse X json")
  case (Inl e)
  then show ?thesis by (simp add: vm_define_def)
next
  case P: (Inr spec)
  let ?hv = "rt_hypervisor_version (ct_runtime c)"
  note iff = into_capsule_ok_iff [of X spec ?hv vm]
  show ?thesis
  proof (cases "into_capsule X spec ?hv")
    case (Inl e)
    with iff P show ?thesis by (simp add: vm_define_def)
  next
    case (Inr capsule)
    have "snd (vm_define X c json) = Ok vm \<longleftrightarrow> um_vm_id (vm_inner (vc_manifest capsule)) = vm"
      using P Inr by (simp add: vm_define_def define_op_eq Let_def)
    with iff P Inr show ?thesis
      by (simp add: vm_define_def define_op_eq registry_insert_def Let_def)
         (metis vm_handle.select_convs(2))
  qed
qed

end
