(* ===== verification/MachineLife.thy ===== *)
theory MachineLife
  imports ControlPlane
begin

text \<open>
  The whole life of one machine through the commands of the control plane: which descriptors
  make define, verify, launch, stop and destroy succeed one after the other, whatever the
  control plane did before, and what is left of a machine that a gate refuses.
\<close>

subsection \<open>What operations add to the log\<close>

text \<open>An entry of the log: the event, the machine and the decision of a receipt.\<close>

type_synonym log_entry = "string \<times> vm_id \<times> string"

definition chain_log :: "receipt_chain \<Rightarrow> log_entry list" where
  "chain_log c = map (\<lambda>r. (rc_event r, rc_subject r, rc_decision r)) (ch_receipts c)"

lemma chain_log_new [simp]: "chain_log receipt_chain_new = []"
  by (simp add: chain_log_def receipt_chain_new_def)

lemma chain_log_append [simp]:
  "chain_log (chain_append X c ev vm dec pol inp) = chain_log c @ [(ev, vm, dec)]"
  by (simp add: chain_log_def chain_append_def Let_def)

lemma allowed_events_log:
  "allowed_events w c = map fst (filter (\<lambda>(ev, vm, dec). vm = w \<and> dec = ''allow'') (chain_log c))"
  by (simp add: allowed_events_def chain_log_def filter_map o_def)

definition logged :: "slate_runtime \<Rightarrow> log_entry list \<Rightarrow> slate_runtime \<Rightarrow> bool" where
  "logged rt es rt' \<longleftrightarrow>
     rt_policy rt' = rt_policy rt \<and> rt_kms rt' = rt_kms rt \<and> rt_hypervisor_version rt' = rt_hypervisor_version rt
     \<and> chain_log (rt_receipts rt') = chain_log (rt_receipts rt) @ es"

lemma logged_nothing [simp]: "logged rt [] rt"
  by (simp add: logged_def)

lemma logged_trans: "logged rt as rt1 \<Longrightarrow> logged rt1 bs rt2 \<Longrightarrow> logged rt (as @ bs) rt2"
  by (simp add: logged_def)

lemma logged_append [simp]: "logged rt es (rt_append X rt ev vm dec inp) \<longleftrightarrow> es = [(ev, vm, dec)]"
  by (auto simp: logged_def rt_append_def)

lemma logged_chain_append [simp]:
  "logged rt es (rt\<lparr>rt_receipts := chain_append X (rt_receipts rt) ev vm dec pol inp\<rparr>) \<longleftrightarrow> es = [(ev, vm, dec)]"
  by (auto simp: logged_def)

subsection \<open>Refusals\<close>

text \<open>A refusal by the policy is on the log, one by the launch gate is not.\<close>

definition verify_refusal_log :: "('x) attest_env_scheme \<Rightarrow> slate_runtime \<Rightarrow> vm_capsule \<Rightarrow> log_entry list" where
  "verify_refusal_log X rt c =
     (if is_allow (evaluate_vm_launch X (rt_policy rt) (capsule_launch_request rt c)) then []
      else [(''manifest_verify'', capsule_vm_id c, ''deny'')])"

lemma verify_refused:
  assumes "\<not> capsule_admitted X rt (vh_capsule h)" "vh_vm_id h = capsule_vm_id (vh_capsule h)"
  obtains rt' e where "vm_verify_op X rt h = (rt', Err e)" "logged rt (verify_refusal_log X rt (vh_capsule h)) rt'"
proof (cases "evaluate_vm_launch X (rt_policy rt) (capsule_launch_request rt (vh_capsule h))")
  case (PolicyAllow r)
  with assms(1) obtain e where
    "check_launch (vc_manifest (vh_capsule h)) (capsule_launch_context rt (vh_capsule h)) = Inl e"
    by (cases "check_launch (vc_manifest (vh_capsule h)) (capsule_launch_context rt (vh_capsule h))")
       (simp_all add: capsule_admitted_def)
  with PolicyAllow that [of rt "VmLaunchGate e"] show thesis
    by (simp add: vm_verify_op_def verify_refusal_log_def Let_def)
next
  case (PolicyDeny d)
  with assms(2) have "\<exists>rt' e. vm_verify_op X rt h = (rt', Err e)
      \<and> logged rt (verify_refusal_log X rt (vh_capsule h)) rt'"
    by (simp add: vm_verify_op_def verify_refusal_log_def Let_def event_str_def)
  with that show thesis by blast
next
  case (PolicyRequireApproval d)
  then show thesis by (simp add: evaluate_vm_launch_def policy_allow_def Let_def split: if_splits)
qed

definition capsule_runs :: "slate_runtime \<Rightarrow> vm_capsule \<Rightarrow> bool" where
  "capsule_runs rt c \<longleftrightarrow>
     capsule_memory_ok c \<and> capsule_key_ok rt c (capsule_vm_id c) \<and> passthrough_allowed rt c"

lemma capsule_ready_split: "capsule_ready X rt c \<longleftrightarrow> capsule_admitted X rt c \<and> capsule_runs rt c"
  by (auto simp: capsule_ready_def capsule_runs_def)

text \<open>The gates depend on nothing but the settings of the runtime.\<close>

lemma gates_settings:
  assumes "rt_policy rt' = rt_policy rt" "rt_kms rt' = rt_kms rt"
    "rt_hypervisor_version rt' = rt_hypervisor_version rt"
  shows "capsule_admitted X rt' = capsule_admitted X rt" "capsule_key_ok rt' = capsule_key_ok rt"
    "passthrough_allowed rt' = passthrough_allowed rt" "capsule_runs rt' = capsule_runs rt"
    "capsule_ready X rt' = capsule_ready X rt" "verify_refusal_log X rt' = verify_refusal_log X rt"
  using assms
  by (simp_all add: fun_eq_iff capsule_ready_def capsule_runs_def capsule_admitted_def capsule_launch_request_def
      capsule_launch_context_def capsule_key_ok_def capsule_key_request_def passthrough_allowed_def
      verify_refusal_log_def Let_def)

lemma logged_gates:
  assumes "logged rt es rt'"
  shows "capsule_admitted X rt' = capsule_admitted X rt" "capsule_key_ok rt' = capsule_key_ok rt"
    "passthrough_allowed rt' = passthrough_allowed rt" "capsule_runs rt' = capsule_runs rt"
    "capsule_ready X rt' = capsule_ready X rt" "verify_refusal_log X rt' = verify_refusal_log X rt"
  using assms by (simp_all add: logged_def gates_settings [of rt' rt])

text \<open>What \<open>vm launch\<close> does with a verified machine, and what of it is on the log.\<close>

definition launch_log :: "slate_runtime \<Rightarrow> vm_capsule \<Rightarrow> log_entry list" where
  "launch_log rt c =
     (let vm = capsule_vm_id c in
      if \<not> capsule_memory_ok c then []
      else (''vm_prepare'', vm, ''allow'') #
        (if \<not> capsule_key_ok rt c vm then [(''key_release'', vm, ''deny'')]
         else (''key_release'', vm, ''allow'') #
           (if \<not> passthrough_allowed rt c then [(''device_assign'', vm, ''deny'')]
            else [(''device_assign'', vm, ''allow''), (''vm_launch'', vm, ''allow'')])))"

lemma launch_log_settings:
  assumes "logged rt es rt'"
  shows "launch_log rt' = launch_log rt"
  by (simp add: fun_eq_iff launch_log_def Let_def logged_gates [OF assms])

lemma drive_cases:
  assumes v: "vv_capsule v = c" "vv_vm_id v = capsule_vm_id c" and few: "capsule_device_count c \<le> 2 ^ 51"
  obtains (ok) rt' r where "capsule_runs rt c" "drive_to_running X rt v = (rt', Ok r)"
      "rv_vm_id r = capsule_vm_id c" "logged rt (launch_log rt c) rt'"
  | (fail) rt' e where "\<not> capsule_runs rt c" "drive_to_running X rt v = (rt', Err e)"
      "logged rt (launch_log rt c) rt'"
proof (cases rule: prepare_op_cases [of v X rt])
  case (fail e)
  show thesis
    by (rule that(2) [of rt "VmMemory e"])
       (use fail in \<open>simp_all add: v capsule_runs_def drive_to_running_def launch_log_def Let_def\<close>)
next
  case prepared: ok
  let ?vm = "capsule_vm_id c"
  obtain rt1 p where p: "vm_prepare_op X rt v = (rt1, Ok p)" "pv_capsule p = c" "pv_vm_id p = ?vm"
      "logged rt [(''vm_prepare'', ?vm, ''allow'')] rt1"
    using prepared by (simp add: v)
  note key1 = logged_gates(2) [OF p(4), symmetric]
  show thesis
  proof (cases rule: unlock_op_cases [of rt1 p X])
    case (fail r)
    then obtain rt2 where u: "vm_unlock_op X rt1 p = (rt2, Err (VmKeyReleaseDenied r))"
      "logged rt1 [(''key_release'', ?vm, ''deny'')] rt2" by (simp add: p)
    have "\<not> capsule_key_ok rt c ?vm"
      using fail(1) p by (simp add: key1 capsule_key_ok_def)
    then show thesis
      by (intro that(2) [of rt2 "VmKeyReleaseDenied r"])
         (use prepared(1) u p v logged_trans [OF p(4) u(2)] in
          \<open>simp_all add: capsule_runs_def drive_to_running_def launch_log_def Let_def\<close>)
  next
    case unlocked: ok
    then obtain rt2 u where u: "vm_unlock_op X rt1 p = (rt2, Ok u)" "uv_capsule u = c" "uv_vm_id u = ?vm"
      "logged rt1 [(''key_release'', ?vm, ''allow'')] rt2" by (simp add: p)
    have key: "capsule_key_ok rt c ?vm"
      using unlocked(1) p by (simp add: key1 capsule_key_ok_def)
    note l2 = logged_trans [OF p(4) u(4), simplified]
    note pass = logged_gates(3) [OF l2]
    have "capsule_device_count (uv_capsule u) \<le> 2 ^ 51" using few by (simp add: u)
    then show thesis
    proof (cases rule: attach_op_cases [of u rt2 X])
      case (fail e)
      then obtain rt3 where w: "vm_attach_op X rt2 u = (rt3, Err e)"
        "logged rt2 [(''device_assign'', ?vm, ''deny'')] rt3" by (simp add: u)
      show thesis
        by (rule that(2) [of rt3 e])
           (use prepared(1) key fail(1) u p w v pass logged_trans [OF l2 w(2)] in
            \<open>simp_all add: capsule_runs_def drive_to_running_def launch_log_def Let_def\<close>)
    next
      case attached: (ok g)
      then obtain rt3 a where w: "vm_attach_op X rt2 u = (rt3, Ok a)" "av_vm_id a = ?vm"
          "logged rt2 [(''device_assign'', ?vm, ''allow'')] rt3"
        by (simp add: u)
      obtain rt4 r where r: "vm_run_op X rt3 a = (rt4, Ok r)" "rv_vm_id r = ?vm"
          "logged rt3 [(''vm_launch'', ?vm, ''allow'')] rt4"
        using w(2) by (simp add: vm_run_op_def Let_def event_str_def)
      show thesis
        by (rule that(1) [of rt4 r])
           (use attached(1) prepared(1) key pass u p w r v logged_trans [OF logged_trans [OF l2 w(3)] r(3)] in
            \<open>simp_all add: capsule_runs_def drive_to_running_def launch_log_def Let_def\<close>)
    qed
  qed
qed

subsection \<open>Commands one after the other\<close>

primrec control_session ::
  "('x) control_env_scheme \<Rightarrow> control \<Rightarrow> control_command list \<Rightarrow> control \<times> (control_error + string) list" where
  "control_session X c [] = (c, [])"
| "control_session X c (cmd # cmds) =
     (let (c1, r) = control_step X c cmd; (c2, rs) = control_session X c1 cmds in (c2, r # rs))"

lemma session_Cons:
  "control_step X c cmd = (c1, r) \<Longrightarrow> control_session X c1 cmds = (c2, rs)
     \<Longrightarrow> control_session X c (cmd # cmds) = (c2, r # rs)"
  by simp

lemma control_session_state: "fst (control_session X c cmds) = control_run X cmds c"
  by (induction cmds arbitrary: c) (simp_all add: control_run_def Let_def split_beta)

lemma bt_insert_insert: "bt_sorted m \<Longrightarrow> bt_insert k v (bt_insert k v' m) = bt_insert k v m"
  by (metis bt_insert_remove bt_remove_insert bt_sorted_insert)

text \<open>The control plane with another runtime and another stage of one machine.\<close>

definition staged :: "control \<Rightarrow> slate_runtime \<Rightarrow> vm_id \<Rightarrow> vm_stage \<Rightarrow> control" where
  "staged c rt vm st = c\<lparr>ct_runtime := rt, ct_registry := bt_insert vm st (ct_registry c)\<rparr>"

lemma staged_sel [simp]:
  "ct_runtime (staged c rt vm st) = rt" "ct_registry (staged c rt vm st) = bt_insert vm st (ct_registry c)"
  by (simp_all add: staged_def)

lemma staged_staged [simp]:
  "bt_sorted (ct_registry c) \<Longrightarrow> staged (staged c rt vm st) rt' vm st' = staged c rt' vm st'"
  by (simp add: staged_def bt_insert_insert)

text \<open>While a command works on a machine, the machine is not in the registry.\<close>

definition taken :: "control \<Rightarrow> slate_runtime \<Rightarrow> vm_id \<Rightarrow> control" where
  "taken c rt vm = c\<lparr>ct_runtime := rt, ct_registry := bt_remove vm (ct_registry c)\<rparr>"

lemma take_staged [simp]:
  "registry_take (staged c rt vm st) vm = (taken c rt vm, Ok st)" "ct_runtime (taken c rt vm) = rt"
  "(taken c rt vm)\<lparr>ct_runtime := rt'\<rparr> = taken c rt' vm"
  by (simp_all add: registry_take_def staged_def taken_def bt_remove_insert)

lemma put_taken [simp]:
  assumes "bt_sorted (ct_registry c)"
  shows "registry_insert (taken c rt vm) vm st = staged c rt vm st"
    "mark_failed (taken c rt vm) rt' vm e = (staged c rt' vm (StFailed (vm_error_text e)), Err (CtlVm e))"
    "registry_reject (taken c rt vm) vm action needed st =
       (staged c rt vm st, Err (CtlInvalidState action vm (stage_state_name st) needed))"
  using assms
  by (simp_all add: registry_insert_def mark_failed_def registry_reject_def staged_def taken_def bt_insert_remove)

text \<open>A machine that was destroyed, snapshotted or marked failed takes no more commands.\<close>

lemma ended_refuses:
  assumes "bt_sorted (ct_registry c)" "bt_get (ct_registry c) vm = Some st" "stage_value st = None"
    "command_target cmd = Some vm"
  shows "\<exists>e. control_step X c cmd = (c, Err e)"
  using assms
  by (cases cmd; cases st)
     (auto simp: command_target_def control_step_def vm_verify_def vm_launch_def vm_pause_def vm_snapshot_def
       vm_stop_def vm_destroy_def take_known reject_after_take)

lemma ended_machine_stays:
  assumes "control_inv X doc kms hv c" "bt_get (ct_registry c) vm = Some st" "stage_value st = None"
    "\<forall>cmd \<in> set cmds. command_target cmd \<noteq> None"
  shows "bt_get (ct_registry (control_run X cmds c)) vm = Some st"
  using assms(4,1,2)
proof (induction cmds arbitrary: c)
  case (Cons cmd cmds)
  let ?c = "fst (control_step X c cmd)"
  have sorted: "bt_sorted (ct_registry c)" using Cons.prems by (simp add: control_inv_def)
  note effect = control_step_effect [OF this, of X cmd]
  have "bt_get (ct_registry ?c) vm = Some st"
  proof (cases "command_target cmd = Some vm")
    case True
    then show ?thesis
      using ended_refuses [OF sorted Cons.prems(3) assms(3), of cmd X] Cons.prems(3) by (metis fst_conv)
  next
    case False
    from effect show ?thesis
      by cases (use False Cons.prems in auto)
  qed
  with Cons.IH [OF _ control_inv_effect [OF effect Cons.prems(2)]] Cons.prems(1)
  show ?case by (simp add: control_run_def)
qed (simp add: control_run_def)

text \<open>The single commands, on a machine in the stage they need.\<close>

lemma define_step:
  assumes "env_control_parse X json = Ok spec" "into_capsule X spec (rt_hypervisor_version (ct_runtime c)) = Ok cap"
  obtains rt h where "control_step X c (CmdDefine json) = (staged c rt (capsule_vm_id cap) (StDefined h), Ok (capsule_vm_id cap))"
    "vh_capsule h = cap" "vh_vm_id h = capsule_vm_id cap"
    "logged (ct_runtime c) [(''vm_define'', capsule_vm_id cap, ''allow'')] rt"
  using assms
  by (auto simp: control_step_def vm_define_def define_op_eq registry_insert_def staged_def capsule_vm_id_def Let_def)

lemma verify_step:
  assumes "bt_sorted (ct_registry c)" "vh_vm_id h = vm" "capsule_vm_id (vh_capsule h) = vm"
  obtains (ok) rt' v m where "capsule_admitted X rt (vh_capsule h)"
      "control_step X (staged c rt vm (StDefined h)) (CmdVerify vm) = (staged c rt' vm (StVerified v), Ok m)"
      "vv_capsule v = vh_capsule h" "vv_vm_id v = vm" "logged rt [(''manifest_verify'', vm, ''allow'')] rt'"
  | (fail) rt' t e where "\<not> capsule_admitted X rt (vh_capsule h)"
      "control_step X (staged c rt vm (StDefined h)) (CmdVerify vm) = (staged c rt' vm (StFailed t), Err (CtlVm e))"
      "logged rt (verify_refusal_log X rt (vh_capsule h)) rt'"
proof (cases "capsule_admitted X rt (vh_capsule h)")
  case True
  then obtain rt' v where "vm_verify_op X rt h = (rt', Ok v)" "vv_capsule v = vh_capsule h" "vv_vm_id v = vm"
    "logged rt [(''manifest_verify'', vm, ''allow'')] rt'"
    using assms(2) by (cases rule: verify_op_cases [of h rt X]) auto
  with True show thesis
    using assms by (intro ok [of rt' v]) (simp_all add: control_step_def vm_verify_def)
next
  case False
  moreover have "vh_vm_id h = capsule_vm_id (vh_capsule h)" using assms by simp
  ultimately obtain rt' e where "vm_verify_op X rt h = (rt', Err e)"
    "logged rt (verify_refusal_log X rt (vh_capsule h)) rt'" by (rule verify_refused)
  with False show thesis
    using assms by (auto intro!: fail simp: control_step_def vm_verify_def)
qed

lemma launch_step:
  assumes "bt_sorted (ct_registry c)" "vv_capsule v = cap" "vv_vm_id v = capsule_vm_id cap" "capsule_device_count cap \<le> 2 ^ 51"
    "vm = capsule_vm_id cap"
  obtains (ok) rt' r m where "capsule_runs rt cap"
      "control_step X (staged c rt vm (StVerified v)) (CmdLaunch vm) = (staged c rt' vm (StRunning r), Ok m)"
      "rv_vm_id r = vm" "logged rt (launch_log rt cap) rt'"
  | (fail) rt' t e where "\<not> capsule_runs rt cap"
      "control_step X (staged c rt vm (StVerified v)) (CmdLaunch vm) = (staged c rt' vm (StFailed t), Err (CtlVm e))"
      "logged rt (launch_log rt cap) rt'"
  by (cases rule: drive_cases [OF assms(2-4), of rt X])
     (use assms in \<open>auto intro: that simp: control_step_def vm_launch_def Let_def\<close>)

lemma pause_step:
  assumes "bt_sorted (ct_registry c)" "rv_vm_id r = vm"
  obtains rt' p m where
    "control_step X (staged c rt vm (StRunning r)) (CmdPause vm) = (staged c rt' vm (StPaused p), Ok m)"
    "pz_vm_id p = vm" "logged rt [(''vm_pause'', vm, ''allow'')] rt'"
  using assms by (simp add: control_step_def vm_pause_def vm_pause_op_def)

lemma stop_step:
  assumes "bt_sorted (ct_registry c)" "rv_vm_id r = vm"
  obtains rt' s m where
    "control_step X (staged c rt vm (StRunning r)) (CmdStop vm) = (staged c rt' vm (StStopped s), Ok m)"
    "sv_vm_id s = vm" "logged rt [(''vm_stop'', vm, ''allow'')] rt'"
  using assms by (simp add: control_step_def vm_stop_def vm_stop_op_def)

lemma destroy_step:
  assumes "bt_sorted (ct_registry c)" "sv_vm_id s = vm"
  obtains rt' m where
    "control_step X (staged c rt vm (StStopped s)) (CmdDestroy vm True) = (staged c rt' vm StDestroyed, Ok m)"
    "logged rt [(''destroy'', vm, ''allow'')] rt'"
  using assms by (simp add: control_step_def vm_destroy_def destroy_taken_def vm_destroy_op_def Let_def event_str_def)

text \<open>The commands that take a descriptor through a whole life.\<close>

definition life_commands :: "string \<Rightarrow> vm_id \<Rightarrow> control_command list" where
  "life_commands json vm = [CmdDefine json, CmdVerify vm, CmdLaunch vm, CmdStop vm, CmdDestroy vm True]"

lemma failed_session:
  assumes "bt_sorted (ct_registry c)"
    "set cmds \<subseteq> {CmdVerify vm, CmdLaunch vm, CmdStop vm, CmdDestroy vm True}"
  shows "fst (control_session X (staged c rt vm (StFailed t)) cmds) = staged c rt vm (StFailed t)"
  using assms(2)
proof (induction cmds)
  case (Cons cmd cmds)
  then have target: "command_target cmd = Some vm" by (auto simp: command_target_def)
  have "bt_sorted (ct_registry (staged c rt vm (StFailed t)))" using assms(1) by auto
  then have "\<exists>e. control_step X (staged c rt vm (StFailed t)) cmd = (staged c rt vm (StFailed t), Err e)"
    by (rule ended_refuses [of _ vm "StFailed t", OF _ _ _ target]) simp_all
  then obtain e where "control_step X (staged c rt vm (StFailed t)) cmd = (staged c rt vm (StFailed t), Err e)" ..
  with Cons show ?case by (simp add: Let_def split_beta)
qed simp

lemma life_cases:
  assumes sorted: "bt_sorted (ct_registry c)"
    and cap: "env_control_parse X json = Ok spec" "into_capsule X spec (rt_hypervisor_version (ct_runtime c)) = Ok cap"
    and few: "capsule_device_count cap \<le> 2 ^ 51" and vm: "vm = capsule_vm_id cap"
  obtains (completed) rt' rs where "capsule_ready X (ct_runtime c) cap" "list_all is_ok rs"
      "control_session X c (life_commands json vm) = (staged c rt' vm StDestroyed, rs)"
      "logged (ct_runtime c) (map (\<lambda>ev. (ev, vm, ''allow''))
         [''vm_define'', ''manifest_verify'', ''vm_prepare'', ''key_release'', ''device_assign'',
          ''vm_launch'', ''vm_stop'', ''destroy'']) rt'"
  | (refused) rt' rs t es where "\<not> capsule_ready X (ct_runtime c) cap" "\<not> list_all is_ok rs"
      "control_session X c (life_commands json vm) = (staged c rt' vm (StFailed t), rs)"
      "logged (ct_runtime c) es rt'" "\<forall>(ev, w, dec) \<in> set es. w = vm \<and> ev \<noteq> ''vm_launch''"
proof -
  let ?rt = "ct_runtime c"
  obtain rt1 h where d: "control_step X c (CmdDefine json) = (staged c rt1 vm (StDefined h), Ok vm)"
    "vh_capsule h = cap" "vh_vm_id h = vm" "logged ?rt [(''vm_define'', vm, ''allow'')] rt1"
    using define_step [OF cap] by (metis vm)
  note gates1 = logged_gates [OF d(4)]
  have own: "capsule_vm_id (vh_capsule h) = vm" by (simp add: d(2) vm)
  from sorted d(3) own show thesis
  proof (cases rule: verify_step [of c h vm X rt1])
    case (fail rt2 t e)
    have "fst (control_session X (staged c rt2 vm (StFailed t)) [CmdLaunch vm, CmdStop vm, CmdDestroy vm True]) =
        staged c rt2 vm (StFailed t)" by (rule failed_session [OF sorted]) simp
    then obtain rs where rest: "control_session X (staged c rt2 vm (StFailed t))
        [CmdLaunch vm, CmdStop vm, CmdDestroy vm True] = (staged c rt2 vm (StFailed t), rs)" by (metis prod.collapse)
    show thesis
      by (rule refused [OF _ _ _ logged_trans [OF d(4) fail(3)], of "Ok vm # Err (CtlVm e) # rs" t])
         (use fail(1) d(2) session_Cons [OF d(1) session_Cons [OF fail(2) rest]] own in
          \<open>auto simp: life_commands_def gates1 capsule_ready_split verify_refusal_log_def
             simp del: control_session.simps\<close>)
  next
    case verified: (ok rt2 v m)
    have v: "vv_capsule v = cap" "vv_vm_id v = capsule_vm_id cap" using verified d vm by simp_all
    note l2 = logged_trans [OF d(4) verified(5)]
    have runs: "capsule_runs rt2 cap \<longleftrightarrow> capsule_ready X ?rt cap"
      using verified(1) by (simp add: d(2) capsule_ready_split gates1 logged_gates(4) [OF l2])
    from sorted v few vm show thesis
    proof (cases rule: launch_step [of c v cap vm rt2 X])
      case (fail rt3 t e)
      have "fst (control_session X (staged c rt3 vm (StFailed t)) [CmdStop vm, CmdDestroy vm True]) =
          staged c rt3 vm (StFailed t)" by (rule failed_session [OF sorted]) simp
      then obtain rs where rest: "control_session X (staged c rt3 vm (StFailed t)) [CmdStop vm, CmdDestroy vm True] =
          (staged c rt3 vm (StFailed t), rs)" by (metis prod.collapse)
      show thesis
        by (rule refused [OF _ _ _ logged_trans [OF l2 fail(3)], of "Ok vm # Ok m # Err (CtlVm e) # rs" t])
           (use fail(1) runs session_Cons [OF d(1) session_Cons [OF verified(2) session_Cons [OF fail(2) rest]]] in
            \<open>auto simp: life_commands_def capsule_runs_def launch_log_def vm Let_def simp del: control_session.simps\<close>)
    next
      case launched: (ok rt3 r m')
      obtain rt4 st n where st: "control_step X (staged c rt3 vm (StRunning r)) (CmdStop vm) = (staged c rt4 vm (StStopped st), Ok n)"
        "sv_vm_id st = vm" "logged rt3 [(''vm_stop'', vm, ''allow'')] rt4"
        by (rule stop_step [OF sorted launched(3)])
      obtain rt5 n' where e: "control_step X (staged c rt4 vm (StStopped st)) (CmdDestroy vm True) = (staged c rt5 vm StDestroyed, Ok n')"
        "logged rt4 [(''destroy'', vm, ''allow'')] rt5"
        by (rule destroy_step [OF sorted st(2)])
      have rest: "control_session X (staged c rt3 vm (StRunning r)) [CmdStop vm, CmdDestroy vm True] =
          (staged c rt5 vm StDestroyed, [Ok n, Ok n'])"
        by (rule session_Cons [OF st(1) session_Cons [OF e(1)]]) simp
      show thesis
        by (rule completed [of "[Ok vm, Ok m, Ok m', Ok n, Ok n']" rt5])
           (use launched(1) runs
              session_Cons [OF d(1) session_Cons [OF verified(2) session_Cons [OF launched(2) rest]]]
              logged_trans [OF logged_trans [OF logged_trans [OF l2 launched(4)] st(3)] e(2)] in
            \<open>simp_all add: life_commands_def launch_log_def capsule_runs_def Let_def vm del: control_session.simps\<close>)
    qed
  qed
qed

subsection \<open>A sample control plane\<close>

definition sample_spec :: control_capsule_spec where
  "sample_spec = \<lparr>ccs_schema = CONTROL_CAPSULE_SCHEMA, ccs_capsule_id = ''cap-1'', ccs_manifest = ''m'',
     ccs_allowed_key_ids = [''k1''], ccs_boot = vc_boot (sample_capsule ''vm-1''),
     ccs_storage = vc_storage (sample_capsule ''vm-1''), ccs_network = vc_network (sample_capsule ''vm-1''),
     ccs_devices = \<lparr>das_passthrough = []\<rparr>, ccs_policy = vc_policy (sample_capsule ''vm-1''),
     ccs_key_plan = vc_key_plan (sample_capsule ''vm-1'')\<rparr>"

definition sample_control_env :: control_env where
  "sample_control_env = attest_env.extend
     (sample_attest_env\<lparr>env_capsule_parse := (\<lambda>s. if s = ''m'' then Ok sample_manifest else Err s)\<rparr>)
     \<lparr>env_control_parse = (\<lambda>s. if s = ''d'' then Ok sample_spec else Err s), env_doctor_text = (\<lambda>r. []),
      env_policy_view_text = (\<lambda>r. []), env_receipts_view_text = (\<lambda>r. [])\<rparr>"

lemma sample_control_env_sel [simp]:
  "env_control_parse sample_control_env ''d'' = Ok sample_spec"
  "env_capsule_parse sample_control_env ''m'' = Ok sample_manifest"
  by (simp_all add: sample_control_env_def attest_env.extend_def)

definition sample_into :: vm_capsule where
  "sample_into = (sample_capsule ''vm-1'')\<lparr>vc_manifest := sample_verified, vc_cpu := \<lparr>vcs_vcpus = 1\<rparr>\<rparr>"

lemma sample_into_capsule: "into_capsule sample_control_env sample_spec 3 = Ok sample_into"
  by (simp add: into_capsule_def sample_spec_def parse_manifest_def sample_into_def sample_capsule_def capsule_verify_def
      allowlist_verify_def sample_manifest_def sample_verified_def ALLOWED_ALGS_def Let_def)

lemma sample_into_few: "capsule_device_count sample_into \<le> 2 ^ 51"
  by (simp add: sample_into_def sample_capsule_def capsule_device_count_def)

lemma sample_into_vm: "capsule_vm_id sample_into = ''vm-1''"
  by (simp add: sample_into_def capsule_vm_id_def sample_verified_def sample_manifest_def)

lemma sample_into_runs: "capsule_ready sample_control_env (runtime_new sample_policy_doc sample_kms 3) sample_into"
  by (simp add: capsule_ready_def capsule_admitted_def launch_allow_iff capsule_launch_request_def
      capsule_launch_context_def check_launch_def Let_def capsule_memory_ok_def guest_ram_fits_def
      capsule_key_ok_def deny_reason_None_iff capsule_key_request_def pcr_satisfies_def
      passthrough_allowed_def runtime_new_def sample_policy_doc_def sample_kms_def sample_into_def
      sample_capsule_def sample_verified_def sample_manifest_def bt_get_def)

subsection \<open>Properties\<close>

text \<open>C6: The life of a machine, from its descriptor to its destruction. Let a descriptor decode
  to a capsule. On a control plane after any commands, define, verify, launch, stop and destroy
  for it all succeed exactly when the capsule is ready under the policy and the key service:
  it passes the policy and the launch gate, its memory fits, its key is released and its
  passthrough devices are allowed; what happened before does not matter. Then the machine is
  recorded as destroyed and the chain has gained exactly its eight events, in order. Otherwise
  the machine is recorded as failed and the chain gained no launch. In both cases no other
  machine and no other machine's events are touched.\<close>

theorem machine_life_exact:
  assumes "env_control_parse X json = Ok spec" "into_capsule X spec hv = Ok cap"
    "capsule_device_count cap \<le> 2 ^ 51"
  shows "let vm = capsule_vm_id cap; ready = capsule_ready X (runtime_new doc kms hv) cap;
             c = control_run X cmds (control_new doc kms hv);
             (c', results) = control_session X c (life_commands json vm)
         in (list_all is_ok results \<longleftrightarrow> ready)
          \<and> (\<exists>reason. ct_registry c' =
               bt_insert vm (if ready then StDestroyed else StFailed reason) (ct_registry c))
          \<and> (\<exists>evs. (\<forall>w. allowed_events w (rt_receipts (ct_runtime c')) =
                       allowed_events w (rt_receipts (ct_runtime c)) @ (if w = vm then evs else []))
               \<and> (if ready
                  then evs = [''vm_define'', ''manifest_verify'', ''vm_prepare'', ''key_release'',
                              ''device_assign'', ''vm_launch'', ''vm_stop'', ''destroy'']
                  else ''vm_launch'' \<notin> set evs))"
proof -
  define c where "c = control_run X cmds (control_new doc kms hv)"
  have "control_inv X doc kms hv c" unfolding c_def by (rule control_run_new_inv)
  then obtain vs where sorted: "bt_sorted (ct_registry c)"
    and reach: "slate_reachable X self_check doc kms hv (ct_runtime c, vs)"
    by (auto simp: control_inv_def slate_bag_def)
  have same: "rt_policy (ct_runtime c) = doc" "rt_kms (ct_runtime c) = kms" "rt_hypervisor_version (ct_runtime c) = hv"
    using slate_reachable_inv [OF reach] by (simp_all add: slate_inv_def)
  have ready: "capsule_ready X (ct_runtime c) = capsule_ready X (runtime_new doc kms hv)"
    by (rule gates_settings) (simp_all add: same runtime_new_def)
  have into: "into_capsule X spec (rt_hypervisor_version (ct_runtime c)) = Ok cap" using assms(2) same by simp
  show ?thesis
  proof (cases rule: life_cases [OF sorted assms(1) into assms(3) refl, case_names completed refused])
    case (completed rt' rs)
    then show ?thesis by (simp add: logged_def allowed_events_log ready Let_def flip: c_def)
  next
    case (refused rt' rs t es)
    have others: "filter (\<lambda>(ev, w', dec). w' = w \<and> dec = ''allow'') es = []" if "w \<noteq> capsule_vm_id cap" for w
      using refused(5) that by (auto simp: filter_empty_conv)
    let ?evs = "map fst (filter (\<lambda>(ev, w, dec). w = capsule_vm_id cap \<and> dec = ''allow'') es)"
    have "''vm_launch'' \<notin> set ?evs" using refused(5) by auto
    with refused others show ?thesis
      by (auto simp: logged_def allowed_events_log ready Let_def simp flip: c_def intro!: exI [of _ ?evs])
  qed
qed

lemma snapshot_paused_Ok:
  "snapshot_paused X c vm name p = (c', Ok m) \<Longrightarrow> bt_get (ct_registry c') vm = Some StSnapshotted"
  by (auto simp: snapshot_paused_def registry_insert_def mark_failed_def Let_def split: prod.splits sum.splits)

lemma snapshot_Ok:
  assumes "vm_snapshot X c vm name = (c', Ok m)"
  shows "bt_get (ct_registry c') vm = Some StSnapshotted"
proof -
  obtain c1 r where t: "registry_take c vm = (c1, r)" by fastforce
  obtain st where "r = Ok st" using assms t by (cases r) (auto simp: vm_snapshot_def)
  with t assms show ?thesis
    by (cases st) (auto simp: vm_snapshot_def registry_reject_def vm_pause_op_def Let_def dest: snapshot_paused_Ok)
qed

text \<open>A snapshot is the last thing that happens to a machine: it leaves the machine unscrubbed,
  and no later command but a new definition under its id changes its state or destroys it.\<close>

theorem snapshot_is_final:
  assumes "control_step X (control_run X cmds (control_new doc kms hv)) (CmdSnapshot vm name) = (c, Ok m)"
    "\<forall>cmd \<in> set cmds'. command_target cmd \<noteq> None"
  shows "bt_get (ct_registry (control_run X cmds' c)) vm = Some StSnapshotted
    \<and> (\<exists>e. snd (control_step X (control_run X cmds' c) (CmdDestroy vm wipe)) = Err e)"
proof -
  let ?c = "control_run X cmds (control_new doc kms hv)"
  have inv: "control_inv X doc kms hv ?c" by (rule control_run_new_inv)
  then have sorted: "bt_sorted (ct_registry ?c)" by (simp add: control_inv_def)
  from control_inv_effect [OF control_step_effect [OF sorted] inv] assms(1)
  have inv': "control_inv X doc kms hv c" by (metis fst_conv)
  have "bt_get (ct_registry c) vm = Some StSnapshotted"
    by (rule snapshot_Ok [of X ?c vm name c m]) (use assms(1) in \<open>simp add: control_step_def\<close>)
  from ended_machine_stays [OF inv' this _ assms(2)]
  have get: "bt_get (ct_registry (control_run X cmds' c)) vm = Some StSnapshotted" by simp
  have "bt_sorted (ct_registry (control_run X cmds' c))"
    using control_run_inv [OF inv', of cmds'] by (simp add: control_inv_def)
  then have "\<exists>e. control_step X (control_run X cmds' c) (CmdDestroy vm wipe) = (control_run X cmds' c, Err e)"
    by (rule ended_refuses [OF _ get]) (simp_all add: command_target_def)
  with get show ?thesis by auto
qed

lemma machine_life_exact_witness:
  "let (c', results) = control_session sample_control_env
         (control_run sample_control_env [CmdStop ''vm-1'', CmdDefine ''d''] (control_new sample_policy_doc sample_kms 3))
         (life_commands ''d'' ''vm-1'')
   in list_all is_ok results \<and> bt_get (ct_registry c') ''vm-1'' = Some StDestroyed"
  using machine_life_exact [OF _ sample_into_capsule sample_into_few, of "''d''" sample_policy_doc sample_kms
      "[CmdStop ''vm-1'', CmdDefine ''d'']"]
  by (auto simp: Let_def sample_into_vm sample_into_runs split: prod.splits)

end
