(* ===== verification/StageMachine.thy ===== *)
theory StageMachine
  imports MachineLife
begin

text \<open>
  The whole control plane as a small machine: a map from machine ids to stages and the log of
  decisions. It knows nothing of page tables, devices, schedulers, keys or hashes; the
  theorem is that the commands, run on all of these, do to the stages and to the log of the
  receipt chain exactly what the small machine says.
\<close>

subsection \<open>The small machine\<close>

text \<open>Only a machine that is not yet launched is still subject to its capsule.\<close>

datatype stage_spec =
    SpDefined vm_capsule
  | SpVerified vm_capsule
  | SpRunning
  | SpPaused
  | SpStopped
  | SpDestroyed
  | SpSnapshotted
  | SpFailed

datatype verdict = Accepted | Refused | MarkedFailed

type_synonym stage_map = "vm_id \<rightharpoonup> stage_spec"

type_synonym stage_machine = "stage_map \<times> log_entry list"

definition advance :: "stage_machine \<Rightarrow> vm_id \<Rightarrow> stage_spec \<Rightarrow> log_entry list \<Rightarrow> stage_machine" where
  "advance s vm st es = ((fst s)(vm \<mapsto> st), snd s @ es)"

definition descriptor_capsule :: "('x) control_env_scheme \<Rightarrow> slate_runtime \<Rightarrow> string \<Rightarrow> vm_capsule option" where
  "descriptor_capsule X rt json =
     (case env_control_parse X json of Inl e \<Rightarrow> None | Inr spec \<Rightarrow>
     (case into_capsule X spec (rt_hypervisor_version rt) of Inl e \<Rightarrow> None | Inr cap \<Rightarrow> Some cap))"

text \<open>One command, under the settings of a runtime.\<close>

definition spec_command ::
  "('x) control_env_scheme \<Rightarrow> slate_runtime \<Rightarrow> stage_machine \<Rightarrow> control_command \<Rightarrow> stage_machine \<times> verdict" where
  "spec_command X rt s cmd = (case cmd of
       CmdDefine json \<Rightarrow>
         (case descriptor_capsule X rt json of
            Some cap \<Rightarrow> (advance s (capsule_vm_id cap) (SpDefined cap)
                          [(''vm_define'', capsule_vm_id cap, ''allow'')], Accepted)
          | None \<Rightarrow> (s, Refused))
     | CmdVerify vm \<Rightarrow>
         (case fst s vm of
            Some (SpDefined cap) \<Rightarrow>
              (if capsule_admitted X rt cap
               then (advance s vm (SpVerified cap) [(''manifest_verify'', vm, ''allow'')], Accepted)
               else (advance s vm SpFailed (verify_refusal_log X rt cap), MarkedFailed))
          | _ \<Rightarrow> (s, Refused))
     | CmdLaunch vm \<Rightarrow>
         (case fst s vm of
            Some (SpVerified cap) \<Rightarrow>
              (if capsule_runs rt cap then (advance s vm SpRunning (launch_log rt cap), Accepted)
               else (advance s vm SpFailed (launch_log rt cap), MarkedFailed))
          | _ \<Rightarrow> (s, Refused))
     | CmdPause vm \<Rightarrow>
         (if fst s vm = Some SpRunning then (advance s vm SpPaused [(''vm_pause'', vm, ''allow'')], Accepted)
          else (s, Refused))
     | CmdSnapshot vm name \<Rightarrow>
         (case fst s vm of
            Some SpPaused \<Rightarrow> (advance s vm SpSnapshotted [(''snapshot'', vm, ''allow'')], Accepted)
          | Some SpRunning \<Rightarrow>
              (advance s vm SpSnapshotted [(''vm_pause'', vm, ''allow''), (''snapshot'', vm, ''allow'')], Accepted)
          | _ \<Rightarrow> (s, Refused))
     | CmdStop vm \<Rightarrow>
         (if fst s vm = Some SpRunning then (advance s vm SpStopped [(''vm_stop'', vm, ''allow'')], Accepted)
          else (s, Refused))
     | CmdDestroy vm wipe \<Rightarrow>
         (if fst s vm = Some SpStopped \<and> wipe
          then (advance s vm SpDestroyed [(''destroy'', vm, ''allow'')], Accepted)
          else (s, Refused)))"

primrec spec_session ::
  "('x) control_env_scheme \<Rightarrow> slate_runtime \<Rightarrow> stage_machine \<Rightarrow> control_command list \<Rightarrow> stage_machine \<times> verdict list" where
  "spec_session X rt s [] = (s, [])"
| "spec_session X rt s (cmd # cmds) =
     (let (s1, v) = spec_command X rt s cmd; (s2, vs) = spec_session X rt s1 cmds in (s2, v # vs))"

subsection \<open>What of the control plane it describes\<close>

definition abs_stage :: "vm_stage \<Rightarrow> stage_spec" where
  "abs_stage st = (case st of StDefined h \<Rightarrow> SpDefined (vh_capsule h) | StVerified v \<Rightarrow> SpVerified (vv_capsule v)
     | StRunning _ \<Rightarrow> SpRunning | StPaused _ \<Rightarrow> SpPaused | StStopped _ \<Rightarrow> SpStopped
     | StDestroyed \<Rightarrow> SpDestroyed | StSnapshotted \<Rightarrow> SpSnapshotted | StFailed _ \<Rightarrow> SpFailed)"

definition abs_control :: "control \<Rightarrow> stage_machine" where
  "abs_control c = (\<lambda>vm. map_option abs_stage (bt_get (ct_registry c) vm), chain_log (rt_receipts (ct_runtime c)))"

definition verdict_of :: "control_error + string \<Rightarrow> verdict" where
  "verdict_of r = (case r of Inr _ \<Rightarrow> Accepted | Inl (CtlVm _) \<Rightarrow> MarkedFailed | Inl _ \<Rightarrow> Refused)"

lemma abs_stage_simps [simp]:
  "abs_stage (StDefined h) = SpDefined (vh_capsule h)" "abs_stage (StVerified v) = SpVerified (vv_capsule v)"
  "abs_stage (StRunning r) = SpRunning" "abs_stage (StPaused p) = SpPaused" "abs_stage (StStopped t) = SpStopped"
  "abs_stage StDestroyed = SpDestroyed" "abs_stage StSnapshotted = SpSnapshotted" "abs_stage (StFailed m) = SpFailed"
  by (simp_all add: abs_stage_def)

lemma verdict_of_simps [simp]:
  "verdict_of (Ok m) = Accepted" "verdict_of (Err (CtlVm e)) = MarkedFailed"
  "verdict_of (Err (CtlNotFound vm)) = Refused" "verdict_of (Err (CtlInvalidState a vm f n)) = Refused"
  "verdict_of (Err (CtlWipeRequired vm)) = Refused"
  by (simp_all add: verdict_of_def)

lemma fst_abs_control [simp]: "fst (abs_control c) vm = map_option abs_stage (bt_get (ct_registry c) vm)"
  by (simp add: abs_control_def)

lemma abs_control_new [simp]: "abs_control (control_new doc kms hv) = (Map.empty, [])"
  by (simp add: abs_control_def control_new_def runtime_new_def)

lemma abs_control_staged:
  "logged (ct_runtime c) es rt \<Longrightarrow> abs_control (staged c rt vm st) = advance (abs_control c) vm (abs_stage st) es"
  by (simp add: abs_control_def advance_def logged_def fun_eq_iff)

subsection \<open>The invariant that connects them\<close>

text \<open>A stage belongs to the machine it is registered for.\<close>

definition stage_of :: "vm_id \<Rightarrow> vm_stage \<Rightarrow> bool" where
  "stage_of vm st = (case st of
       StDefined h \<Rightarrow> vh_vm_id h = vm \<and> capsule_vm_id (vh_capsule h) = vm
     | StVerified v \<Rightarrow> vv_vm_id v = vm \<and> capsule_vm_id (vv_capsule v) = vm
     | StRunning r \<Rightarrow> rv_vm_id r = vm | StPaused p \<Rightarrow> pz_vm_id p = vm | StStopped t \<Rightarrow> sv_vm_id t = vm
     | _ \<Rightarrow> True)"

lemma stage_of_simps [simp]:
  "stage_of vm (StDefined h) \<longleftrightarrow> vh_vm_id h = vm \<and> capsule_vm_id (vh_capsule h) = vm"
  "stage_of vm (StVerified v) \<longleftrightarrow> vv_vm_id v = vm \<and> capsule_vm_id (vv_capsule v) = vm"
  "stage_of vm (StRunning r) \<longleftrightarrow> rv_vm_id r = vm" "stage_of vm (StPaused p) \<longleftrightarrow> pz_vm_id p = vm"
  "stage_of vm (StStopped t) \<longleftrightarrow> sv_vm_id t = vm" "stage_of vm StDestroyed" "stage_of vm StSnapshotted"
  "stage_of vm (StFailed m)"
  by (simp_all add: stage_of_def)

definition connected :: "slate_runtime \<Rightarrow> control \<Rightarrow> bool" where
  "connected rt c \<longleftrightarrow> bt_sorted (ct_registry c)
     \<and> (\<forall>vm st. bt_get (ct_registry c) vm = Some st \<longrightarrow> stage_of vm st)
     \<and> rt_policy (ct_runtime c) = rt_policy rt \<and> rt_kms (ct_runtime c) = rt_kms rt
     \<and> rt_hypervisor_version (ct_runtime c) = rt_hypervisor_version rt"

lemma connected_new: "connected (runtime_new doc kms hv) (control_new doc kms hv)"
  by (simp add: connected_def control_new_def runtime_new_def)

lemma connected_staged:
  "connected rt c \<Longrightarrow> logged (ct_runtime c) es rt' \<Longrightarrow> stage_of vm st \<Longrightarrow> connected rt (staged c rt' vm st)"
  by (auto simp: connected_def logged_def)

lemma connected_gates:
  assumes "connected rt c"
  shows "capsule_admitted X (ct_runtime c) = capsule_admitted X rt" "capsule_runs (ct_runtime c) = capsule_runs rt"
    "verify_refusal_log X (ct_runtime c) = verify_refusal_log X rt" "launch_log (ct_runtime c) = launch_log rt"
  using assms gates_settings [of "ct_runtime c" rt]
  by (simp_all add: connected_def fun_eq_iff launch_log_def Let_def)

lemma staged_same: "bt_sorted (ct_registry c) \<Longrightarrow> bt_get (ct_registry c) vm = Some st \<Longrightarrow> staged c (ct_runtime c) vm st = c"
  by (simp add: staged_def bt_insert_same)

text \<open>What a command has to do.\<close>

definition follows ::
  "('x) control_env_scheme \<Rightarrow> slate_runtime \<Rightarrow> control \<Rightarrow> control_command \<Rightarrow> bool" where
  "follows X rt c cmd \<longleftrightarrow>
     (case control_step X c cmd of (c', r) \<Rightarrow>
        spec_command X rt (abs_control c) cmd = (abs_control c', verdict_of r) \<and> connected rt c')"

lemma follows_refused:
  "connected rt c \<Longrightarrow> control_step X c cmd = (c, r) \<Longrightarrow> verdict_of r = Refused
     \<Longrightarrow> spec_command X rt (abs_control c) cmd = (abs_control c, Refused) \<Longrightarrow> follows X rt c cmd"
  by (simp add: follows_def)

lemma follows_staged:
  "connected rt c \<Longrightarrow> control_step X c cmd = (staged c rt' vm st, r) \<Longrightarrow> logged (ct_runtime c) es rt'
     \<Longrightarrow> stage_of vm st
     \<Longrightarrow> spec_command X rt (abs_control c) cmd = (advance (abs_control c) vm (abs_stage st) es, verdict_of r)
     \<Longrightarrow> follows X rt c cmd"
  by (simp add: follows_def abs_control_staged connected_staged)

subsection \<open>Every command follows the small machine\<close>

text \<open>A command other than \<open>vm_define\<close> on a machine that is not there, or in a wrong stage.\<close>

definition wants :: "control_command \<Rightarrow> vm_stage \<Rightarrow> bool" where
  "wants cmd st = (case cmd of
       CmdDefine json \<Rightarrow> False
     | CmdVerify vm \<Rightarrow> (case st of StDefined _ \<Rightarrow> True | _ \<Rightarrow> False)
     | CmdLaunch vm \<Rightarrow> (case st of StVerified _ \<Rightarrow> True | _ \<Rightarrow> False)
     | CmdPause vm \<Rightarrow> (case st of StRunning _ \<Rightarrow> True | _ \<Rightarrow> False)
     | CmdSnapshot vm name \<Rightarrow> (case st of StRunning _ \<Rightarrow> True | StPaused _ \<Rightarrow> True | _ \<Rightarrow> False)
     | CmdStop vm \<Rightarrow> (case st of StRunning _ \<Rightarrow> True | _ \<Rightarrow> False)
     | CmdDestroy vm wipe \<Rightarrow> wipe \<and> (case st of StStopped _ \<Rightarrow> True | _ \<Rightarrow> False))"

lemma follows_wrong_stage:
  assumes conn: "connected rt c" and target: "command_target cmd = Some vm"
    and wrong: "\<forall>st. bt_get (ct_registry c) vm = Some st \<longrightarrow> \<not> wants cmd st"
  shows "follows X rt c cmd"
proof -
  have sorted: "bt_sorted (ct_registry c)" using conn by (simp add: connected_def)
  have "\<exists>e. control_step X c cmd = (c, Err e) \<and> verdict_of (Err e) = Refused
      \<and> spec_command X rt (abs_control c) cmd = (abs_control c, Refused)"
  proof (cases "bt_get (ct_registry c) vm")
    case None
    with target show ?thesis
      by (cases cmd) (simp_all add: command_target_def control_step_def vm_verify_def vm_launch_def vm_pause_def
          vm_snapshot_def vm_stop_def vm_destroy_def take_unknown spec_command_def)
  next
    case (Some st)
    with target wrong sorted show ?thesis
      by (cases cmd; cases st) (auto simp: command_target_def control_step_def vm_verify_def vm_launch_def
          vm_pause_def vm_snapshot_def vm_stop_def vm_destroy_def take_known reject_after_take spec_command_def
          wants_def)
  qed
  then show ?thesis using follows_refused [OF conn] by blast
qed

lemma define_follows:
  assumes conn: "connected rt c"
  shows "follows X rt c (CmdDefine json)"
proof -
  have hv: "rt_hypervisor_version (ct_runtime c) = rt_hypervisor_version rt" using conn by (simp add: connected_def)
  show ?thesis
  proof (cases "descriptor_capsule X rt json")
    case None
    then have "\<exists>e. control_step X c (CmdDefine json) = (c, Err e) \<and> verdict_of (Err e) = Refused"
      by (auto simp: descriptor_capsule_def control_step_def vm_define_def hv verdict_of_def
          dest: into_capsule_Err split: sum.splits control_error.splits)
    with None show ?thesis
      by (auto intro!: follows_refused [OF conn] simp: spec_command_def)
  next
    case (Some cap)
    then obtain spec where spec: "env_control_parse X json = Ok spec"
      "into_capsule X spec (rt_hypervisor_version (ct_runtime c)) = Ok cap"
      by (auto simp: descriptor_capsule_def hv split: sum.splits)
    obtain rt' h where d:
      "control_step X c (CmdDefine json) = (staged c rt' (capsule_vm_id cap) (StDefined h), Ok (capsule_vm_id cap))"
      "vh_capsule h = cap" "vh_vm_id h = capsule_vm_id cap"
      "logged (ct_runtime c) [(''vm_define'', capsule_vm_id cap, ''allow'')] rt'"
      by (rule define_step [OF spec])
    show ?thesis
      by (rule follows_staged [OF conn d(1,4)]) (use d(2,3) Some in \<open>simp_all add: spec_command_def\<close>)
  qed
qed

lemma verify_follows:
  assumes conn: "connected rt c" and get: "bt_get (ct_registry c) vm = Some (StDefined h)"
  shows "follows X rt c (CmdVerify vm)"
proof -
  have sorted: "bt_sorted (ct_registry c)" and own: "vh_vm_id h = vm" "capsule_vm_id (vh_capsule h) = vm"
    using conn get by (force simp: connected_def)+
  note same = staged_same [OF sorted get]
  from sorted own show ?thesis
  proof (cases rule: verify_step [of c h vm X "ct_runtime c"])
    case (ok rt' v m)
    show ?thesis
      by (rule follows_staged [OF conn ok(2) [unfolded same] ok(5)])
         (use ok get own in \<open>simp_all add: spec_command_def connected_gates [OF conn]\<close>)
  next
    case (fail rt' t e)
    show ?thesis
      by (rule follows_staged [OF conn fail(2) [unfolded same] fail(3)])
         (use fail(1) get in \<open>simp_all add: spec_command_def connected_gates [OF conn]\<close>)
  qed
qed

lemma launch_follows:
  assumes conn: "connected rt c" and get: "bt_get (ct_registry c) vm = Some (StVerified v)"
    and few: "capsule_device_count (vv_capsule v) \<le> 2 ^ 51"
  shows "follows X rt c (CmdLaunch vm)"
proof -
  have sorted: "bt_sorted (ct_registry c)" and own: "vv_vm_id v = capsule_vm_id (vv_capsule v)" "vm = capsule_vm_id (vv_capsule v)"
    using conn get by (force simp: connected_def)+
  note same = staged_same [OF sorted get]
  from sorted refl own(1) few own(2) show ?thesis
  proof (cases rule: launch_step [of c v "vv_capsule v" vm "ct_runtime c" X])
    case (ok rt' r m)
    show ?thesis
      by (rule follows_staged [OF conn ok(2) [unfolded same] ok(4)])
         (use ok(1,3) get in \<open>simp_all add: spec_command_def connected_gates [OF conn]\<close>)
  next
    case (fail rt' t e)
    show ?thesis
      by (rule follows_staged [OF conn fail(2) [unfolded same] fail(3)])
         (use fail(1) get in \<open>simp_all add: spec_command_def connected_gates [OF conn]\<close>)
  qed
qed

lemma pause_follows:
  assumes conn: "connected rt c" and get: "bt_get (ct_registry c) vm = Some (StRunning r)"
  shows "follows X rt c (CmdPause vm)"
proof -
  have sorted: "bt_sorted (ct_registry c)" and own: "rv_vm_id r = vm" using conn get by (force simp: connected_def)+
  obtain rt' p m where p: "control_step X c (CmdPause vm) = (staged c rt' vm (StPaused p), Ok m)"
    "pz_vm_id p = vm" "logged (ct_runtime c) [(''vm_pause'', vm, ''allow'')] rt'"
    using pause_step [OF sorted own, of X "ct_runtime c"] staged_same [OF sorted get] by metis
  show ?thesis
    by (rule follows_staged [OF conn p(1,3)]) (use p(2) get in \<open>simp_all add: spec_command_def\<close>)
qed

lemma stop_follows:
  assumes conn: "connected rt c" and get: "bt_get (ct_registry c) vm = Some (StRunning r)"
  shows "follows X rt c (CmdStop vm)"
proof -
  have sorted: "bt_sorted (ct_registry c)" and own: "rv_vm_id r = vm" using conn get by (force simp: connected_def)+
  obtain rt' t m where t: "control_step X c (CmdStop vm) = (staged c rt' vm (StStopped t), Ok m)"
    "sv_vm_id t = vm" "logged (ct_runtime c) [(''vm_stop'', vm, ''allow'')] rt'"
    using stop_step [OF sorted own, of X "ct_runtime c"] staged_same [OF sorted get] by metis
  show ?thesis
    by (rule follows_staged [OF conn t(1,3)]) (use t(2) get in \<open>simp_all add: spec_command_def\<close>)
qed

lemma destroy_follows:
  assumes conn: "connected rt c" and get: "bt_get (ct_registry c) vm = Some (StStopped t)"
  shows "follows X rt c (CmdDestroy vm True)"
proof -
  have sorted: "bt_sorted (ct_registry c)" and own: "sv_vm_id t = vm" using conn get by (force simp: connected_def)+
  obtain rt' m where d: "control_step X c (CmdDestroy vm True) = (staged c rt' vm StDestroyed, Ok m)"
    "logged (ct_runtime c) [(''destroy'', vm, ''allow'')] rt'"
    using destroy_step [OF sorted own, of X "ct_runtime c"] staged_same [OF sorted get] by metis
  show ?thesis
    by (rule follows_staged [OF conn d]) (use get in \<open>simp_all add: spec_command_def\<close>)
qed

text \<open>A snapshot also files a receipt under its name, which no stage depends on.\<close>

lemma follows_filed:
  assumes conn: "connected rt c" and step: "control_step X c cmd = ((staged c rt' vm st)\<lparr>ct_snapshots := sn\<rparr>, r)"
    and log: "logged (ct_runtime c) es rt'" and own: "stage_of vm st"
    and spec: "spec_command X rt (abs_control c) cmd = (advance (abs_control c) vm (abs_stage st) es, verdict_of r)"
  shows "follows X rt c cmd"
proof -
  have "abs_control ((staged c rt' vm st)\<lparr>ct_snapshots := sn\<rparr>) = abs_control (staged c rt' vm st)"
    "connected rt ((staged c rt' vm st)\<lparr>ct_snapshots := sn\<rparr>) = connected rt (staged c rt' vm st)"
    by (simp_all add: abs_control_def connected_def)
  with connected_staged [OF conn log own] abs_control_staged [OF log] step spec show ?thesis
    by (simp add: follows_def)
qed

lemma snapshot_taken:
  assumes "bt_sorted (ct_registry c)" "pz_vm_id p = vm"
  obtains rt' sn m where
    "snapshot_paused X (taken c rt vm) vm name p = ((staged c rt' vm StSnapshotted)\<lparr>ct_snapshots := sn\<rparr>, Ok m)"
    "logged rt [(''snapshot'', vm, ''allow'')] rt'"
proof -
  obtain rt' d where d: "vm_snapshot_op X rt p = (rt', Ok d)" "logged rt [(''snapshot'', vm, ''allow'')] rt'"
    by (simp add: assms(2) vm_snapshot_op_def event_str_def Let_def)
  have put: "registry_insert ((taken c rt' vm)\<lparr>ct_snapshots := sn\<rparr>) vm st
      = (staged c rt' vm st)\<lparr>ct_snapshots := sn\<rparr>" for sn st
    using assms(1) by (simp add: registry_insert_def taken_def staged_def bt_insert_remove)
  show thesis
    by (rule that [OF _ d(2)]) (simp add: snapshot_paused_def d(1) put Let_def)
qed

lemma snapshot_follows:
  assumes conn: "connected rt c" and get: "bt_get (ct_registry c) vm = Some st"
    and st: "st = StPaused p \<or> st = StRunning r"
  shows "follows X rt c (CmdSnapshot vm name)"
proof -
  have sorted: "bt_sorted (ct_registry c)" using conn by (simp add: connected_def)
  have own: "stage_of vm st" using conn get by (simp add: connected_def)
  have take: "registry_take c vm = (taken c (ct_runtime c) vm, Ok st)"
    using take_staged(1) [of c "ct_runtime c" vm st] by (simp add: staged_same [OF sorted get])
  from st show ?thesis
  proof
    assume st: "st = StPaused p"
    with own have "pz_vm_id p = vm" by simp
    then obtain rt' sn m where
      "snapshot_paused X (taken c (ct_runtime c) vm) vm name p = ((staged c rt' vm StSnapshotted)\<lparr>ct_snapshots := sn\<rparr>, Ok m)"
      and log: "logged (ct_runtime c) [(''snapshot'', vm, ''allow'')] rt'" by (rule snapshot_taken [OF sorted])
    then have "control_step X c (CmdSnapshot vm name) = ((staged c rt' vm StSnapshotted)\<lparr>ct_snapshots := sn\<rparr>, Ok m)"
      by (simp add: control_step_def vm_snapshot_def take st)
    then show ?thesis
      by (rule follows_filed [OF conn _ log]) (use get st in \<open>simp_all add: spec_command_def\<close>)
  next
    assume st: "st = StRunning r"
    with own obtain rt1 q where q: "vm_pause_op X (ct_runtime c) r = (rt1, Ok q)" "pz_vm_id q = vm"
      "logged (ct_runtime c) [(''vm_pause'', vm, ''allow'')] rt1"
      by (simp add: vm_pause_op_def)
    obtain rt2 sn m where
      "snapshot_paused X (taken c rt1 vm) vm name q = ((staged c rt2 vm StSnapshotted)\<lparr>ct_snapshots := sn\<rparr>, Ok m)"
      and log: "logged rt1 [(''snapshot'', vm, ''allow'')] rt2" by (rule snapshot_taken [OF sorted q(2)])
    then have "control_step X c (CmdSnapshot vm name) = ((staged c rt2 vm StSnapshotted)\<lparr>ct_snapshots := sn\<rparr>, Ok m)"
      by (simp add: control_step_def vm_snapshot_def take st q(1))
    then show ?thesis
      by (rule follows_filed [OF conn _ logged_trans [OF q(3) log]])
         (use get st in \<open>simp_all add: spec_command_def\<close>)
  qed
qed

text \<open>A launch is described when the capsule has at most 2 to the 51 devices.\<close>

definition few_devices :: "stage_map \<Rightarrow> bool" where
  "few_devices m \<longleftrightarrow> (\<forall>vm cap. m vm = Some (SpDefined cap) \<or> m vm = Some (SpVerified cap)
     \<longrightarrow> capsule_device_count cap \<le> 2 ^ 51)"

lemma command_follows:
  assumes conn: "connected rt c" and few: "few_devices (fst (abs_control c))"
  shows "follows X rt c cmd"
proof (cases "command_target cmd")
  case None
  then show ?thesis
    by (cases cmd) (simp_all add: command_target_def define_follows [OF conn])
next
  case target: (Some vm)
  show ?thesis
  proof (cases "\<exists>st. bt_get (ct_registry c) vm = Some st \<and> wants cmd st")
    case False
    then show ?thesis using follows_wrong_stage [OF conn target] by blast
  next
    case True
    then obtain st where get: "bt_get (ct_registry c) vm = Some st" and wants: "wants cmd st" by blast
    have dev: "capsule_device_count (vv_capsule v) \<le> 2 ^ 51" if "st = StVerified v" for v
      using few get that unfolding few_devices_def by (metis abs_stage_simps(2) fst_abs_control option.simps(9))
    show ?thesis
      using wants target get dev
      by (cases cmd; cases st)
         (auto simp: wants_def command_target_def verify_follows [OF conn] launch_follows [OF conn]
           pause_follows [OF conn] stop_follows [OF conn] destroy_follows [OF conn] snapshot_follows [OF conn])
  qed
qed

lemma few_devices_command:
  assumes "few_devices (fst s)"
    "\<And>json cap. cmd = CmdDefine json \<Longrightarrow> descriptor_capsule X rt json = Some cap \<Longrightarrow> capsule_device_count cap \<le> 2 ^ 51"
  shows "few_devices (fst (fst (spec_command X rt s cmd)))"
proof -
  have put: "few_devices ((fst s)(vm \<mapsto> st))"
    if "\<And>cap. st = SpDefined cap \<or> st = SpVerified cap \<Longrightarrow> capsule_device_count cap \<le> 2 ^ 51" for vm st
    using assms(1) that by (simp add: few_devices_def)
  have old: "capsule_device_count cap \<le> 2 ^ 51" if "fst s vm = Some (SpDefined cap)" for vm cap
    using assms(1) that unfolding few_devices_def by blast
  show ?thesis
    by (cases cmd)
       (auto simp: spec_command_def advance_def assms(1) intro!: put dest: assms(2) old
         split: option.split stage_spec.split)
qed

lemma session_follows:
  assumes "connected rt c" "few_devices (fst (abs_control c))"
    "\<forall>json cap. CmdDefine json \<in> set cmds \<longrightarrow> descriptor_capsule X rt json = Some cap \<longrightarrow> capsule_device_count cap \<le> 2 ^ 51"
  shows "case control_session X c cmds of (c', results) \<Rightarrow>
    spec_session X rt (abs_control c) cmds = (abs_control c', map verdict_of results)"
  using assms
proof (induction cmds arbitrary: c)
  case (Cons cmd cmds)
  obtain c1 r where step: "control_step X c cmd = (c1, r)" by fastforce
  with command_follows [OF Cons.prems(1,2), of X cmd]
  have spec: "spec_command X rt (abs_control c) cmd = (abs_control c1, verdict_of r)" and conn: "connected rt c1"
    by (simp_all add: follows_def)
  have "few_devices (fst (abs_control c1))"
    using few_devices_command [OF Cons.prems(2), of cmd X rt] Cons.prems(3) by (simp add: spec)
  from Cons.IH [OF conn this] Cons.prems(3) step spec show ?case
    by (auto simp: Let_def split: prod.splits)
qed simp

subsection \<open>Properties\<close>

text \<open>C3: The control plane is the small machine. For every sequence of commands on a new control
  plane, the stages of all machines, the log of all decisions on the receipt chain, and which
  commands were accepted, refused, or marked their machine failed, are exactly what
  \<open>spec_session\<close> computes from the commands and the settings, as long as no descriptor asks
  for more than 2 to the 51 devices.\<close>

theorem control_plane_is_stage_machine:
  assumes "\<forall>json cap. CmdDefine json \<in> set cmds
    \<longrightarrow> descriptor_capsule X (runtime_new doc kms hv) json = Some cap \<longrightarrow> capsule_device_count cap \<le> 2 ^ 51"
  shows "case control_session X (control_new doc kms hv) cmds of (c, results) \<Rightarrow>
    spec_session X (runtime_new doc kms hv) (Map.empty, []) cmds = (abs_control c, map verdict_of results)"
  using session_follows [OF connected_new _ assms] by (simp add: few_devices_def)

lemma sample_descriptor:
  "descriptor_capsule sample_control_env (runtime_new sample_policy_doc sample_kms 3) ''d'' = Some sample_into"
  by (simp add: descriptor_capsule_def runtime_new_def sample_into_capsule)

lemma sample_into_ready:
  "capsule_admitted sample_control_env (runtime_new sample_policy_doc sample_kms 3) sample_into"
  "capsule_runs (runtime_new sample_policy_doc sample_kms 3) sample_into"
  using sample_into_runs by (simp_all add: capsule_ready_split)

definition sample_commands :: "control_command list" where
  "sample_commands = [CmdDefine ''d'', CmdLaunch ''vm-1'', CmdVerify ''vm-1'', CmdLaunch ''vm-1'', CmdPause ''vm-1'',
     CmdStop ''vm-1'', CmdSnapshot ''vm-1'' ''s'', CmdDestroy ''vm-1'' True]"

lemma sample_spec_session:
  "spec_session sample_control_env (runtime_new sample_policy_doc sample_kms 3) (Map.empty, []) sample_commands =
     (([''vm-1'' \<mapsto> SpSnapshotted],
       map (\<lambda>ev. (ev, ''vm-1'', ''allow'')) [''vm_define'', ''manifest_verify'', ''vm_prepare'', ''key_release'',
         ''device_assign'', ''vm_launch'', ''vm_pause'', ''snapshot'']),
      [Accepted, Refused, Accepted, Accepted, Accepted, Refused, Accepted, Refused])"
  using sample_into_ready
  by (simp add: sample_commands_def spec_command_def sample_descriptor sample_into_vm advance_def launch_log_def
      capsule_runs_def Let_def)

lemma control_plane_is_stage_machine_witness:
  "case control_session sample_control_env (control_new sample_policy_doc sample_kms 3) sample_commands of (c, results) \<Rightarrow>
     map verdict_of results = [Accepted, Refused, Accepted, Accepted, Accepted, Refused, Accepted, Refused]
   \<and> abs_control c = ([''vm-1'' \<mapsto> SpSnapshotted],
       map (\<lambda>ev. (ev, ''vm-1'', ''allow'')) [''vm_define'', ''manifest_verify'', ''vm_prepare'', ''key_release'',
         ''device_assign'', ''vm_launch'', ''vm_pause'', ''snapshot''])"
proof -
  have few: "\<forall>json cap. CmdDefine json \<in> set sample_commands
    \<longrightarrow> descriptor_capsule sample_control_env (runtime_new sample_policy_doc sample_kms 3) json = Some cap
    \<longrightarrow> capsule_device_count cap \<le> 2 ^ 51"
    using sample_into_few by (simp add: sample_commands_def sample_descriptor)
  show ?thesis
    using control_plane_is_stage_machine [OF few] unfolding sample_spec_session
    by (auto split: prod.splits)
qed

end
