(* ===== verification/Transitions.thy ===== *)
theory Transitions
  imports MachineLife
begin

text \<open>
  The lifecycle as its clients see it: any sequence of calls, on any number of machines, in
  any order. Every call is a transition of the documented state diagram, given as a table
  with its gate and the log entry it leaves; and a machine that runs has passed every gate
  with the very capsule it was defined with.
\<close>

subsection \<open>Calls of the lifecycle\<close>

datatype vm_op = OpVerify | OpPrepare | OpUnlock | OpAttach | OpRun | OpPause | OpSnapshot | OpStop | OpDestroy

text \<open>
  A machine is named by the number of definitions before it. It is there in one of the typed
  states, or gone: an operation consumes its argument.
\<close>

datatype fate = Destroyed | Snapshotted | Failed | Dropped

datatype slot = Live vm_value | Gone fate

datatype api_call = Define vm_capsule | Call vm_op nat | Peek nat | Drop nat

definition settle :: "('a \<Rightarrow> slot) \<Rightarrow> slate_runtime \<times> (vm_error + 'a) \<Rightarrow> slate_runtime \<times> slot" where
  "settle mk res = (case res of (rt', Inr x) \<Rightarrow> (rt', mk x) | (rt', Inl e) \<Rightarrow> (rt', Gone Failed))"

lemma settle_simps [simp]:
  "settle mk (rt', Ok x) = (rt', mk x)" "settle mk (rt', Err e) = (rt', Gone Failed)"
  by (simp_all add: settle_def)

text \<open>An operation on a machine in another state than it takes does not compile.\<close>

definition perform :: "('x) attest_env_scheme \<Rightarrow> slate_runtime \<Rightarrow> vm_value \<Rightarrow> vm_op \<Rightarrow> (slate_runtime \<times> slot) option" where
  "perform X rt v op = (case (op, v) of
       (OpVerify, DefinedVm h) \<Rightarrow> Some (settle (\<lambda>w. Live (VerifiedVm w)) (vm_verify_op X rt h))
     | (OpPrepare, VerifiedVm w) \<Rightarrow> Some (settle (\<lambda>p. Live (PreparedVm p)) (vm_prepare_op X rt w))
     | (OpUnlock, PreparedVm p) \<Rightarrow> Some (settle (\<lambda>u. Live (UnlockedVm u)) (vm_unlock_op X rt p))
     | (OpAttach, UnlockedVm u) \<Rightarrow> Some (settle (\<lambda>a. Live (AttachedVm a)) (vm_attach_op X rt u))
     | (OpRun, AttachedVm a) \<Rightarrow> Some (settle (\<lambda>r. Live (RunningVm r)) (vm_run_op X rt a))
     | (OpPause, RunningVm r) \<Rightarrow> Some (settle (\<lambda>p. Live (PausedVm p)) (vm_pause_op X rt r))
     | (OpSnapshot, PausedVm p) \<Rightarrow> Some (settle (\<lambda>_. Gone Snapshotted) (vm_snapshot_op X rt p))
     | (OpStop, RunningVm r) \<Rightarrow> Some (settle (\<lambda>t. Live (StoppedVm t)) (vm_stop_op X rt r))
     | (OpDestroy, StoppedVm t) \<Rightarrow>
         Some (case vm_destroy_op X rt t of (rt', res, t') \<Rightarrow> settle (\<lambda>_. Gone Destroyed) (rt', res))
     | _ \<Rightarrow> None)"

type_synonym api_state = "slate_runtime \<times> slot list"

definition api_step :: "('x) attest_env_scheme \<Rightarrow> api_state \<Rightarrow> api_call \<Rightarrow> api_state" where
  "api_step X s call = (case s of (rt, slots) \<Rightarrow>
     (case call of
        Define c \<Rightarrow> (case settle (\<lambda>h. Live (DefinedVm h)) (vm_define_op X rt c) of (rt', sl) \<Rightarrow> (rt', slots @ [sl]))
      | Call op i \<Rightarrow>
          if i < length slots
          then (case slots ! i of
                  Live v \<Rightarrow> (case perform X rt v op of Some (rt', sl) \<Rightarrow> (rt', slots[i := sl]) | None \<Rightarrow> s)
                | Gone f \<Rightarrow> s)
          else s
      | Peek i \<Rightarrow>
          if i < length slots
          then (case slots ! i of
                  Live (RunningVm r) \<Rightarrow> (rt, slots[i := Live (RunningVm (fst (peek_next_runnable r)))])
                | _ \<Rightarrow> s)
          else s
      | Drop i \<Rightarrow>
          if i < length slots
          then (case slots ! i of Live v \<Rightarrow> (rt, slots[i := Gone Dropped]) | Gone f \<Rightarrow> s)
          else s))"

definition api_run :: "('x) attest_env_scheme \<Rightarrow> api_call list \<Rightarrow> api_state \<Rightarrow> api_state" where
  "api_run X calls s = fold (\<lambda>call s. api_step X s call) calls s"

lemma api_run_simps [simp]:
  "api_run X [] s = s" "api_run X (call # calls) s = api_run X calls (api_step X s call)"
  by (simp_all add: api_run_def)

text \<open>The capsules of the machines, by their number.\<close>

definition defined :: "api_call list \<Rightarrow> vm_capsule list" where
  "defined calls = concat (map (\<lambda>call. case call of Define c \<Rightarrow> [c] | _ \<Rightarrow> []) calls)"

lemma defined_simps [simp]:
  "defined [] = []" "defined (Define c # calls) = c # defined calls" "defined (Call op i # calls) = defined calls"
  "defined (Peek i # calls) = defined calls" "defined (Drop i # calls) = defined calls"
  by (simp_all add: defined_def)

subsection \<open>The documented diagram\<close>

text \<open>
  Each operation with the state it takes, the one it leads to, the event of its receipt, its
  gate, and what a refusal leaves on the log. The diagram of the documentation has no edge
  for a snapshot, which ends a paused machine; its resume edge is no operation of the code.
\<close>

definition op_source :: "vm_op \<Rightarrow> vm_state" where
  "op_source op = (case op of OpVerify \<Rightarrow> VsDefined | OpPrepare \<Rightarrow> VsVerified | OpUnlock \<Rightarrow> VsPrepared
     | OpAttach \<Rightarrow> VsUnlocked | OpRun \<Rightarrow> VsAttached | OpPause \<Rightarrow> VsRunning | OpSnapshot \<Rightarrow> VsPaused
     | OpStop \<Rightarrow> VsRunning | OpDestroy \<Rightarrow> VsStopped)"

datatype spec_slot = SpecLive vm_capsule vm_state | SpecGone fate

definition op_target :: "vm_capsule \<Rightarrow> vm_op \<Rightarrow> spec_slot" where
  "op_target c op = (case op of OpVerify \<Rightarrow> SpecLive c VsVerified | OpPrepare \<Rightarrow> SpecLive c VsPrepared
     | OpUnlock \<Rightarrow> SpecLive c VsUnlocked | OpAttach \<Rightarrow> SpecLive c VsAttached | OpRun \<Rightarrow> SpecLive c VsRunning
     | OpPause \<Rightarrow> SpecLive c VsPaused | OpSnapshot \<Rightarrow> SpecGone Snapshotted | OpStop \<Rightarrow> SpecLive c VsStopped
     | OpDestroy \<Rightarrow> SpecGone Destroyed)"

definition op_event :: "vm_op \<Rightarrow> string" where
  "op_event op = (case op of OpVerify \<Rightarrow> ''manifest_verify'' | OpPrepare \<Rightarrow> ''vm_prepare''
     | OpUnlock \<Rightarrow> ''key_release'' | OpAttach \<Rightarrow> ''device_assign'' | OpRun \<Rightarrow> ''vm_launch''
     | OpPause \<Rightarrow> ''vm_pause'' | OpSnapshot \<Rightarrow> ''snapshot'' | OpStop \<Rightarrow> ''vm_stop'' | OpDestroy \<Rightarrow> ''destroy'')"

definition op_gate :: "('x) attest_env_scheme \<Rightarrow> slate_runtime \<Rightarrow> vm_capsule \<Rightarrow> vm_op \<Rightarrow> bool" where
  "op_gate X rt c op = (case op of OpVerify \<Rightarrow> capsule_admitted X rt c | OpPrepare \<Rightarrow> capsule_memory_ok c
     | OpUnlock \<Rightarrow> capsule_key_ok rt c (capsule_vm_id c) | OpAttach \<Rightarrow> passthrough_allowed rt c | _ \<Rightarrow> True)"

definition op_refusal :: "('x) attest_env_scheme \<Rightarrow> slate_runtime \<Rightarrow> vm_capsule \<Rightarrow> vm_op \<Rightarrow> log_entry list" where
  "op_refusal X rt c op = (case op of OpVerify \<Rightarrow> verify_refusal_log X rt c
     | OpUnlock \<Rightarrow> [(''key_release'', capsule_vm_id c, ''deny'')]
     | OpAttach \<Rightarrow> [(''device_assign'', capsule_vm_id c, ''deny'')] | _ \<Rightarrow> [])"

lemmas op_tables = op_source_def op_target_def op_event_def op_gate_def op_refusal_def

type_synonym spec_state = "spec_slot list \<times> log_entry list"

definition spec_step :: "('x) attest_env_scheme \<Rightarrow> slate_runtime \<Rightarrow> spec_state \<Rightarrow> api_call \<Rightarrow> spec_state" where
  "spec_step X rt s call = (case s of (ms, log) \<Rightarrow>
     (case call of
        Define c \<Rightarrow> (ms @ [SpecLive c VsDefined], log @ [(''vm_define'', capsule_vm_id c, ''allow'')])
      | Call op i \<Rightarrow>
          if i < length ms
          then (case ms ! i of
                  SpecLive c st \<Rightarrow>
                    if st \<noteq> op_source op then s
                    else if op_gate X rt c op
                    then (ms[i := op_target c op], log @ [(op_event op, capsule_vm_id c, ''allow'')])
                    else (ms[i := SpecGone Failed], log @ op_refusal X rt c op)
                | SpecGone f \<Rightarrow> s)
          else s
      | Peek i \<Rightarrow> s
      | Drop i \<Rightarrow>
          if i < length ms
          then (case ms ! i of SpecLive c st \<Rightarrow> (ms[i := SpecGone Dropped], log) | SpecGone f \<Rightarrow> s)
          else s))"

definition spec_run :: "('x) attest_env_scheme \<Rightarrow> slate_runtime \<Rightarrow> api_call list \<Rightarrow> spec_state \<Rightarrow> spec_state" where
  "spec_run X rt calls s = fold (\<lambda>call s. spec_step X rt s call) calls s"

lemma spec_run_simps [simp]:
  "spec_run X rt [] s = s" "spec_run X rt (call # calls) s = spec_run X rt calls (spec_step X rt s call)"
  by (simp_all add: spec_run_def)

subsection \<open>Every call is a transition of the diagram\<close>

text \<open>A machine and its description: same state, same id, and the capsule as far as it is kept.\<close>

definition described :: "vm_capsule \<Rightarrow> vm_value \<Rightarrow> bool" where
  "described c v \<longleftrightarrow> value_vm_id v = capsule_vm_id c \<and>
     (case v of DefinedVm h \<Rightarrow> vh_capsule h = c | VerifiedVm w \<Rightarrow> vv_capsule w = c | PreparedVm p \<Rightarrow> pv_capsule p = c
      | UnlockedVm u \<Rightarrow> uv_capsule u = c | AttachedVm a \<Rightarrow> av_capsule a = c
      | RunningVm r \<Rightarrow> rn_verified_manifest (rv_runnable r) = vc_manifest c
      | PausedVm p \<Rightarrow> rn_verified_manifest (pz_runnable p) = vc_manifest c | StoppedVm t \<Rightarrow> True)"

fun corresponds :: "slot \<Rightarrow> spec_slot \<Rightarrow> bool" where
  "corresponds (Live v) (SpecLive c st) \<longleftrightarrow> value_state v = st \<and> described c v"
| "corresponds (Gone f) (SpecGone g) \<longleftrightarrow> f = g"
| "corresponds _ _ \<longleftrightarrow> False"

lemmas described_defs = described_def value_vm_id_def value_state_def

lemma perform_wrong_state: "value_state v \<noteq> op_source op \<Longrightarrow> perform X rt v op = None"
  by (cases op; cases v) (simp_all add: perform_def op_source_def value_state_def)

text \<open>One operation, on a machine in the state it takes.\<close>

definition follows_diagram ::
  "('x) attest_env_scheme \<Rightarrow> slate_runtime \<Rightarrow> vm_capsule \<Rightarrow> vm_value \<Rightarrow> vm_op \<Rightarrow> bool" where
  "follows_diagram X rt c v op \<longleftrightarrow>
     (case perform X rt v op of None \<Rightarrow> False | Some (rt', sl) \<Rightarrow>
        if op_gate X rt c op
        then corresponds sl (op_target c op) \<and> logged rt [(op_event op, capsule_vm_id c, ''allow'')] rt'
        else sl = Gone Failed \<and> logged rt (op_refusal X rt c op) rt')"

lemma verify_follows_diagram:
  assumes "described c (DefinedVm h)"
  shows "follows_diagram X rt c (DefinedVm h) OpVerify"
proof -
  have h: "vh_capsule h = c" "vh_vm_id h = capsule_vm_id c" using assms by (simp_all add: described_defs)
  show ?thesis
  proof (cases "capsule_admitted X rt c")
    case True
    with h show ?thesis
      by (cases rule: verify_op_cases [of h rt X])
         (simp_all add: follows_diagram_def perform_def op_tables described_defs)
  next
    case False
    with h obtain rt' e where "vm_verify_op X rt h = (rt', Err e)" "logged rt (verify_refusal_log X rt c) rt'"
      using verify_refused [of X rt h] by metis
    with False show ?thesis by (simp add: follows_diagram_def perform_def op_tables)
  qed
qed

lemma prepare_follows_diagram:
  assumes "described c (VerifiedVm w)"
  shows "follows_diagram X rt c (VerifiedVm w) OpPrepare"
  using assms
  by (cases rule: prepare_op_cases [of w X rt])
     (simp_all add: follows_diagram_def perform_def op_tables described_defs)

lemma unlock_follows_diagram:
  assumes "described c (PreparedVm p)"
  shows "follows_diagram X rt c (PreparedVm p) OpUnlock"
  using assms
  by (cases rule: unlock_op_cases [of rt p X])
     (simp_all add: follows_diagram_def perform_def op_tables described_defs capsule_key_ok_def)

lemma attach_follows_diagram:
  assumes "described c (UnlockedVm u)" "capsule_device_count c \<le> 2 ^ 51"
  shows "follows_diagram X rt c (UnlockedVm u) OpAttach"
proof -
  have u: "uv_capsule u = c" "uv_vm_id u = capsule_vm_id c" using assms(1) by (simp_all add: described_defs)
  with assms(2) have "capsule_device_count (uv_capsule u) \<le> 2 ^ 51" by simp
  then show ?thesis
    by (cases rule: attach_op_cases [of u rt X])
       (simp_all add: u follows_diagram_def perform_def op_tables described_defs)
qed

lemma run_follows_diagram:
  "described c (AttachedVm a) \<Longrightarrow> follows_diagram X rt c (AttachedVm a) OpRun"
  "described c (RunningVm r) \<Longrightarrow> follows_diagram X rt c (RunningVm r) OpPause"
  "described c (RunningVm r) \<Longrightarrow> follows_diagram X rt c (RunningVm r) OpStop"
  "described c (PausedVm p) \<Longrightarrow> follows_diagram X rt c (PausedVm p) OpSnapshot"
  "described c (StoppedVm t) \<Longrightarrow> follows_diagram X rt c (StoppedVm t) OpDestroy"
  by (simp_all add: follows_diagram_def perform_def op_tables described_defs vm_run_op_def vm_pause_op_def
      vm_stop_op_def vm_snapshot_op_def vm_destroy_op_def set_vcpu_states_def event_str_def Let_def)

lemma perform_follows_diagram:
  assumes "described c v" "value_state v = op_source op" "capsule_device_count c \<le> 2 ^ 51"
  shows "follows_diagram X rt c v op"
  using assms
  by (cases op; cases v)
     (simp_all add: op_source_def value_state_def verify_follows_diagram prepare_follows_diagram
       unlock_follows_diagram attach_follows_diagram run_follows_diagram)

text \<open>A call, on all machines.\<close>

definition same_settings :: "slate_runtime \<Rightarrow> slate_runtime \<Rightarrow> bool" where
  "same_settings rt0 rt \<longleftrightarrow> rt_policy rt = rt_policy rt0 \<and> rt_kms rt = rt_kms rt0
     \<and> rt_hypervisor_version rt = rt_hypervisor_version rt0"

lemma same_settings_tables:
  assumes "same_settings rt0 rt"
  shows "op_gate X rt = op_gate X rt0" "op_refusal X rt = op_refusal X rt0"
  using assms gates_settings [of rt rt0]
  by (simp_all add: same_settings_def fun_eq_iff op_gate_def op_refusal_def split: vm_op.split)

lemma same_settings_logged: "same_settings rt0 rt \<Longrightarrow> logged rt es rt' \<Longrightarrow> same_settings rt0 rt'"
  by (simp add: same_settings_def logged_def)

definition small :: "spec_slot \<Rightarrow> bool" where
  "small m = (case m of SpecLive c st \<Rightarrow> capsule_device_count c \<le> 2 ^ 51 | SpecGone f \<Rightarrow> True)"

definition simulates :: "slate_runtime \<Rightarrow> api_state \<Rightarrow> spec_state \<Rightarrow> bool" where
  "simulates rt0 s t \<longleftrightarrow> same_settings rt0 (fst s) \<and> list_all2 corresponds (snd s) (fst t) \<and> list_all small (fst t)
     \<and> chain_log (rt_receipts (fst s)) = snd t"

lemma simulates_update:
  assumes "simulates rt0 (rt, slots) (ms, log)" "logged rt es rt'" "corresponds sl m" "small m"
  shows "simulates rt0 (rt', slots[i := sl]) (ms[i := m], log @ es)"
  using assms same_settings_logged [of rt0 rt es rt'] set_update_subset_insert [of ms i m]
  by (auto simp: simulates_def logged_def list_all2_update_cong list_all_iff)

lemma simulates_nth:
  assumes "simulates rt0 (rt, slots) (ms, log)"
  shows "length slots = length ms" "i < length ms \<Longrightarrow> corresponds (slots ! i) (ms ! i) \<and> small (ms ! i)"
  using assms by (auto simp: simulates_def list_all2_lengthD list_all2_nthD list_all_length)

lemma call_simulates:
  assumes sim: "simulates rt0 (rt, slots) (ms, log)" and i: "i < length ms"
    and live: "slots ! i = Live v" "ms ! i = SpecLive c st"
  shows "simulates rt0 (api_step X (rt, slots) (Call op i)) (spec_step X rt0 (ms, log) (Call op i))"
proof -
  have len: "i < length slots" using simulates_nth(1) [OF sim] i by simp
  have d: "described c v" "value_state v = st" "capsule_device_count c \<le> 2 ^ 51" "small (op_target c op)"
    using simulates_nth(2) [OF sim i] live by (auto simp: small_def op_target_def split: vm_op.split)
  show ?thesis
  proof (cases "st = op_source op")
    case False
    with d sim i len live show ?thesis
      by (simp add: api_step_def spec_step_def perform_wrong_state)
  next
    case True
    from perform_follows_diagram [of c v op X rt] d True
    obtain rt' sl where p: "perform X rt v op = Some (rt', sl)"
      and res: "if op_gate X rt c op
        then corresponds sl (op_target c op) \<and> logged rt [(op_event op, capsule_vm_id c, ''allow'')] rt'
        else sl = Gone Failed \<and> logged rt (op_refusal X rt c op) rt'"
      by (auto simp: follows_diagram_def split: option.splits)
    have tabs: "op_gate X rt = op_gate X rt0" "op_refusal X rt = op_refusal X rt0"
      using sim by (simp_all add: simulates_def same_settings_tables)
    show ?thesis
    proof (cases "op_gate X rt0 c op")
      case gate: True
      with res have "simulates rt0 (rt', slots[i := sl]) (ms[i := op_target c op],
          log @ [(op_event op, capsule_vm_id c, ''allow'')])"
        using simulates_update [OF sim _ _ d(4)] by (simp add: tabs)
      with gate True p i len live show ?thesis by (simp add: api_step_def spec_step_def)
    next
      case gate: False
      with res have "simulates rt0 (rt', slots[i := sl]) (ms[i := SpecGone Failed], log @ op_refusal X rt0 c op)"
        using simulates_update [OF sim, of "op_refusal X rt0 c op" rt' sl "SpecGone Failed" i]
        by (simp add: tabs small_def)
      with gate True p i len live show ?thesis by (simp add: api_step_def spec_step_def)
    qed
  qed
qed

lemma api_step_simulates:
  assumes sim: "simulates rt0 s t" and few: "\<And>c. call = Define c \<Longrightarrow> capsule_device_count c \<le> 2 ^ 51"
  shows "simulates rt0 (api_step X s call) (spec_step X rt0 t call)"
proof -
  obtain rt slots ms log where st: "s = (rt, slots)" "t = (ms, log)" by fastforce
  note sim' = sim [unfolded st]
  note len = simulates_nth(1) [OF sim']
  show ?thesis
  proof (cases call)
    case (Define c)
    have "logged rt [(''vm_define'', capsule_vm_id c, ''allow'')] (fst (vm_define_op X rt c))"
      by (simp add: define_op_eq capsule_vm_id_def)
    with sim' few [OF Define] same_settings_logged [OF _ this, of rt0] show ?thesis
      by (simp add: st Define api_step_def spec_step_def define_op_eq simulates_def described_defs
          capsule_vm_id_def small_def logged_def list_all2_appendI)
  next
    case (Call op i)
    show ?thesis
    proof (cases "i < length ms")
      case True
      with simulates_nth(2) [OF sim' True] consider
          (live) v c where "slots ! i = Live v" "ms ! i = SpecLive c (value_state v)"
        | (gone) f where "slots ! i = Gone f" "ms ! i = SpecGone f"
        by (cases "slots ! i"; cases "ms ! i") auto
      then show ?thesis
      proof cases
        case live
        from call_simulates [OF sim' True this] show ?thesis by (simp add: st Call)
      next
        case gone
        with sim' show ?thesis by (simp add: st Call api_step_def spec_step_def)
      qed
    qed (use sim' len in \<open>simp add: st Call api_step_def spec_step_def\<close>)
  next
    case (Peek i)
    show ?thesis
    proof (cases "i < length slots \<and> (\<exists>r. slots ! i = Live (RunningVm r))")
      case True
      then obtain r where i: "i < length slots" and r: "slots ! i = Live (RunningVm r)" by blast
      let ?sl = "Live (RunningVm (fst (peek_next_runnable r)))"
      have "corresponds ?sl (ms ! i)" "small (ms ! i)"
        using simulates_nth(2) [OF sim', of i] i r len
        by (cases "ms ! i"; simp add: described_defs peek_next_runnable_def split: prod.split)+
      from simulates_update [OF sim' logged_nothing this, of i] i r show ?thesis
        by (simp add: st Peek api_step_def spec_step_def)
    next
      case False
      with sim' show ?thesis
        by (auto simp: st Peek api_step_def spec_step_def split: slot.split vm_value.split)
    qed
  next
    case (Drop i)
    show ?thesis
    proof (cases "i < length ms")
      case True
      with simulates_nth(2) [OF sim' True] len
        simulates_update [OF sim' logged_nothing, of "Gone Dropped" "SpecGone Dropped" i]
      show ?thesis
        by (cases "slots ! i"; cases "ms ! i")
           (use sim' in \<open>auto simp: st Drop api_step_def spec_step_def small_def\<close>)
    qed (use sim' len in \<open>simp add: st Drop api_step_def spec_step_def\<close>)
  qed
qed

lemma api_run_simulates:
  assumes "simulates rt0 s t" "\<forall>c \<in> set (defined calls). capsule_device_count c \<le> 2 ^ 51"
  shows "simulates rt0 (api_run X calls s) (spec_run X rt0 calls t)"
  using assms
proof (induction calls arbitrary: s t)
  case (Cons call calls)
  have "simulates rt0 (api_step X s call) (spec_step X rt0 t call)"
    by (rule api_step_simulates [OF Cons.prems(1)]) (use Cons.prems(2) in auto)
  moreover have "\<forall>c \<in> set (defined calls). capsule_device_count c \<le> 2 ^ 51"
    using Cons.prems(2) by (cases call) auto
  ultimately show ?case using Cons.IH by simp
qed simp

lemma simulates_new: "simulates (runtime_new doc kms hv) (runtime_new doc kms hv, []) ([], [])"
  by (simp add: simulates_def same_settings_def runtime_new_def)

subsection \<open>A machine and the capsule it was defined with\<close>

definition slot_made_from ::
  "('x) attest_env_scheme \<Rightarrow> signature_verifier \<Rightarrow> slate_runtime \<Rightarrow> vm_capsule \<Rightarrow> slot \<Rightarrow> bool" where
  "slot_made_from X check rt c sl = (case sl of Live v \<Rightarrow> made_from X check rt c v | Gone f \<Rightarrow> True)"

lemma slot_made_from_simps [simp]:
  "slot_made_from X check rt c (Live v) = made_from X check rt c v" "slot_made_from X check rt c (Gone f)"
  by (simp_all add: slot_made_from_def)

text \<open>Every call on a machine is one of the operations of \<open>System\<close>.\<close>

definition live_value :: "slot \<Rightarrow> vm_value option" where
  "live_value sl = (case sl of Live v \<Rightarrow> Some v | Gone f \<Rightarrow> None)"

lemma live_value_simps [simp]: "live_value (Live v) = Some v" "live_value (Gone f) = None"
  by (simp_all add: live_value_def)

lemma settle_outcome:
  assumes "settle (\<lambda>x. Live (mk x)) res = (rt', sl)"
  obtains r where "res = (rt', r)" "live_value sl = outcome mk r"
  using assms by (cases res; cases "snd res") auto

lemma settle_gone:
  assumes "settle (\<lambda>x. Gone f) res = (rt', sl)"
  obtains r where "res = (rt', r)" "live_value sl = None"
  using assms by (cases res; cases "snd res") auto

lemma perform_vm_step:
  assumes "perform X rt v op = Some (rt', sl)"
  shows "vm_step X rt v rt' (live_value sl)"
  using assms
  by (cases op; cases v)
     (auto simp: perform_def split: prod.splits elim!: settle_outcome settle_gone
       intro: vm_step.intros)

lemma api_step_made_from:
  assumes "list_all2 (slot_made_from X check rt) cs slots" "api_step X (rt, slots) call = (rt', slots')"
    "\<forall>c \<in> set (defined [call]). manifest_verified check c"
  shows "list_all2 (slot_made_from X check rt') (cs @ defined [call]) slots'"
proof -
  have keep: "list_all2 (slot_made_from X check rt1) cs slots" if "audited X rt vm rt1" for vm rt1
  proof -
    have "slot_made_from X check rt1 = slot_made_from X check rt"
      by (simp add: fun_eq_iff slot_made_from_def gates_audited(6) [OF that] split: slot.split)
    with assms(1) show ?thesis by simp
  qed
  show ?thesis
  proof (cases call)
    case (Define c)
    have aud: "audited X rt (capsule_vm_id c) (fst (vm_define_op X rt c))"
      using define_audited [of X rt c] by (simp add: capsule_vm_id_def)
    have "made_from X check (fst (vm_define_op X rt c)) c (DefinedVm \<lparr>vh_capsule = c, vh_vm_id = capsule_vm_id c\<rparr>)"
      using assms(3) by (simp add: Define made_from_def value_vm_id_def)
    with keep [OF aud] assms(2) show ?thesis
      by (auto simp: Define api_step_def define_op_eq capsule_vm_id_def intro: list_all2_appendI)
  next
    case (Call op i)
    show ?thesis
    proof (cases "i < length slots \<and> (\<exists>v rt1 sl. slots ! i = Live v \<and> perform X rt v op = Some (rt1, sl))")
      case True
      then obtain v rt1 sl where i: "i < length slots" "slots ! i = Live v" and p: "perform X rt v op = Some (rt1, sl)"
        by blast
      note step = perform_vm_step [OF p]
      note aud = vm_step_audited [OF step]
      have "made_from X check rt (cs ! i) v"
        using list_all2_nthD2 [OF assms(1) i(1)] i(2) by simp
      then have "slot_made_from X check rt1 (cs ! i) sl"
        using made_from_step [of X check rt "cs ! i" v rt1] step by (cases sl) simp_all
      then have "list_all2 (slot_made_from X check rt1) (cs[i := cs ! i]) (slots[i := sl])"
        by (rule list_all2_update_cong [OF keep [OF aud]])
      then show ?thesis using assms(2) i p by (simp add: Call api_step_def)
    next
      case False
      then have "api_step X (rt, slots) call = (rt, slots)"
        by (cases "i < length slots"; cases "slots ! i") (auto simp: Call api_step_def split: option.split)
      with assms show ?thesis by (simp add: Call)
    qed
  next
    case (Peek i)
    show ?thesis
    proof (cases "i < length slots \<and> (\<exists>r. slots ! i = Live (RunningVm r))")
      case True
      then obtain r where i: "i < length slots" "slots ! i = Live (RunningVm r)" by blast
      have "made_from X check rt (cs ! i) (RunningVm r)"
        using list_all2_nthD2 [OF assms(1) i(1)] i(2) by simp
      from made_from_step [OF this vm_step.step_peek]
      have "list_all2 (slot_made_from X check rt) (cs[i := cs ! i])
          (slots[i := Live (RunningVm (fst (peek_next_runnable r)))])"
        by (intro list_all2_update_cong [OF assms(1)]) simp
      then show ?thesis using assms(2) i by (simp add: Peek api_step_def)
    next
      case False
      then have "api_step X (rt, slots) call = (rt, slots)"
        by (cases "i < length slots"; cases "slots ! i") (auto simp: Peek api_step_def split: vm_value.split)
      with assms show ?thesis by (simp add: Peek)
    qed
  next
    case (Drop i)
    have "list_all2 (slot_made_from X check rt) (cs[i := cs ! i]) (slots[i := Gone Dropped])"
      by (intro list_all2_update_cong [OF assms(1)]) simp
    with assms show ?thesis
      by (auto simp: Drop api_step_def split: if_splits slot.splits)
  qed
qed

lemma api_run_made_from:
  assumes "list_all2 (slot_made_from X check (fst s)) cs (snd s)"
    "\<forall>c \<in> set (defined calls). manifest_verified check c"
  shows "list_all2 (slot_made_from X check (fst (api_run X calls s))) (cs @ defined calls) (snd (api_run X calls s))"
  using assms
proof (induction calls arbitrary: s cs)
  case (Cons call calls)
  have parts: "defined (call # calls) = defined [call] @ defined calls" by (cases call) simp_all
  obtain rt slots rt' slots' where s: "s = (rt, slots)" "api_step X (rt, slots) call = (rt', slots')"
    by (metis prod.exhaust)
  have "list_all2 (slot_made_from X check rt') (cs @ defined [call]) slots'"
    using Cons.prems by (intro api_step_made_from [of X check rt cs slots call]) (simp_all add: s parts)
  with Cons.IH [of "(rt', slots')" "cs @ defined [call]"] Cons.prems(2) show ?case
    by (simp add: s parts del: defined_simps)
qed simp

lemma api_step_settings: "same_settings (fst s) (fst (api_step X s call))"
proof -
  obtain rt slots where s: "s = (rt, slots)" by fastforce
  have op: "same_settings rt rt'" if "perform X rt v op = Some (rt', sl)" for v op rt' sl
    using audited_keeps(1-3) [OF vm_step_audited [OF perform_vm_step [OF that]]] by (simp add: same_settings_def)
  have refl: "same_settings rt rt" by (simp add: same_settings_def)
  show ?thesis
    using op refl
    by (cases call) (auto simp: s api_step_def define_op_eq same_settings_def split: slot.split vm_value.split option.split)
qed

lemma api_run_settings: "same_settings (fst s) (fst (api_run X calls s))"
proof (induction calls arbitrary: s)
  case (Cons call calls)
  from Cons [of "api_step X s call"] api_step_settings [of s X call] show ?case
    by (simp add: same_settings_def)
qed (simp add: same_settings_def)

text \<open>The gates of a running machine, one by one.\<close>

lemma running_machine_gates:
  assumes "made_from X check rt c (RunningVm r)"
  defines "m \<equiv> vm_inner (vc_manifest c)"
  shows "rn_verified_manifest (rv_runnable r) = vc_manifest c" "um_vm_id m = rv_vm_id r"
    "um_signatures m \<noteq> []" "check m = SigValid"
    "um_hypervisor_min_version m \<le> rt_hypervisor_version rt"
    "pd_minimum_hypervisor_version (rt_policy rt) \<le> rt_hypervisor_version rt"
    "pd_require_measured_boot (rt_policy rt) \<longrightarrow> vp_measured_boot (vc_policy c)"
    "vp_requests_debug_console (vc_policy c) \<longrightarrow> pd_allow_debug_console (rt_policy rt)"
    "vp_tenant_min_boot_policy (vc_policy c) \<le> um_boot_policy_version m"
    "vp_key_unwrap_authorized (vc_policy c)" "vp_device_policy_ok (vc_policy c)"
    "cm_max_mb (um_memory m) \<le> vp_memory_budget_mb (vc_policy c)"
    "mms_max_mb (vc_memory c) \<le> vp_memory_budget_mb (vc_policy c)" "mms_max_mb (vc_memory c) \<le> 251654144"
    "kpl_boot_policy_hash (vc_key_plan c) = kp_expected_boot_policy_hash (rt_kms rt)"
    "pcr_satisfies (kpl_pcrs (vc_key_plan c)) (kp_expected_pcrs (rt_kms rt))"
    "kpl_capsule_hash (vc_key_plan c) \<in> set (kp_allowed_capsule_hashes (rt_kms rt))"
    "kp_min_hypervisor_version (rt_kms rt) \<le> rt_hypervisor_version rt"
    "das_passthrough (vc_devices c) = [] \<or> pd_allow_device_passthrough (rt_policy rt)"
    "vr_npt (rv_resources r) = guest_table (mms_max_mb (vc_memory c))"
    "vr_reserved_mb (rv_resources r) = mms_max_mb (vc_memory c)"
    "rv_wrapped_vmk r = simulated_wrapped_vmk X (rt_kms rt) (capsule_key_request rt c (rv_vm_id r))"
proof -
  have ready: "capsule_ready X rt c" and man: "rn_verified_manifest (rv_runnable r) = vc_manifest c"
    and vm: "rv_vm_id r = capsule_vm_id c" and ver: "manifest_verified check c"
    and res: "rv_resources r = capsule_resources X c" "rv_wrapped_vmk r = capsule_vmk X rt c"
    using assms(1) by (auto simp: made_from_def value_vm_id_def)
  show "rn_verified_manifest (rv_runnable r) = vc_manifest c" "um_vm_id m = rv_vm_id r"
    using man vm by (simp_all add: m_def capsule_vm_id_def)
  show "um_signatures m \<noteq> []" "check m = SigValid"
    using ver by (auto simp: m_def manifest_verified_def verified_by_def capsule_verify_Ok_iff)
  have adm: "capsule_admitted X rt c" and mem: "capsule_memory_ok c"
    and key: "capsule_key_ok rt c (capsule_vm_id c)" and pass: "passthrough_allowed rt c"
    using ready by (simp_all add: capsule_ready_def)
  show "pd_minimum_hypervisor_version (rt_policy rt) \<le> rt_hypervisor_version rt"
    "pd_require_measured_boot (rt_policy rt) \<longrightarrow> vp_measured_boot (vc_policy c)"
    "vp_requests_debug_console (vc_policy c) \<longrightarrow> pd_allow_debug_console (rt_policy rt)"
    using adm by (auto simp: capsule_admitted_def launch_allow_iff capsule_launch_request_def split: if_splits)
  show "um_hypervisor_min_version m \<le> rt_hypervisor_version rt"
    "vp_tenant_min_boot_policy (vc_policy c) \<le> um_boot_policy_version m"
    "vp_key_unwrap_authorized (vc_policy c)" "vp_device_policy_ok (vc_policy c)"
    "cm_max_mb (um_memory m) \<le> vp_memory_budget_mb (vc_policy c)"
    using adm by (simp_all add: m_def capsule_admitted_def is_ok_iff check_launch_Ok_iff capsule_launch_context_def)
  show "kpl_boot_policy_hash (vc_key_plan c) = kp_expected_boot_policy_hash (rt_kms rt)"
    "pcr_satisfies (kpl_pcrs (vc_key_plan c)) (kp_expected_pcrs (rt_kms rt))"
    "kpl_capsule_hash (vc_key_plan c) \<in> set (kp_allowed_capsule_hashes (rt_kms rt))"
    "kp_min_hypervisor_version (rt_kms rt) \<le> rt_hypervisor_version rt"
    using key by (simp_all add: capsule_key_ok_def deny_reason_None_iff capsule_key_request_def Let_def)
  show "mms_max_mb (vc_memory c) \<le> vp_memory_budget_mb (vc_policy c)" "mms_max_mb (vc_memory c) \<le> 251654144"
    "das_passthrough (vc_devices c) = [] \<or> pd_allow_device_passthrough (rt_policy rt)"
    using mem pass by (simp_all add: capsule_memory_ok_def guest_ram_fits_def passthrough_allowed_def)
  show "vr_npt (rv_resources r) = guest_table (mms_max_mb (vc_memory c))"
    "vr_reserved_mb (rv_resources r) = mms_max_mb (vc_memory c)"
    by (simp_all add: res capsule_resources_def prepared_resources_def)
  show "rv_wrapped_vmk r = simulated_wrapped_vmk X (rt_kms rt) (capsule_key_request rt c (rv_vm_id r))"
    by (simp add: res capsule_vmk_def vm)
qed

subsection \<open>These are all states of a runtime\<close>

lemma settle_live:
  "fst (settle mk (rt', r)) = rt'" "live_value (snd (settle (\<lambda>x. Live (con x)) (rt', r))) = outcome con r"
  "live_value (snd (settle (\<lambda>x. Gone f) (rt', r))) = None" "(rt', snd (settle mk (rt', r))) = settle mk (rt', r)"
  by (cases r; simp)+

lemma vm_step_performed:
  assumes "vm_step X rt v rt' out"
  obtains (call) op sl where "perform X rt v op = Some (rt', sl)" "live_value sl = out"
  | (peek) r where "v = RunningVm r" "rt' = rt" "out = Some (RunningVm (fst (peek_next_runnable r)))"
  using assms
proof cases
  case (step_verify h r)
  then show thesis
    by (intro call [of OpVerify "snd (settle (\<lambda>x. Live (VerifiedVm x)) (rt', r))"])
       (simp_all add: perform_def settle_live)
next
  case (step_prepare w r)
  then show thesis
    by (intro call [of OpPrepare "snd (settle (\<lambda>x. Live (PreparedVm x)) (rt', r))"])
       (simp_all add: perform_def settle_live)
next
  case (step_unlock p r)
  then show thesis
    by (intro call [of OpUnlock "snd (settle (\<lambda>x. Live (UnlockedVm x)) (rt', r))"])
       (simp_all add: perform_def settle_live)
next
  case (step_attach u r)
  then show thesis
    by (intro call [of OpAttach "snd (settle (\<lambda>x. Live (AttachedVm x)) (rt', r))"])
       (simp_all add: perform_def settle_live)
next
  case (step_run a r)
  then show thesis
    by (intro call [of OpRun "snd (settle (\<lambda>x. Live (RunningVm x)) (rt', r))"])
       (simp_all add: perform_def settle_live)
next
  case (step_pause r p)
  then show thesis
    by (intro call [of OpPause "snd (settle (\<lambda>x. Live (PausedVm x)) (rt', p))"])
       (simp_all add: perform_def settle_live)
next
  case (step_snapshot p r)
  then show thesis
    by (intro call [of OpSnapshot "snd (settle (\<lambda>x. Gone Snapshotted) (rt', r))"])
       (simp_all add: perform_def settle_live)
next
  case (step_stop r t)
  then show thesis
    by (intro call [of OpStop "snd (settle (\<lambda>x. Live (StoppedVm x)) (rt', t))"])
       (simp_all add: perform_def settle_live)
next
  case (step_destroy t r t')
  then show thesis
    by (intro call [of OpDestroy "snd (settle (\<lambda>x. Gone Destroyed) (rt', r))"])
       (simp_all add: perform_def settle_live)
qed (use peek in blast)

text \<open>So the states of \<open>System\<close> are the states after calls, with the machines that are gone left out.\<close>

definition live_values :: "slot list \<Rightarrow> vm_value list" where
  "live_values slots = concat (map (\<lambda>sl. case sl of Live v \<Rightarrow> [v] | Gone f \<Rightarrow> []) slots)"

lemma live_values_simps [simp]:
  "live_values [] = []" "live_values (Live v # slots) = v # live_values slots"
  "live_values (Gone f # slots) = live_values slots" "live_values (slots @ slots') = live_values slots @ live_values slots'"
  by (simp_all add: live_values_def)

lemma live_values_split:
  assumes "live_values slots = vs @ v # ws"
  obtains as bs where "slots = as @ Live v # bs" "live_values as = vs" "live_values bs = ws"
  using assms
proof (induction slots arbitrary: vs thesis)
  case (Cons sl slots)
  show ?case
  proof (cases sl)
    case (Gone f)
    with Cons.prems(2) obtain as bs where "slots = as @ Live v # bs" "live_values as = vs" "live_values bs = ws"
      using Cons.IH by auto
    with Gone Cons.prems(1) [of "sl # as" bs] show ?thesis by simp
  next
    case (Live u)
    show ?thesis
    proof (cases vs)
      case Nil
      with Live Cons.prems(2) Cons.prems(1) [of "[]" slots] show ?thesis by simp
    next
      case (Cons u' us)
      with Live Cons.prems(2) have "live_values slots = us @ v # ws" "u' = u" by simp_all
      with Cons.IH obtain as bs where "slots = as @ Live v # bs" "live_values as = us" "live_values bs = ws" by blast
      with Live Cons \<open>u' = u\<close> Cons.prems(1) [of "sl # as" bs] show ?thesis by simp
    qed
  qed
qed simp

lemma defined_append [simp]: "defined (calls @ calls') = defined calls @ defined calls'"
  by (simp add: defined_def)

lemma api_run_append [simp]: "api_run X (calls @ calls') s = api_run X calls' (api_run X calls s)"
  by (simp add: api_run_def)

theorem reachable_after_calls:
  assumes "slate_reachable X check doc kms hv s"
  shows "\<exists>calls slots. (\<forall>c \<in> set (defined calls). manifest_verified check c)
    \<and> api_run X calls (runtime_new doc kms hv, []) = (fst s, slots) \<and> live_values slots = snd s"
  using assms
proof induction
  case reach_new
  show ?case by (intro exI [of _ "[]"]) simp
next
  case (reach_step s s')
  then obtain calls slots where ver: "\<forall>c \<in> set (defined calls). manifest_verified check c"
    and run: "api_run X calls (runtime_new doc kms hv, []) = (fst s, slots)" and live: "live_values slots = snd s"
    by blast
  have extend: ?case if "\<forall>c \<in> set (defined [call]). manifest_verified check c"
      "api_step X (fst s, slots) call = (fst s', slots')" "live_values slots' = snd s'" for call slots'
    using that ver run by (intro exI [of _ "calls @ [call]"] exI [of _ slots']) auto
  from reach_step.hyps(2) show ?case
  proof cases
    case (sys_define hv' bp c rt rt' h vs)
    then show ?thesis
      using live by (intro extend [of "Define c" "slots @ [Live (DefinedVm h)]"])
        (auto simp: api_step_def manifest_verified_def)
  next
    case (sys_step rt v rt' v' vs ws)
    with live obtain as bs where at: "slots = as @ Live v # bs" "live_values as = vs" "live_values bs = ws"
      by (auto elim: live_values_split)
    from sys_step(3) show ?thesis
    proof (cases rule: vm_step_performed)
      case (call op sl)
      then show ?thesis
        using sys_step at by (intro extend [of "Call op (length as)" "as @ sl # bs"])
          (cases sl; simp add: api_step_def nth_append)+
    next
      case (peek r)
      then show ?thesis
        using sys_step at by (intro extend [of "Peek (length as)" "as @ Live v' # bs"])
          (simp_all add: api_step_def nth_append)
    qed
  next
    case (sys_end rt v rt' vs ws)
    with live obtain as bs where at: "slots = as @ Live v # bs" "live_values as = vs" "live_values bs = ws"
      by (auto elim: live_values_split)
    from sys_end(3) show ?thesis
    proof (cases rule: vm_step_performed)
      case (call op sl)
      then show ?thesis
        using sys_end at by (intro extend [of "Call op (length as)" "as @ sl # bs"])
          (cases sl; simp add: api_step_def nth_append)+
    qed simp
  next
    case (sys_drop rt vs v ws)
    with live obtain as bs where at: "slots = as @ Live v # bs" "live_values as = vs" "live_values bs = ws"
      by (auto elim: live_values_split)
    then show ?thesis
      using sys_drop by (intro extend [of "Drop (length as)" "as @ Gone Dropped # bs"])
        (simp_all add: api_step_def nth_append)
  qed
qed

subsection \<open>Two sample lives\<close>

text \<open>The first machine is taken to its destruction while the second, whose capsule asks for a
  debug console, is refused by the policy.\<close>

definition debug_capsule :: vm_capsule where
  "debug_capsule = (sample_capsule ''vm-2'')\<lparr>vc_policy := (vc_policy (sample_capsule ''vm-2''))\<lparr>vp_requests_debug_console := True\<rparr>\<rparr>"

definition launch_calls :: "api_call list" where
  "launch_calls = [Define (sample_capsule ''vm-1''), Define debug_capsule, Call OpVerify 0, Call OpPrepare 0,
     Call OpVerify 1, Call OpDestroy 0, Call OpUnlock 0, Call OpAttach 0, Call OpRun 0]"

definition life_calls :: "api_call list" where
  "life_calls = launch_calls @ [Call OpPrepare 1, Peek 0, Call OpStop 0, Call OpDestroy 0]"

lemma launch_calls_defined: "defined launch_calls = [sample_capsule ''vm-1'', debug_capsule]"
  by (simp add: launch_calls_def)

lemma life_calls_defined: "defined life_calls = [sample_capsule ''vm-1'', debug_capsule]"
  by (simp add: life_calls_def launch_calls_def)

lemma samples_small: "\<forall>c \<in> {sample_capsule ''vm-1'', debug_capsule}. capsule_device_count c \<le> 2 ^ 51"
  by (simp add: debug_capsule_def capsule_device_count_def sample_capsule_def)

lemma samples_verified:
  "\<forall>c \<in> {sample_capsule ''vm-1'', debug_capsule}. \<exists>hv bp. verified_by (allowlist_verify [''k1'']) hv bp (vc_manifest c)"
  using sample_capsule_verified [of "''vm-1''"] sample_capsule_verified [of "''vm-2''"]
  by (auto simp: debug_capsule_def)

lemma sample_gates:
  "op_gate X sample_runtime (sample_capsule vm) op"
  using sample_capsule_ready [of X vm] by (simp add: op_gate_def capsule_ready_def split: vm_op.split)

lemma debug_vm_id: "capsule_vm_id debug_capsule = ''vm-2''"
  using sample_vm_id [of "''vm-2''"] by (simp add: debug_capsule_def capsule_vm_id_def)

lemma debug_refused:
  "\<not> op_gate X sample_runtime debug_capsule OpVerify"
  "op_refusal X sample_runtime debug_capsule OpVerify = [(''manifest_verify'', ''vm-2'', ''deny'')]"
  by (simp_all add: op_gate_def op_refusal_def capsule_admitted_def verify_refusal_log_def launch_allow_iff debug_vm_id)
     (simp_all add: debug_capsule_def capsule_launch_request_def sample_capsule_def sample_runtime_def
        runtime_new_def sample_policy_doc_def)

lemma launch_calls_spec:
  "spec_run X sample_runtime launch_calls ([], []) =
     ([SpecLive (sample_capsule ''vm-1'') VsRunning, SpecGone Failed],
      [(''vm_define'', ''vm-1'', ''allow''), (''vm_define'', ''vm-2'', ''allow''),
       (''manifest_verify'', ''vm-1'', ''allow''), (''vm_prepare'', ''vm-1'', ''allow''),
       (''manifest_verify'', ''vm-2'', ''deny''), (''key_release'', ''vm-1'', ''allow''),
       (''device_assign'', ''vm-1'', ''allow''), (''vm_launch'', ''vm-1'', ''allow'')])"
  by (simp add: launch_calls_def spec_step_def sample_gates debug_refused debug_vm_id op_source_def op_target_def
      op_event_def)

lemma life_calls_spec:
  "spec_run X sample_runtime life_calls ([], []) =
     ([SpecGone Destroyed, SpecGone Failed],
      [(''vm_define'', ''vm-1'', ''allow''), (''vm_define'', ''vm-2'', ''allow''),
       (''manifest_verify'', ''vm-1'', ''allow''), (''vm_prepare'', ''vm-1'', ''allow''),
       (''manifest_verify'', ''vm-2'', ''deny''), (''key_release'', ''vm-1'', ''allow''),
       (''device_assign'', ''vm-1'', ''allow''), (''vm_launch'', ''vm-1'', ''allow''),
       (''vm_stop'', ''vm-1'', ''allow''), (''destroy'', ''vm-1'', ''allow'')])"
proof -
  have "spec_run X sample_runtime life_calls ([], []) =
      spec_run X sample_runtime [Call OpPrepare 1, Peek 0, Call OpStop 0, Call OpDestroy 0]
        (spec_run X sample_runtime launch_calls ([], []))"
    by (simp add: life_calls_def spec_run_def)
  then show ?thesis
    unfolding launch_calls_spec
    by (simp add: spec_step_def sample_gates op_source_def op_target_def op_event_def)
qed

lemma launch_calls_run:
  obtains rt r slots where
    "api_run sample_attest_env launch_calls (runtime_new sample_policy_doc sample_kms 3, []) = (rt, slots)"
    "0 < length slots" "slots ! 0 = Live (RunningVm r)"
proof -
  have "simulates sample_runtime (api_run sample_attest_env launch_calls (runtime_new sample_policy_doc sample_kms 3, []))
      (spec_run sample_attest_env sample_runtime launch_calls ([], []))"
    unfolding sample_runtime_def
    by (rule api_run_simulates [OF simulates_new]) (use samples_small in \<open>simp add: launch_calls_defined\<close>)
  moreover obtain rt slots where
    run: "api_run sample_attest_env launch_calls (runtime_new sample_policy_doc sample_kms 3, []) = (rt, slots)" by fastforce
  ultimately have corr: "list_all2 corresponds slots
      [SpecLive (sample_capsule ''vm-1'') VsRunning, SpecGone Failed]"
    unfolding launch_calls_spec by (simp add: simulates_def)
  then have "0 < length slots" "corresponds (slots ! 0) (SpecLive (sample_capsule ''vm-1'') VsRunning)"
    by (auto simp: list_all2_Cons2)
  moreover obtain v where "slots ! 0 = Live v" "value_state v = VsRunning"
    using calculation(2) by (cases "slots ! 0") auto
  ultimately show thesis
    using that [OF run] by (cases v) (simp_all add: value_state_def)
qed

subsection \<open>Properties\<close>

text \<open>C1: No guest runs unless every gate passed, with the capsule it was defined with. After any
  calls on any number of machines, where capsules hold verified manifests, if machine \<open>i\<close> runs
  then the capsule of the \<open>i\<close>th definition satisfies every gate: its manifest names the
  machine, is signed under the verifier and meets the version floors; its measured boot,
  debug console, boot policy version, key authorisation and device policy satisfy the policy
  and the launch gate; its memory is within its budget and below the reserved range; its
  key-release plan has the expected measurements, boot policy and capsule hash; and it asks
  for no passthrough that the policy forbids. The machine holds that manifest, that much
  memory, and the key released for that capsule.\<close>

theorem running_machine_passed_every_gate:
  assumes "\<forall>c \<in> set (defined calls). \<exists>hv' bp. verified_by check hv' bp (vc_manifest c)"
    and "api_run X calls (runtime_new doc kms hv, []) = (rt, slots)"
    and "i < length slots" "slots ! i = Live (RunningVm r)"
  shows "i < length (defined calls) \<and>
    (let c = defined calls ! i; m = vm_inner (vc_manifest c) in
       rn_verified_manifest (rv_runnable r) = vc_manifest c \<and> um_vm_id m = rv_vm_id r
     \<and> um_signatures m \<noteq> [] \<and> check m = SigValid
     \<and> um_hypervisor_min_version m \<le> hv \<and> pd_minimum_hypervisor_version doc \<le> hv
     \<and> (pd_require_measured_boot doc \<longrightarrow> vp_measured_boot (vc_policy c))
     \<and> (vp_requests_debug_console (vc_policy c) \<longrightarrow> pd_allow_debug_console doc)
     \<and> vp_tenant_min_boot_policy (vc_policy c) \<le> um_boot_policy_version m
     \<and> vp_key_unwrap_authorized (vc_policy c) \<and> vp_device_policy_ok (vc_policy c)
     \<and> cm_max_mb (um_memory m) \<le> vp_memory_budget_mb (vc_policy c)
     \<and> mms_max_mb (vc_memory c) \<le> vp_memory_budget_mb (vc_policy c) \<and> mms_max_mb (vc_memory c) \<le> 251654144
     \<and> kpl_boot_policy_hash (vc_key_plan c) = kp_expected_boot_policy_hash kms
     \<and> pcr_satisfies (kpl_pcrs (vc_key_plan c)) (kp_expected_pcrs kms)
     \<and> kpl_capsule_hash (vc_key_plan c) \<in> set (kp_allowed_capsule_hashes kms)
     \<and> kp_min_hypervisor_version kms \<le> hv
     \<and> (das_passthrough (vc_devices c) = [] \<or> pd_allow_device_passthrough doc)
     \<and> vr_npt (rv_resources r) = guest_table (mms_max_mb (vc_memory c))
     \<and> vr_reserved_mb (rv_resources r) = mms_max_mb (vc_memory c)
     \<and> rv_wrapped_vmk r = simulated_wrapped_vmk X kms
         (capsule_key_request (runtime_new doc kms hv) c (rv_vm_id r)))"
proof -
  have ver: "\<forall>c \<in> set (defined calls). manifest_verified check c" using assms(1) by (simp add: manifest_verified_def)
  from api_run_made_from [of X check "(runtime_new doc kms hv, [])" "[]" calls, OF _ ver] assms(2)
  have all: "list_all2 (slot_made_from X check rt) (defined calls) slots" by simp
  then have i: "i < length (defined calls)" using assms(3) by (simp add: list_all2_lengthD)
  define c where "c = defined calls ! i"
  have made: "made_from X check rt c (RunningVm r)"
    using list_all2_nthD2 [OF all assms(3)] assms(4) by (simp add: c_def)
  have rt: "rt_policy rt = doc" "rt_kms rt = kms" "rt_hypervisor_version rt = hv"
    using api_run_settings [of "(runtime_new doc kms hv, [])" X calls] assms(2)
    by (simp_all add: same_settings_def runtime_new_def)
  have req: "capsule_key_request (runtime_new doc kms hv) c vm = capsule_key_request rt c vm" for vm
    by (simp add: capsule_key_request_def rt runtime_new_def)
  show ?thesis
    using i running_machine_gates [OF made, unfolded rt] by (simp add: Let_def req flip: c_def)
qed

lemma running_machine_passed_every_gate_witness:
  "\<exists>rt r slots. api_run sample_attest_env launch_calls (runtime_new sample_policy_doc sample_kms 3, []) = (rt, slots)
     \<and> slots ! 0 = Live (RunningVm r) \<and> rv_vm_id r = ''vm-1''
     \<and> vr_reserved_mb (rv_resources r) = 512
     \<and> rv_wrapped_vmk r = simulated_wrapped_vmk sample_attest_env sample_kms
         (capsule_key_request sample_runtime (sample_capsule ''vm-1'') ''vm-1'')"
proof -
  obtain rt r slots where run:
    "api_run sample_attest_env launch_calls (runtime_new sample_policy_doc sample_kms 3, []) = (rt, slots)"
    "0 < length slots" "slots ! 0 = Live (RunningVm r)"
    by (rule launch_calls_run)
  have ver: "\<forall>c \<in> set (defined launch_calls). \<exists>hv bp. verified_by (allowlist_verify [''k1'']) hv bp (vc_manifest c)"
    using samples_verified by (simp add: launch_calls_defined)
  have "vm_inner (vc_manifest (sample_capsule ''vm-1'')) = sample_manifest" "um_vm_id sample_manifest = ''vm-1''"
    "mms_max_mb (vc_memory (sample_capsule ''vm-1'')) = 512"
    by (simp_all add: sample_capsule_def sample_verified_def sample_manifest_def)
  with running_machine_passed_every_gate [OF ver run] run show ?thesis
    by (intro exI [of _ rt] exI [of _ r] exI [of _ slots]) (simp add: Let_def launch_calls_defined sample_runtime_def)
qed

text \<open>C4: The lifecycle follows the state diagram, receipt by receipt. For any calls on any number
  of machines, the state of every machine and the whole log of the receipt chain are those of
  the table of operations: an operation takes a machine only from the state before its edge;
  if its gate holds, the machine moves along the edge and exactly its event is allowed on
  the log, for a snapshot and a destruction too; if not, the machine is gone as failed, and
  the log gains a denial for the policy, the key release and the passthrough check, and
  nothing for the launch gate and the memory quota. A dropped machine leaves no receipt. Of
  the documented diagram the table lacks the resume edge and the quarantine, which the code
  does not have. No capsule may ask for more than 2 to the 51 devices.\<close>

theorem lifecycle_follows_diagram:
  assumes "\<forall>c \<in> set (defined calls). capsule_device_count c \<le> 2 ^ 51"
  shows "case api_run X calls (runtime_new doc kms hv, []) of (rt, slots) \<Rightarrow>
    case spec_run X (runtime_new doc kms hv) calls ([], []) of (ms, log) \<Rightarrow>
      list_all2 corresponds slots ms \<and> chain_log (rt_receipts rt) = log"
  using api_run_simulates [OF simulates_new [of doc kms hv] assms, of X]
  by (simp add: simulates_def case_prod_beta)

lemma lifecycle_follows_diagram_witness:
  "case api_run sample_attest_env life_calls (runtime_new sample_policy_doc sample_kms 3, []) of (rt, slots) \<Rightarrow>
     slots = [Gone Destroyed, Gone Failed]
   \<and> chain_log (rt_receipts rt) =
      [(''vm_define'', ''vm-1'', ''allow''), (''vm_define'', ''vm-2'', ''allow''),
       (''manifest_verify'', ''vm-1'', ''allow''), (''vm_prepare'', ''vm-1'', ''allow''),
       (''manifest_verify'', ''vm-2'', ''deny''), (''key_release'', ''vm-1'', ''allow''),
       (''device_assign'', ''vm-1'', ''allow''), (''vm_launch'', ''vm-1'', ''allow''),
       (''vm_stop'', ''vm-1'', ''allow''), (''destroy'', ''vm-1'', ''allow'')]"
proof -
  have small: "\<forall>c \<in> set (defined life_calls). capsule_device_count c \<le> 2 ^ 51"
    using samples_small by (simp add: life_calls_defined)
  have gone: "corresponds sl (SpecGone f) \<longleftrightarrow> sl = Gone f" for sl f
    by (cases sl) auto
  from lifecycle_follows_diagram [OF small, of sample_attest_env sample_policy_doc sample_kms 3] show ?thesis
    using life_calls_spec [of sample_attest_env]
    by (auto simp: sample_runtime_def list_all2_Cons2 gone split: prod.splits)
qed

end
