(* ===== verification/Net.thy ===== *)
theory Net
  imports Messages
begin

text \<open>
  The virtual network of \<open>hyper-net\<close>: policy documents and their rules, sandboxes with derived
  addresses, and the switch with its rate limit. The counters are unsigned words that wrap;
  the source adds with \<open>+=\<close>, which a build with overflow checks turns into a panic.
\<close>

subsection \<open>Policies\<close>

definition net_hash :: "('x) extern_scheme \<Rightarrow> byte list \<Rightarrow> string" where
  "net_hash X bytes = ext_sha384_hex X bytes"

definition NETWORK_SCHEMA_VERSION :: u32 where "NETWORK_SCHEMA_VERSION = 1"

datatype network_error =
    NetJson string
  | NetUnsupportedSchema u32 u32
  | NetInvalidField string

definition network_error_text :: "network_error \<Rightarrow> string" where
  "network_error_text e = (case e of
       NetJson m \<Rightarrow> ''invalid network policy json: '' @ m
     | NetUnsupportedSchema found expected \<Rightarrow> ''unsupported network schema_version ''
         @ show_nat (unat found) @ '' (expected '' @ show_nat (unat expected) @ '')''
     | NetInvalidField m \<Rightarrow> ''invalid network policy field: '' @ m)"

datatype network_mode = NmNone | NmIsolated | NmHostOnly | NmNat | NmBridge | NmAttestedOverlay

definition network_mode_debug :: "network_mode \<Rightarrow> string" where
  "network_mode_debug m = (case m of NmNone \<Rightarrow> ''None'' | NmIsolated \<Rightarrow> ''Isolated''
     | NmHostOnly \<Rightarrow> ''HostOnly'' | NmNat \<Rightarrow> ''Nat'' | NmBridge \<Rightarrow> ''Bridge''
     | NmAttestedOverlay \<Rightarrow> ''AttestedOverlay'')"

definition denies_all_egress :: "network_mode \<Rightarrow> bool" where
  "denies_all_egress m = (case m of NmNone \<Rightarrow> True | NmIsolated \<Rightarrow> True | _ \<Rightarrow> False)"

record egress_rule =
  er_proto :: string
  er_dst :: string
  er_port :: u16
  er_purpose :: string

record ingress_rule =
  ir_proto :: string
  ir_src :: string
  ir_port :: u16
  ir_purpose :: string

record dns_config =
  dns_mode :: string
  dns_servers :: "string list"

definition is_wildcard :: "string \<Rightarrow> bool" where
  "is_wildcard s \<longleftrightarrow> s = ''*'' \<or> eq_ignore_ascii_case s ''any''"

definition egress_matches :: "egress_rule \<Rightarrow> string \<Rightarrow> string \<Rightarrow> u16 \<Rightarrow> bool" where
  "egress_matches r proto dst port \<longleftrightarrow>
     (is_wildcard (er_proto r) \<or> eq_ignore_ascii_case (er_proto r) proto)
     \<and> (is_wildcard (er_dst r) \<or> er_dst r = dst)
     \<and> (er_port r = 0 \<or> er_port r = port)"

definition ingress_matches :: "ingress_rule \<Rightarrow> string \<Rightarrow> string \<Rightarrow> u16 \<Rightarrow> bool" where
  "ingress_matches r proto src port \<longleftrightarrow>
     (is_wildcard (ir_proto r) \<or> eq_ignore_ascii_case (ir_proto r) proto)
     \<and> (is_wildcard (ir_src r) \<or> ir_src r = src)
     \<and> (ir_port r = 0 \<or> ir_port r = port)"

record network_policy =
  np_schema_version :: u32
  np_vm_id :: string
  np_default :: string
  np_egress :: "egress_rule list"
  np_ingress :: "ingress_rule list"
  np_dns :: dns_config

record network_env = extern +
  env_network_parse :: "string \<Rightarrow> string + network_policy"

definition network_policy_parse :: "('x) network_env_scheme \<Rightarrow> string \<Rightarrow> network_error + network_policy" where
  "network_policy_parse X s =
     (case env_network_parse X s of
        Inl e \<Rightarrow> Err (NetJson e)
      | Inr pol \<Rightarrow>
          (if np_schema_version pol \<noteq> NETWORK_SCHEMA_VERSION
           then Err (NetUnsupportedSchema (np_schema_version pol) NETWORK_SCHEMA_VERSION)
           else if np_default pol = ''deny'' \<or> np_default pol = ''allow'' then Ok pol
           else Err (NetInvalidField (''default must be '' @ debug_str ''deny'' @ '' or ''
                  @ debug_str ''allow'' @ '', got '' @ debug_str (np_default pol)))))"

definition default_allows :: "network_policy \<Rightarrow> bool" where
  "default_allows p \<longleftrightarrow> np_default p = ''allow''"

definition match_egress :: "network_policy \<Rightarrow> string \<Rightarrow> string \<Rightarrow> u16 \<Rightarrow> egress_rule option" where
  "match_egress p proto dst port = find (\<lambda>r. egress_matches r proto dst port) (np_egress p)"

definition match_ingress :: "network_policy \<Rightarrow> string \<Rightarrow> string \<Rightarrow> u16 \<Rightarrow> ingress_rule option" where
  "match_ingress p proto src port = find (\<lambda>r. ingress_matches r proto src port) (np_ingress p)"

subsection \<open>Sandboxes\<close>

record flow_counters =
  fc_allowed :: u64
  fc_denied :: u64
  fc_bytes :: u64

definition FLOW_OVERHEAD_BYTES :: u64 where "FLOW_OVERHEAD_BYTES = 64"

record network_sandbox =
  ns_vm_id :: string
  ns_mode :: network_mode
  ns_policy :: network_policy
  ns_mac :: string
  ns_ip :: string
  ns_counters :: flow_counters

text \<open>The slice of \<open>octet\<close> lies inside the 96 digits of a SHA-384 digest.\<close>

definition octet :: "string \<Rightarrow> nat \<Rightarrow> nat" where
  "octet h i = (case from_str_radix_16 8 (take 2 (drop (2 * i) h)) of Some n \<Rightarrow> n | None \<Rightarrow> 0)"

text \<open>The format \<open>{:02x}\<close> of a byte.\<close>

definition show_hex2 :: "nat \<Rightarrow> string" where
  "show_hex2 n = pad_left 2 (CHR ''0'') (show_hex n)"

definition derive_mac :: "('x) extern_scheme \<Rightarrow> string \<Rightarrow> string" where
  "derive_mac X vm =
     (let h = drop (length ''sha384:'') (net_hash X (as_bytes (''mac|'' @ vm))) in
      ''02:'' @ show_hex2 (octet h 0) @ '':'' @ show_hex2 (octet h 1) @ '':'' @ show_hex2 (octet h 2)
        @ '':'' @ show_hex2 (octet h 3) @ '':'' @ show_hex2 (octet h 4))"

definition derive_ip :: "('x) extern_scheme \<Rightarrow> string \<Rightarrow> string" where
  "derive_ip X vm =
     (let h = drop (length ''sha384:'') (net_hash X (as_bytes (''ip|'' @ vm)));
          last_octet = octet h 2 mod 254 + 1 in
      ''10.'' @ show_nat (octet h 0) @ ''.'' @ show_nat (octet h 1) @ ''.'' @ show_nat last_octet)"

definition sandbox_new :: "('x) extern_scheme \<Rightarrow> network_mode \<Rightarrow> network_policy \<Rightarrow> network_sandbox" where
  "sandbox_new X mode pol =
     (let vm = np_vm_id pol in
      \<lparr>ns_vm_id = vm, ns_mode = mode, ns_policy = pol, ns_mac = derive_mac X vm,
       ns_ip = derive_ip X vm, ns_counters = \<lparr>fc_allowed = 0, fc_denied = 0, fc_bytes = 0\<rparr>\<rparr>)"

definition record_allow :: "network_sandbox \<Rightarrow> network_sandbox" where
  "record_allow s = (let k = ns_counters s in
     s\<lparr>ns_counters := k\<lparr>fc_allowed := fc_allowed k + 1, fc_bytes := fc_bytes k + FLOW_OVERHEAD_BYTES\<rparr>\<rparr>)"

definition record_deny :: "network_sandbox \<Rightarrow> network_sandbox" where
  "record_deny s = (let k = ns_counters s in s\<lparr>ns_counters := k\<lparr>fc_denied := fc_denied k + 1\<rparr>\<rparr>)"

subsection \<open>The switch\<close>

datatype flow_decision = FlowAllow | FlowDeny string

definition flow_is_allow :: "flow_decision \<Rightarrow> bool" where
  "flow_is_allow d = (case d of FlowAllow \<Rightarrow> True | FlowDeny _ \<Rightarrow> False)"

definition to_policy_decision :: "flow_decision \<Rightarrow> policy_receipt \<Rightarrow> policy_decision" where
  "to_policy_decision d receipt = (case d of FlowAllow \<Rightarrow> PolicyAllow receipt
     | FlowDeny reason \<Rightarrow> PolicyDeny (DenyOther reason))"

record vswitch =
  rate_limit_per_sec :: u32
  flows_this_window :: u32

definition vswitch_new :: "u32 \<Rightarrow> vswitch" where
  "vswitch_new limit = \<lparr>rate_limit_per_sec = limit, flows_this_window = 0\<rparr>"

definition vswitch_default :: vswitch where "vswitch_default = vswitch_new 0"

definition switch_tick :: "vswitch \<Rightarrow> vswitch" where
  "switch_tick sw = sw\<lparr>flows_this_window := 0\<rparr>"

definition rate_limited :: "vswitch \<Rightarrow> bool" where
  "rate_limited sw \<longleftrightarrow> rate_limit_per_sec sw \<noteq> 0 \<and> rate_limit_per_sec sw \<le> flows_this_window sw"

definition evaluate_flow ::
  "vswitch \<Rightarrow> network_sandbox \<Rightarrow> string \<Rightarrow> string \<Rightarrow> u16 \<Rightarrow> bool
     \<Rightarrow> vswitch \<times> network_sandbox \<times> flow_decision" where
  "evaluate_flow sw sandbox proto dst port egress =
     (if denies_all_egress (ns_mode sandbox)
      then (sw, record_deny sandbox,
            FlowDeny (network_mode_debug (ns_mode sandbox) @ '': mode isolates the sandbox''))
      else
        let matched_by_rule =
              (if egress
               then match_egress (ns_policy sandbox) proto dst port \<noteq> None \<or> default_allows (ns_policy sandbox)
               else match_ingress (ns_policy sandbox) proto dst port \<noteq> None) in
        if \<not> matched_by_rule
        then (sw, record_deny sandbox,
              FlowDeny (if egress then deny_reason_debug EgressDenied
                        else deny_reason_debug (DenyOther ''ingress not matched by rule'')))
        else if rate_limited sw
        then (sw, record_deny sandbox,
              FlowDeny (''rate_limited: '' @ show_nat (unat (rate_limit_per_sec sw)) @ '' flows/s exceeded''))
        else (sw\<lparr>flows_this_window := flows_this_window sw + 1\<rparr>, record_allow sandbox, FlowAllow))"

definition as_flow_request :: "bool \<Rightarrow> bool \<Rightarrow> flow_request" where
  "as_flow_request direction_egress allowed_by_rule =
     \<lparr>fq_direction = (if direction_egress then ''egress'' else ''ingress''),
      fq_allowed_by_rule = allowed_by_rule\<rparr>"

subsection \<open>What a switch admits\<close>

text \<open>The flow would be allowed if the rate limit were off.\<close>

definition flow_permitted :: "network_sandbox \<Rightarrow> string \<Rightarrow> string \<Rightarrow> u16 \<Rightarrow> bool \<Rightarrow> bool" where
  "flow_permitted s proto host port egress \<longleftrightarrow>
     \<not> denies_all_egress (ns_mode s)
     \<and> (if egress then list_ex (\<lambda>r. egress_matches r proto host port) (np_egress (ns_policy s))
                       \<or> np_default (ns_policy s) = ''allow''
        else list_ex (\<lambda>r. ingress_matches r proto host port) (np_ingress (ns_policy s)))"

lemma flow_is_allow_simps [simp]: "flow_is_allow FlowAllow" "\<not> flow_is_allow (FlowDeny r)"
  by (simp_all add: flow_is_allow_def)

lemma matched_iff:
  "(\<exists>r. match_egress p proto dst port = Some r) \<longleftrightarrow> list_ex (\<lambda>r. egress_matches r proto dst port) (np_egress p)"
  "(\<exists>r. match_ingress p proto dst port = Some r) \<longleftrightarrow> list_ex (\<lambda>r. ingress_matches r proto dst port) (np_ingress p)"
  unfolding match_egress_def match_ingress_def by (auto simp: find_ex_list_ex [symmetric])

lemma evaluate_flow_permitted:
  assumes "flow_permitted s proto host port egress"
  shows "evaluate_flow sw s proto host port egress =
    (if rate_limited sw
     then (sw, record_deny s,
           FlowDeny (''rate_limited: '' @ show_nat (unat (rate_limit_per_sec sw)) @ '' flows/s exceeded''))
     else (sw\<lparr>flows_this_window := flows_this_window sw + 1\<rparr>, record_allow s, FlowAllow))"
  using assms unfolding flow_permitted_def evaluate_flow_def Let_def default_allows_def not_None_eq matched_iff
  by (auto split: if_splits)

lemma evaluate_flow_forbidden:
  assumes "\<not> flow_permitted s proto host port egress"
  shows "\<exists>reason. evaluate_flow sw s proto host port egress = (sw, record_deny s, FlowDeny reason)"
  using assms unfolding flow_permitted_def evaluate_flow_def Let_def default_allows_def not_None_eq matched_iff
  by simp (auto split: if_splits)

lemma record_sel [simp]:
  "ns_mode (record_allow s) = ns_mode s" "ns_mode (record_deny s) = ns_mode s"
  "ns_policy (record_allow s) = ns_policy s" "ns_policy (record_deny s) = ns_policy s"
  by (simp_all add: record_allow_def record_deny_def Let_def)

lemma permitted_record [simp]:
  "flow_permitted (record_allow s) = flow_permitted s" "flow_permitted (record_deny s) = flow_permitted s"
  by (simp_all add: fun_eq_iff flow_permitted_def)

text \<open>
  A switch shared by named sandboxes, and the flows between two ticks: sandbox, protocol,
  peer, port, and whether it is egress.
\<close>

type_synonym flow = "string \<times> string \<times> string \<times> u16 \<times> bool"

fun window_flows ::
  "vswitch \<Rightarrow> (string \<Rightarrow> network_sandbox) \<Rightarrow> flow list
     \<Rightarrow> vswitch \<times> (string \<Rightarrow> network_sandbox) \<times> flow_decision list" where
  "window_flows sw sbs [] = (sw, sbs, [])"
| "window_flows sw sbs ((i, proto, host, port, egress) # fs) =
     (let (sw1, s1, d) = evaluate_flow sw (sbs i) proto host port egress;
          (sw2, sbs2, ds) = window_flows sw1 (sbs(i := s1)) fs
      in (sw2, sbs2, d # ds))"

lemma window_flows_Cons:
  "window_flows sw sbs ((i, proto, host, port, egress) # fs) =
     (case evaluate_flow sw (sbs i) proto host port egress of (sw1, s1, d) \<Rightarrow>
        case window_flows sw1 (sbs(i := s1)) fs of (sw2, sbs2, ds) \<Rightarrow> (sw2, sbs2, d # ds))"
  by (simp add: fun_upd_def case_prod_beta Let_def)

definition permitted_in :: "(string \<Rightarrow> network_sandbox) \<Rightarrow> flow \<Rightarrow> bool" where
  "permitted_in sbs f = (case f of (i, proto, host, port, egress) \<Rightarrow> flow_permitted (sbs i) proto host port egress)"

lemma permitted_in_update:
  assumes "flow_permitted s = flow_permitted (sbs i)"
  shows "permitted_in (sbs(i := s)) = permitted_in sbs"
  using assms by (auto simp: permitted_in_def fun_eq_iff)

text \<open>The flows a window has room for.\<close>

definition room :: "vswitch \<Rightarrow> nat \<Rightarrow> nat" where
  "room sw n = (if rate_limit_per_sec sw = 0 then n
     else min n (unat (rate_limit_per_sec sw) - unat (flows_this_window sw)))"

lemma room_limited: "rate_limited sw \<Longrightarrow> room sw n = 0"
  by (simp add: room_def rate_limited_def word_le_nat_alt)

lemma room_step:
  assumes "\<not> rate_limited sw"
  shows "room sw (Suc n) = Suc (room (sw\<lparr>flows_this_window := flows_this_window sw + 1\<rparr>) n)"
proof (cases "rate_limit_per_sec sw = 0")
  case False
  with assms have less: "flows_this_window sw < rate_limit_per_sec sw" by (auto simp: rate_limited_def)
  from unat_increment [OF this] less False show ?thesis
    by (auto simp: room_def word_less_nat_alt)
qed (simp add: room_def)

lemma window_admits:
  "length (filter flow_is_allow (snd (snd (window_flows sw sbs fs)))) =
     room sw (length (filter (permitted_in sbs) fs))"
proof (induction fs arbitrary: sw sbs)
  case Nil
  show ?case by (simp add: room_def)
next
  case (Cons f fs)
  obtain i proto host port egress where f: "f = (i, proto, host, port, egress)" by (metis prod.exhaust)
  show ?case
  proof (cases "flow_permitted (sbs i) proto host port egress")
    case False
    then obtain r where e: "evaluate_flow sw (sbs i) proto host port egress = (sw, record_deny (sbs i), FlowDeny r)"
      using evaluate_flow_forbidden by blast
    have head: "\<not> permitted_in sbs (i, proto, host, port, egress)" using False by (simp add: permitted_in_def)
    define sbs' where "sbs' = sbs(i := record_deny (sbs i))"
    have p: "permitted_in sbs' = permitted_in sbs"
      unfolding sbs'_def by (rule permitted_in_update) simp
    show ?thesis using Cons.IH [of sw sbs'] head
      unfolding p by (simp add: f e sbs'_def [symmetric] case_prod_beta window_flows_Cons del: window_flows.simps(2))
  next
    case True
    show ?thesis
    proof (cases "rate_limited sw")
      case lim: True
      obtain r where e: "evaluate_flow sw (sbs i) proto host port egress = (sw, record_deny (sbs i), FlowDeny r)"
        using evaluate_flow_permitted [OF True] lim by simp
      define sbs' where "sbs' = sbs(i := record_deny (sbs i))"
      have p: "permitted_in sbs' = permitted_in sbs"
        unfolding sbs'_def by (rule permitted_in_update) simp
      show ?thesis using Cons.IH [of sw sbs'] lim
        unfolding p by (simp add: f e sbs'_def [symmetric] case_prod_beta window_flows_Cons room_limited del: window_flows.simps(2))
    next
      case free: False
      let ?sw = "sw\<lparr>flows_this_window := flows_this_window sw + 1\<rparr>"
      have e: "evaluate_flow sw (sbs i) proto host port egress = (?sw, record_allow (sbs i), FlowAllow)"
        using evaluate_flow_permitted [OF True] free by simp
      define sbs' where "sbs' = sbs(i := record_allow (sbs i))"
      have p: "permitted_in sbs' = permitted_in sbs"
        unfolding sbs'_def by (rule permitted_in_update) simp
      have head: "permitted_in sbs (i, proto, host, port, egress)" using True by (simp add: permitted_in_def)
      show ?thesis using Cons.IH [of ?sw sbs'] head
        unfolding p by (simp add: f e sbs'_def [symmetric] case_prod_beta window_flows_Cons room_step [OF free] del: window_flows.simps(2))
    qed
  qed
qed

subsection \<open>Properties\<close>

text \<open>The modes that are not an isolation posture are not told apart: a sandbox that should reach
  the host only, or wait for an attestation, has its flows decided like any other.\<close>

theorem open_modes_not_told_apart:
  assumes "m \<notin> {NmNone, NmIsolated}" "m' \<notin> {NmNone, NmIsolated}"
  shows "snd (snd (evaluate_flow sw (s\<lparr>ns_mode := m\<rparr>) proto host port egress)) =
         snd (snd (evaluate_flow sw (s\<lparr>ns_mode := m'\<rparr>) proto host port egress))"
proof -
  have "\<not> denies_all_egress m" "\<not> denies_all_egress m'"
    using assms by (auto simp: denies_all_egress_def split: network_mode.splits)
  then show ?thesis by (simp add: evaluate_flow_def Let_def)
qed

text \<open>A block of addresses in a rule is compared as text, so it admits no address of the block.\<close>

lemma cidr_matched_as_text:
  "\<not> egress_matches \<lparr>er_proto = ''tcp'', er_dst = ''10.0.0.0/8'', er_port = 443, er_purpose = ''api''\<rparr>
       ''tcp'' ''10.0.0.5'' 443"
proof -
  have "\<not> is_wildcard ''10.0.0.0/8''" by code_simp
  then show ?thesis by (simp add: egress_matches_def)
qed

text \<open>C21: What the switch decides, exactly. A flow is allowed if and only if the mode is one of the
  four that are not isolated; an egress flow matches an egress rule, or the posture is to
  allow, and an ingress flow matches an ingress rule; and the rate limit is off or not used
  up. A rule matches by its protocol in any case or a wildcard, by the same text of the peer
  or a wildcard, and by the same port or 0. Each flow counts once, as allowed with its
  overhead bytes or as denied, and only an allowed one uses up the window; nothing else of
  the sandbox changes. This is less than the comments on the modes and rules promise: the
  host-only and the attested mode are decided like the other two, for every peer, and a rule
  with a block of addresses matches only its own text. The counters wrap.\<close>

theorem flow_allowed_exact:
  "case evaluate_flow sw s proto host port egress of (sw', s', d) \<Rightarrow>
     (d = FlowAllow \<longleftrightarrow>
        ns_mode s \<in> {NmHostOnly, NmNat, NmBridge, NmAttestedOverlay}
        \<and> (if egress
           then (\<exists>r. r \<in> set (np_egress (ns_policy s))
                   \<and> (er_proto r = ''*'' \<or> eq_ignore_ascii_case (er_proto r) ''any'' \<or> eq_ignore_ascii_case (er_proto r) proto)
                   \<and> (er_dst r = ''*'' \<or> eq_ignore_ascii_case (er_dst r) ''any'' \<or> er_dst r = host)
                   \<and> (er_port r = 0 \<or> er_port r = port))
                \<or> np_default (ns_policy s) = ''allow''
           else (\<exists>r. r \<in> set (np_ingress (ns_policy s))
                   \<and> (ir_proto r = ''*'' \<or> eq_ignore_ascii_case (ir_proto r) ''any'' \<or> eq_ignore_ascii_case (ir_proto r) proto)
                   \<and> (ir_src r = ''*'' \<or> eq_ignore_ascii_case (ir_src r) ''any'' \<or> ir_src r = host)
                   \<and> (ir_port r = 0 \<or> ir_port r = port)))
        \<and> (rate_limit_per_sec sw = 0 \<or> flows_this_window sw < rate_limit_per_sec sw))
   \<and> s' = s\<lparr>ns_counters :=
        (if d = FlowAllow
         then \<lparr>fc_allowed = fc_allowed (ns_counters s) + 1, fc_denied = fc_denied (ns_counters s),
               fc_bytes = fc_bytes (ns_counters s) + 64\<rparr>
         else (ns_counters s)\<lparr>fc_denied := fc_denied (ns_counters s) + 1\<rparr>)\<rparr>
   \<and> sw' = (if d = FlowAllow then sw\<lparr>flows_this_window := flows_this_window sw + 1\<rparr> else sw)"
proof -
  have mode: "\<not> denies_all_egress m \<longleftrightarrow> m \<in> {NmHostOnly, NmNat, NmBridge, NmAttestedOverlay}" for m
    by (cases m) (simp_all add: denies_all_egress_def)
  have perm: "flow_permitted s proto host port egress \<longleftrightarrow>
        ns_mode s \<in> {NmHostOnly, NmNat, NmBridge, NmAttestedOverlay}
        \<and> (if egress
           then (\<exists>r. r \<in> set (np_egress (ns_policy s)) \<and> egress_matches r proto host port)
                \<or> np_default (ns_policy s) = ''allow''
           else (\<exists>r. r \<in> set (np_ingress (ns_policy s)) \<and> ingress_matches r proto host port))"
    by (simp add: flow_permitted_def list_ex_iff Bex_def mode)
  note rule = egress_matches_def ingress_matches_def is_wildcard_def disj_assoc
  show ?thesis
  proof (cases "flow_permitted s proto host port egress")
    case True
    with perm [unfolded rule] evaluate_flow_permitted [OF True, of sw] show ?thesis
      by (cases "ns_counters s")
         (simp add: rate_limited_def record_allow_def record_deny_def Let_def FLOW_OVERHEAD_BYTES_def
           flip: not_le)
  next
    case False
    then obtain reason where "evaluate_flow sw s proto host port egress = (sw, record_deny s, FlowDeny reason)"
      using evaluate_flow_forbidden by blast
    with False [unfolded perm, unfolded rule] show ?thesis
      by (cases egress; simp add: record_deny_def Let_def; blast)
  qed
qed

text \<open>C22: The rate limit holds exactly over a window, for any flows of any sandboxes that share
  the switch: after a tick, with a limit the number of flows allowed is the number that the
  policies permit, or the limit if that is less, and without a limit it is all of them. Flows
  that the policies deny use up nothing. The counters are those of a build without overflow
  checks: they wrap, where a checked build would panic.\<close>

theorem window_rate_limit_exact:
  "let n = length (filter (permitted_in sbs) fs); limit = rate_limit_per_sec sw in
   length (filter flow_is_allow (snd (snd (window_flows (switch_tick sw) sbs fs)))) =
     (if limit = 0 then n else min n (unat limit))"
  by (simp add: window_admits room_def switch_tick_def Let_def)

end
