(* ===== verification/Qrse.thy ===== *)
theory Qrse
  imports Attest
begin

text \<open>
  The control plane of the quantum-resistant storage encryption, \<open>hyper-qrse\<close>: the key
  encapsulation and signature interfaces with their deterministic stand-ins, the hybrid
  combiner, keyslots, the signed disk manifest, downgrade protection and the key hierarchy.
  Trait objects are records of their methods. HMAC, HKDF, hex decoding and JSON are fields
  of the environment.
\<close>

subsection \<open>The environment\<close>

datatype crypto_error =
    EmptySharedSecret
  | Decapsulation
  | BadKeyLength nat nat
  | HkdfFailed
  | UnsupportedAlgorithm string

record integrity_policy =
  ig_mode :: string
  ig_alternatives :: "string list"

record data_plane =
  dp_cipher :: string
  dp_xts_raw_key_bits :: u32
  dp_sector_size :: u32
  dp_integrity :: integrity_policy

record rollback_protection =
  rbp_type :: string
  rbp_counter_name :: string

record boot_policy =
  bp_policy_id :: string
  bp_secure_boot_required :: bool
  bp_measured_boot_required :: bool
  bp_pcr_profile :: "string list"
  bp_minimum_boot_manifest_version :: u64
  bp_rollback_protection :: rollback_protection

record kem_suite =
  ks_classical :: string
  ks_pqc :: string
  ks_combiner :: string

datatype keyslot_status = KsActive | KsDisabledUntilBreakGlass | KsRetired

record argon2id_kdf =
  akdf_algorithm :: string
  akdf_memory_kib :: u32
  akdf_time_cost :: u32
  akdf_parallelism :: u32

record wrap_spec =
  wrap_algorithm :: string
  wrapped_key_ref :: string

record kms_attestation =
  kat_required :: bool
  kat_accepted_tee :: "string list"
  kat_measurement_policy_ref :: string

datatype keyslot_kind =
    Argon2idPassphrase argon2id_kdf wrap_spec
  | Tpm2Sealed "string list" bool bool
  | HybridRemoteKms kem_suite kms_attestation
  | ThresholdRecovery string u32 u32

record keyslot =
  kl_slot :: u32
  kl_status :: keyslot_status
  kl_kind :: keyslot_kind

record manifest_key_hierarchy =
  mk_volume_master_key_version :: u64
  mk_active_dek_version :: u64
  mk_keyslots :: "keyslot list"

record manifest_audit =
  au_last_rotation :: string
  au_last_attested_unlock_receipt :: string
  au_log_chain :: string

record manifest_signature =
  ms_purpose :: string
  ms_algorithm :: string
  ms_key_id :: string
  ms_signature_ref :: string
  ms_status :: "string option"
  ms_not_after :: "string option"

text \<open>\<open>ManifestBody\<close>, what is signed; the manifest is the body and its signatures.\<close>

record manifest_body =
  qm_format :: string
  qm_volume_id :: string
  qm_created_at :: string
  qm_data_plane :: data_plane
  qm_boot_policy :: boot_policy
  qm_key_hierarchy :: manifest_key_hierarchy
  qm_audit :: manifest_audit

record qrsd_manifest = manifest_body +
  qm_signatures :: "manifest_signature list"

text \<open>
  \<open>env_hmac\<close> is HMAC-SHA384, \<open>env_hmac_verify_left\<close> its comparison of a tag with the left
  part of the code, \<open>env_hkdf\<close> the expansion from salt, key material, info and length, with
  \<open>None\<close> for an error.
\<close>

record qrse_env = attest_env +
  env_hmac :: "byte list \<Rightarrow> byte list \<Rightarrow> byte list"
  env_hmac_verify_left :: "byte list \<Rightarrow> byte list \<Rightarrow> byte list \<Rightarrow> bool"
  env_hkdf :: "byte list \<Rightarrow> byte list \<Rightarrow> byte list \<Rightarrow> nat \<Rightarrow> byte list option"
  env_hex_decode :: "string \<Rightarrow> string + byte list"
  env_body_json :: "manifest_body \<Rightarrow> byte list"
  env_manifest_pretty :: "qrsd_manifest \<Rightarrow> string + string"
  env_manifest_parse :: "string \<Rightarrow> string + qrsd_manifest"

subsection \<open>Key encapsulation and signatures\<close>

type_synonym shared_secret = "byte list"

definition is_live :: "shared_secret \<Rightarrow> bool" where
  "is_live s = list_ex (\<lambda>x. x \<noteq> 0) s"

record kem =
  kem_algorithm :: string
  kem_generate_keypair :: "byte list \<Rightarrow> byte list \<times> byte list"
  kem_encapsulate :: "byte list \<Rightarrow> byte list \<Rightarrow> byte list \<times> shared_secret"
  kem_decapsulate :: "byte list \<Rightarrow> byte list \<Rightarrow> crypto_error + shared_secret"

record signature =
  sig_algorithm :: string
  sig_key_id :: string
  sig_bytes :: "byte list"

record signer =
  sgn_algorithm :: string
  sgn_key_id :: string
  sgn_public_key :: "byte list"
  sgn_sign :: "byte list \<Rightarrow> signature"

record verifier =
  vf_algorithm :: string
  vf_key_id :: string
  vf_verify :: "byte list \<Rightarrow> signature \<Rightarrow> bool"

definition kdf :: "('x) extern_scheme \<Rightarrow> string \<Rightarrow> byte list list \<Rightarrow> byte list" where
  "kdf X domain parts =
     take 32 (ext_sha384 X (as_bytes domain
       @ concat (map (\<lambda>p. to_be_bytes 8 (word_of_nat (length p) :: u64) @ p) parts)))"

record deterministic_kem =
  dk_algorithm :: string
  declared_ek_bytes :: nat
  declared_ct_bytes :: nat

definition det_kem_new :: "string \<Rightarrow> nat \<Rightarrow> nat \<Rightarrow> deterministic_kem" where
  "det_kem_new algorithm ek ct =
     \<lparr>dk_algorithm = algorithm, declared_ek_bytes = ek, declared_ct_bytes = ct\<rparr>"

definition kem_x25519 :: deterministic_kem where "kem_x25519 = det_kem_new ''x25519'' 32 32"
definition kem_ml_kem_768 :: deterministic_kem where
  "kem_ml_kem_768 = det_kem_new ''ml-kem-768'' 1184 1088"
definition kem_ml_kem_1024 :: deterministic_kem where
  "kem_ml_kem_1024 = det_kem_new ''ml-kem-1024'' 1568 1568"

definition det_root :: "('x) extern_scheme \<Rightarrow> deterministic_kem \<Rightarrow> byte list \<Rightarrow> byte list" where
  "det_root X k seed = kdf X ''qrse:kem:root'' [as_bytes (dk_algorithm k), seed]"

definition det_generate_keypair ::
  "('x) extern_scheme \<Rightarrow> deterministic_kem \<Rightarrow> byte list \<Rightarrow> byte list \<times> byte list" where
  "det_generate_keypair X k seed =
     (let root = det_root X k seed; ek = kdf X ''qrse:kem:ek'' [root] in (ek, root))"

definition det_encapsulate :: "('x) extern_scheme \<Rightarrow> byte list \<Rightarrow> byte list \<Rightarrow> byte list \<times> shared_secret" where
  "det_encapsulate X ek seed =
     (let r = kdf X ''qrse:kem:r'' [ek, seed];
          ct = kdf X ''qrse:kem:ct'' [ek, r];
          ss = kdf X ''qrse:kem:ss'' [ek, ct]
      in (ct, ss))"

definition det_decapsulate ::
  "('x) extern_scheme \<Rightarrow> byte list \<Rightarrow> byte list \<Rightarrow> crypto_error + shared_secret" where
  "det_decapsulate X dk ct =
     (if dk = [] then Err (BadKeyLength 32 0)
      else if ct = [] then Err Decapsulation
      else let ek = kdf X ''qrse:kem:ek'' [dk]; ss = kdf X ''qrse:kem:ss'' [ek, ct] in Ok ss)"

definition det_kem :: "('x) extern_scheme \<Rightarrow> deterministic_kem \<Rightarrow> kem" where
  "det_kem X k = \<lparr>kem_algorithm = dk_algorithm k, kem_generate_keypair = det_generate_keypair X k,
     kem_encapsulate = det_encapsulate X, kem_decapsulate = det_decapsulate X\<rparr>"

record deterministic_signer =
  ds_algorithm :: string
  ds_key_id :: string
  ds_secret :: "byte list"
  ds_declared_sig_bytes :: nat

definition det_signer_new ::
  "('x) extern_scheme \<Rightarrow> string \<Rightarrow> string \<Rightarrow> byte list \<Rightarrow> nat \<Rightarrow> deterministic_signer" where
  "det_signer_new X algorithm key_id seed n =
     \<lparr>ds_algorithm = algorithm, ds_key_id = key_id,
      ds_secret = kdf X ''qrse:sig:sk'' [as_bytes algorithm, as_bytes key_id, seed],
      ds_declared_sig_bytes = n\<rparr>"

definition signer_ml_dsa_65 :: "('x) extern_scheme \<Rightarrow> string \<Rightarrow> byte list \<Rightarrow> deterministic_signer" where
  "signer_ml_dsa_65 X key_id seed = det_signer_new X ''ml-dsa-65'' key_id seed 3309"
definition signer_slh_dsa_128s :: "('x) extern_scheme \<Rightarrow> string \<Rightarrow> byte list \<Rightarrow> deterministic_signer" where
  "signer_slh_dsa_128s X key_id seed = det_signer_new X ''slh-dsa-128s'' key_id seed 7856"
definition signer_ecdsa_p384 :: "('x) extern_scheme \<Rightarrow> string \<Rightarrow> byte list \<Rightarrow> deterministic_signer" where
  "signer_ecdsa_p384 X key_id seed = det_signer_new X ''ecdsa-p384'' key_id seed 104"

definition det_mac :: "('x) qrse_env_scheme \<Rightarrow> string \<Rightarrow> byte list \<Rightarrow> byte list \<Rightarrow> byte list" where
  "det_mac X algorithm secret message = env_hmac X secret (as_bytes algorithm @ as_bytes ''|'' @ message)"

text \<open>The padding loop of \<open>sign\<close>; the pad is an array of 32 bytes.\<close>

function pad_signature :: "nat \<Rightarrow> byte list \<Rightarrow> byte list \<Rightarrow> byte list" where
  "pad_signature n pad bytes =
     (if length bytes < n \<and> pad \<noteq> []
      then pad_signature n pad (bytes @ take (min (n - length bytes) (length pad)) pad)
      else bytes)"
  by pat_completeness auto
termination
proof (relation "measure (\<lambda>(n, pad, bytes). n - length bytes)")
  fix n :: nat and pad bytes :: "byte list"
  assume "length bytes < n \<and> pad \<noteq> []"
  moreover from this have "0 < length pad" by simp
  ultimately show "((n, pad, bytes @ take (min (n - length bytes) (length pad)) pad), n, pad, bytes)
      \<in> measure (\<lambda>(n, pad, bytes). n - length bytes)"
    by (simp only: in_measure case_prod_conv length_append length_take) linarith
qed simp

declare pad_signature.simps [simp del]

definition det_sign :: "('x) qrse_env_scheme \<Rightarrow> deterministic_signer \<Rightarrow> byte list \<Rightarrow> signature" where
  "det_sign X s message =
     (let bytes = det_mac X (ds_algorithm s) (ds_secret s) message;
          padded = (if length bytes < ds_declared_sig_bytes s
                    then pad_signature (ds_declared_sig_bytes s) (kdf X ''qrse:sig:pad'' [bytes]) bytes
                    else bytes)
      in \<lparr>sig_algorithm = ds_algorithm s, sig_key_id = ds_key_id s, sig_bytes = padded\<rparr>)"

definition det_signer :: "('x) qrse_env_scheme \<Rightarrow> deterministic_signer \<Rightarrow> signer" where
  "det_signer X s = \<lparr>sgn_algorithm = ds_algorithm s, sgn_key_id = ds_key_id s,
     sgn_public_key = kdf X ''qrse:sig:pk'' [ds_secret s], sgn_sign = det_sign X s\<rparr>"

definition det_verify ::
  "('x) qrse_env_scheme \<Rightarrow> string \<Rightarrow> string \<Rightarrow> byte list \<Rightarrow> byte list \<Rightarrow> signature \<Rightarrow> bool" where
  "det_verify X algorithm key_id secret message sg =
     (if sig_algorithm sg \<noteq> algorithm \<or> sig_key_id sg \<noteq> key_id then False
      else let expect = det_mac X algorithm secret message in
        if length (sig_bytes sg) < length expect then False
        else env_hmac_verify_left X secret (as_bytes algorithm @ as_bytes ''|'' @ message)
               (take (length expect) (sig_bytes sg)))"

definition det_verifier :: "('x) qrse_env_scheme \<Rightarrow> deterministic_signer \<Rightarrow> verifier" where
  "det_verifier X s = \<lparr>vf_algorithm = ds_algorithm s, vf_key_id = ds_key_id s,
     vf_verify = det_verify X (ds_algorithm s) (ds_key_id s) (ds_secret s)\<rparr>"

subsection \<open>The hybrid combiner\<close>

definition COMBINER_LABEL :: "byte list" where "COMBINER_LABEL = as_bytes ''storage-unlock-v1''"

definition kem_suite_768 :: kem_suite where
  "kem_suite_768 = \<lparr>ks_classical = ''x25519'', ks_pqc = ''ml-kem-768'', ks_combiner = ''hkdf-sha384''\<rparr>"
definition kem_suite_1024 :: kem_suite where
  "kem_suite_1024 = \<lparr>ks_classical = ''x25519'', ks_pqc = ''ml-kem-1024'', ks_combiner = ''hkdf-sha384''\<rparr>"

definition kem_suite_canonical :: "kem_suite \<Rightarrow> string" where
  "kem_suite_canonical s = ks_classical s @ ''+'' @ ks_pqc s @ ''+'' @ ks_combiner s"

record combiner_context =
  cx_volume_id :: string
  cx_device_id :: string
  cx_policy_id :: string
  cx_policy_version :: u64
  cx_algorithm_suite :: kem_suite
  cx_boot_measurement :: string

text \<open>The closure \<open>put\<close>.\<close>

definition put_field :: "byte list \<Rightarrow> byte list" where
  "put_field bs = to_be_bytes 8 (word_of_nat (length bs) :: u64) @ bs"

definition context_to_bytes :: "combiner_context \<Rightarrow> byte list" where
  "context_to_bytes c =
     put_field (as_bytes (cx_volume_id c)) @ put_field (as_bytes (cx_device_id c))
     @ put_field (as_bytes (cx_policy_id c)) @ put_field (to_be_bytes 8 (cx_policy_version c))
     @ put_field (as_bytes (kem_suite_canonical (cx_algorithm_suite c)))
     @ put_field (as_bytes (cx_boot_measurement c))"

record kek =
  kek_bytes :: "byte list"

definition hybrid_combine ::
  "('x) qrse_env_scheme \<Rightarrow> shared_secret \<Rightarrow> shared_secret \<Rightarrow> byte list \<Rightarrow> combiner_context \<Rightarrow> nat
     \<Rightarrow> crypto_error + kek" where
  "hybrid_combine X ss_classical ss_pqc transcript context output_len =
     (if \<not> is_live ss_classical \<or> \<not> is_live ss_pqc then Err EmptySharedSecret
      else let salt = ext_sha384 X transcript;
               ikm = ss_classical @ ss_pqc;
               info = COMBINER_LABEL @ context_to_bytes context in
        case env_hkdf X salt ikm info output_len of
          None \<Rightarrow> Err HkdfFailed
        | Some okm \<Rightarrow> Ok \<lparr>kek_bytes = okm\<rparr>)"

subsection \<open>Keyslots\<close>

definition keyslot_new :: "u32 \<Rightarrow> keyslot_status \<Rightarrow> keyslot_kind \<Rightarrow> keyslot" where
  "keyslot_new i st k = \<lparr>kl_slot = i, kl_status = st, kl_kind = k\<rparr>"

definition slot_is_active :: "keyslot \<Rightarrow> bool" where
  "slot_is_active s \<longleftrightarrow> kl_status s = KsActive"

definition slot_is_hybrid :: "keyslot \<Rightarrow> bool" where
  "slot_is_hybrid s = (case kl_kind s of HybridRemoteKms k a \<Rightarrow> True | _ \<Rightarrow> False)"

definition slot_classical_only :: "keyslot \<Rightarrow> bool" where
  "slot_classical_only s =
     (case kl_kind s of HybridRemoteKms k a \<Rightarrow> str_trim (ks_pqc k) = [] | _ \<Rightarrow> True)"

definition slot_kem_suite :: "keyslot \<Rightarrow> kem_suite option" where
  "slot_kem_suite s = (case kl_kind s of HybridRemoteKms k a \<Rightarrow> Some k | _ \<Rightarrow> None)"

subsection \<open>The signed manifest\<close>

definition QRSD_FORMAT :: string where "QRSD_FORMAT = ''qrsd-v1''"

datatype manifest_error =
    ManJson string
  | ManBadFormat string string
  | ManNoValidSignature
  | ManInsufficientPostQuantum
  | ManBadSignatureEncoding string string

definition is_pq_signature_alg :: "string \<Rightarrow> bool" where
  "is_pq_signature_alg alg =
     (let a = to_ascii_lowercase alg in starts_with a ''ml-dsa'' \<or> starts_with a ''slh-dsa'')"

record verified_disk_manifest =
  vdm_manifest :: qrsd_manifest
  vdm_verified_purposes :: "string list"

definition min_boot_manifest_version :: "verified_disk_manifest \<Rightarrow> u64" where
  "min_boot_manifest_version v = bp_minimum_boot_manifest_version (qm_boot_policy (vdm_manifest v))"

definition vdm_keyslots :: "verified_disk_manifest \<Rightarrow> keyslot list" where
  "vdm_keyslots v = mk_keyslots (qm_key_hierarchy (vdm_manifest v))"

definition signing_bytes :: "('x) qrse_env_scheme \<Rightarrow> qrsd_manifest \<Rightarrow> byte list" where
  "signing_bytes X m = env_body_json X (manifest_body.truncate m)"

definition manifest_sign :: "('x) qrse_env_scheme \<Rightarrow> qrsd_manifest \<Rightarrow> signer \<Rightarrow> string \<Rightarrow> qrsd_manifest" where
  "manifest_sign X m s purpose =
     (let sg = sgn_sign s (signing_bytes X m) in
      m\<lparr>qm_signatures := qm_signatures m @
         [\<lparr>ms_purpose = purpose, ms_algorithm = sig_algorithm sg, ms_key_id = sig_key_id sg,
           ms_signature_ref = ext_hex X (sig_bytes sg), ms_status = None, ms_not_after = None\<rparr>]\<rparr>)"

text \<open>
  The loop over the signatures: the purposes of the valid post-quantum ones, and whether a
  classical one is valid.
\<close>

fun check_signatures ::
  "('x) qrse_env_scheme \<Rightarrow> verifier list \<Rightarrow> byte list \<Rightarrow> manifest_signature list \<Rightarrow> string list \<Rightarrow> bool
     \<Rightarrow> manifest_error + string list \<times> bool" where
  "check_signatures X verifiers body [] pq_purposes classical_valid = Ok (pq_purposes, classical_valid)"
| "check_signatures X verifiers body (s # ss) pq_purposes classical_valid =
     (case env_hex_decode X (ms_signature_ref s) of
        Inl detail \<Rightarrow> Err (ManBadSignatureEncoding (ms_key_id s) detail)
      | Inr bytes \<Rightarrow>
          (let sg = \<lparr>sig_algorithm = ms_algorithm s, sig_key_id = ms_key_id s, sig_bytes = bytes\<rparr>;
               verified = list_ex (\<lambda>v. vf_key_id v = ms_key_id s \<and> vf_algorithm v = ms_algorithm s
                                        \<and> vf_verify v body sg) verifiers in
           if verified
           then if is_pq_signature_alg (ms_algorithm s)
                then check_signatures X verifiers body ss (pq_purposes @ [ms_purpose s]) classical_valid
                else check_signatures X verifiers body ss pq_purposes True
           else check_signatures X verifiers body ss pq_purposes classical_valid))"

definition manifest_verify ::
  "('x) qrse_env_scheme \<Rightarrow> qrsd_manifest \<Rightarrow> verifier list \<Rightarrow> manifest_error + verified_disk_manifest" where
  "manifest_verify X m verifiers =
     (if qm_format m \<noteq> QRSD_FORMAT then Err (ManBadFormat QRSD_FORMAT (qm_format m))
      else case check_signatures X verifiers (signing_bytes X m) (qm_signatures m) [] False of
        Inl e \<Rightarrow> Err e
      | Inr (pq_purposes, classical_valid) \<Rightarrow>
          (if pq_purposes \<noteq> [] then Ok \<lparr>vdm_manifest = m, vdm_verified_purposes = pq_purposes\<rparr>
           else if classical_valid then Err ManInsufficientPostQuantum
           else Err ManNoValidSignature))"

definition manifest_to_json :: "('x) qrse_env_scheme \<Rightarrow> qrsd_manifest \<Rightarrow> manifest_error + string" where
  "manifest_to_json X m = (case env_manifest_pretty X m of Inl e \<Rightarrow> Err (ManJson e) | Inr s \<Rightarrow> Ok s)"

definition manifest_from_json :: "('x) qrse_env_scheme \<Rightarrow> string \<Rightarrow> manifest_error + qrsd_manifest" where
  "manifest_from_json X s = (case env_manifest_parse X s of Inl e \<Rightarrow> Err (ManJson e) | Inr m \<Rightarrow> Ok m)"

subsection \<open>Downgrade protection\<close>

record version_floor =
  vfl_tenant_min_manifest_version :: u64
  vfl_require_pqc_signature :: bool
  vfl_allow_classical_only :: bool

definition floor_strict :: "u64 \<Rightarrow> version_floor" where
  "floor_strict m = \<lparr>vfl_tenant_min_manifest_version = m, vfl_require_pqc_signature = True,
     vfl_allow_classical_only = False\<rparr>"

datatype downgrade_verdict =
    VerdictOk
  | RejectedStaleVersion u64 u64
  | RejectedClassicalOnly
  | RejectedSuiteDowngrade string string

definition verdict_is_ok :: "downgrade_verdict \<Rightarrow> bool" where
  "verdict_is_ok v \<longleftrightarrow> v = VerdictOk"

text \<open>The verdict of the loop over the slots on the first slot it stops at.\<close>

definition suite_downgrade :: "keyslot \<Rightarrow> downgrade_verdict" where
  "suite_downgrade slot =
     (let to_suite = (case slot_kem_suite slot of Some s \<Rightarrow> kem_suite_canonical s | None \<Rightarrow> []);
          from_suite = (case slot_kem_suite slot of
            Some s \<Rightarrow> ks_classical s @ ''+<pqc-required>+'' @ ks_combiner s | None \<Rightarrow> ''hybrid'')
      in RejectedSuiteDowngrade from_suite to_suite)"

definition downgrade_check :: "verified_disk_manifest \<Rightarrow> version_floor \<Rightarrow> u64 \<Rightarrow> downgrade_verdict" where
  "downgrade_check m fl monotonic_counter =
     (let found = min_boot_manifest_version m in
      if found < vfl_tenant_min_manifest_version fl
      then RejectedStaleVersion found (vfl_tenant_min_manifest_version fl)
      else if found < monotonic_counter then RejectedStaleVersion found monotonic_counter
      else if vfl_require_pqc_signature fl \<and> \<not> vfl_allow_classical_only fl
      then (case find (\<lambda>s. slot_is_hybrid s \<and> slot_classical_only s) (vdm_keyslots m) of
              Some slot \<Rightarrow> suite_downgrade slot
            | None \<Rightarrow> if \<not> list_ex slot_is_hybrid (vdm_keyslots m) then RejectedClassicalOnly else VerdictOk)
      else VerdictOk)"

subsection \<open>The key hierarchy\<close>

datatype key_class =
    Dek | Vmk | Kek | DeviceKey | UserKey | RecoveryKey | HardwareSealedKey | RemoteKmsKey
  | PqcWrappedKey | ThresholdShare | AuditSigningKey

datatype rotation_cadence =
    RotOnDemand | RotPerBoot | RotDaily | RotMonthly | RotQuarterly | RotAnnual | RotOnCompromise

datatype key_node = KeyNode (kn_id: string) (kn_class: key_class) (kn_rotation: rotation_cadence)
  (kn_children: "key_node list")

definition leaf :: "string \<Rightarrow> key_class \<Rightarrow> rotation_cadence \<Rightarrow> key_node" where
  "leaf i c r = KeyNode i c r []"

definition with_child :: "key_node \<Rightarrow> key_node \<Rightarrow> key_node" where
  "with_child n c = KeyNode (kn_id n) (kn_class n) (kn_rotation n) (kn_children n @ [c])"

record hierarchy_builder =
  hb_org_id :: string
  hb_tenant_id :: string
  hb_device_id :: string

definition builder_new :: hierarchy_builder where
  "builder_new = \<lparr>hb_org_id = ''org-root'', hb_tenant_id = ''tenant'', hb_device_id = ''device''\<rparr>"

definition builder_org :: "hierarchy_builder \<Rightarrow> string \<Rightarrow> hierarchy_builder" where
  "builder_org b i = b\<lparr>hb_org_id := i\<rparr>"
definition builder_tenant :: "hierarchy_builder \<Rightarrow> string \<Rightarrow> hierarchy_builder" where
  "builder_tenant b i = b\<lparr>hb_tenant_id := i\<rparr>"
definition builder_device :: "hierarchy_builder \<Rightarrow> string \<Rightarrow> hierarchy_builder" where
  "builder_device b i = b\<lparr>hb_device_id := i\<rparr>"

definition vmk_dek :: key_node where
  "vmk_dek = with_child (leaf ''vmk'' Vmk RotQuarterly) (leaf ''dek'' Dek RotPerBoot)"

definition hierarchy_build :: "hierarchy_builder \<Rightarrow> key_node" where
  "hierarchy_build b =
     (let device = with_child (with_child (with_child
              (leaf (''device-kek:'' @ hb_device_id b) DeviceKey RotAnnual)
              (with_child (leaf ''tpm-sealed'' HardwareSealedKey RotPerBoot) vmk_dek))
              (with_child (leaf ''fido2-user'' UserKey RotOnDemand) vmk_dek))
              (with_child (leaf ''recovery'' RecoveryKey RotOnCompromise)
                 (with_child (leaf ''share'' ThresholdShare RotOnCompromise) vmk_dek));
          remote = with_child (with_child (with_child
              (leaf ''remote-kms-kek'' RemoteKmsKey RotMonthly)
              (leaf ''classical-leg'' Kek RotMonthly))
              (leaf ''ml-kem-leg'' PqcWrappedKey RotMonthly))
              (with_child (leaf ''hybrid'' PqcWrappedKey RotMonthly) vmk_dek);
          tenant = with_child (with_child (leaf (''tenant-kek:'' @ hb_tenant_id b) Kek RotQuarterly) device) remote
      in with_child (leaf (''org-root-kek:'' @ hb_org_id b) Kek RotAnnual) tenant)"

definition hierarchy_standard :: key_node where
  "hierarchy_standard = hierarchy_build builder_new"

definition wrapping_chain :: "keyslot \<Rightarrow> key_class list" where
  "wrapping_chain slot =
     [Kek, Kek]
     @ (case kl_kind slot of
          Argon2idPassphrase k w \<Rightarrow> [DeviceKey, UserKey]
        | Tpm2Sealed pcrs pin pol \<Rightarrow> [DeviceKey, HardwareSealedKey]
        | ThresholdRecovery scheme m n \<Rightarrow> [DeviceKey, RecoveryKey, ThresholdShare]
        | HybridRemoteKms k a \<Rightarrow> [RemoteKmsKey, PqcWrappedKey])
     @ [Vmk, Dek]"

definition rotation_for :: "key_class \<Rightarrow> rotation_cadence" where
  "rotation_for c = (case c of Dek \<Rightarrow> RotPerBoot | Vmk \<Rightarrow> RotQuarterly | DeviceKey \<Rightarrow> RotAnnual
     | Kek \<Rightarrow> RotAnnual | UserKey \<Rightarrow> RotOnDemand | RecoveryKey \<Rightarrow> RotOnCompromise
     | HardwareSealedKey \<Rightarrow> RotPerBoot | RemoteKmsKey \<Rightarrow> RotMonthly | PqcWrappedKey \<Rightarrow> RotMonthly
     | ThresholdShare \<Rightarrow> RotOnCompromise | AuditSigningKey \<Rightarrow> RotQuarterly)"

text \<open>The classes along the paths from a node to a leaf.\<close>

fun class_paths :: "key_node \<Rightarrow> key_class list list" where
  "class_paths (KeyNode i c r cs) = map ((#) c) (if cs = [] then [[]] else concat (map class_paths cs))"

lemma wrapping_chain_is_a_path: "wrapping_chain slot \<in> set (class_paths (hierarchy_build b))"
  by (cases "kl_kind slot")
     (simp_all add: wrapping_chain_def hierarchy_build_def Let_def with_child_def leaf_def vmk_dek_def)

text \<open>
  The tree and the function disagree on the cadence of the tenant's key: the tree rotates it
  quarterly, \<open>rotation_for\<close> says annually.
\<close>

lemma tenant_cadence_differs:
  "map kn_rotation (kn_children (hierarchy_build b)) = [RotQuarterly]
   \<and> map (rotation_for \<circ> kn_class) (kn_children (hierarchy_build b)) = [RotAnnual]"
  by (simp add: hierarchy_build_def Let_def with_child_def leaf_def rotation_for_def)

end
