(* ===== verification/Unlock.thy ===== *)
theory Unlock
  imports Qrse
begin

text \<open>
  The attested hybrid unlock of \<open>hyper-qrse\<close>: from a signed disk manifest through downgrade
  protection and attested key release to a key-encryption key derived from a classical and
  a post-quantum secret. The exact condition under which there is a key, what the audit
  chain records on every path, and the round trip from sealing a volume to unlocking it.
\<close>

subsection \<open>The flow\<close>

definition QRSE_UNLOCK_POLICY_ID :: string where
  "QRSE_UNLOCK_POLICY_ID = ''pol-qrse-attested-hybrid-unlock''"

definition KEK_LEN :: nat where "KEK_LEN = 32"

record unlock_request =
  ur_manifest :: qrsd_manifest
  ur_boot_measurement :: boot_measurement
  ur_device_id :: string
  ur_hypervisor_version :: u64

datatype unlock_error =
    UlManifestVerification manifest_error
  | UlDowngrade downgrade_verdict
  | UlAttestationDenied string
  | UlNoHybridKeyslot
  | UlCrypto crypto_error

record kem_leg =
  leg_dk :: "byte list"
  leg_ct :: "byte list"

definition record_unlock_deny ::
  "('x) qrse_env_scheme \<Rightarrow> receipt_chain \<Rightarrow> qrsd_manifest \<Rightarrow> string \<Rightarrow> string \<Rightarrow> receipt_chain" where
  "record_unlock_deny X chain m inputs_hash stage =
     chain_append X chain (event_str EvKeyRelease) (qm_volume_id m) (''deny:'' @ stage)
       QRSE_UNLOCK_POLICY_ID inputs_hash"

text \<open>The suite of the first active hybrid slot that has a post-quantum leg.\<close>

definition select_suite :: "keyslot list \<Rightarrow> kem_suite option" where
  "select_suite slots = Option.bind
     (find (\<lambda>s. slot_is_active s \<and> slot_is_hybrid s \<and> \<not> slot_classical_only s) slots)
     slot_kem_suite"

definition unlock_key_request :: "unlock_request \<Rightarrow> kms_request" where
  "unlock_key_request req =
     (let m = ur_manifest req; bm = ur_boot_measurement req in
      \<lparr>kms_request_type = ''key_release'', kms_device_id = ur_device_id req,
       kms_vm_id = qm_volume_id m, kms_capsule_hash = bm_capsule_manifest_hash bm,
       kms_boot_policy_hash = bm_boot_policy_hash bm, kms_pcrs = bm_pcrs bm,
       kms_hypervisor_version = ur_hypervisor_version req,
       kms_nonce = qm_volume_id m @ '':''
         @ show_u64 (bp_minimum_boot_manifest_version (qm_boot_policy m))\<rparr>)"

definition unlock_context :: "unlock_request \<Rightarrow> kem_suite \<Rightarrow> combiner_context" where
  "unlock_context req suite =
     (let m = ur_manifest req; bm = ur_boot_measurement req in
      \<lparr>cx_volume_id = qm_volume_id m, cx_device_id = ur_device_id req,
       cx_policy_id = bp_policy_id (qm_boot_policy m),
       cx_policy_version = bp_minimum_boot_manifest_version (qm_boot_policy m),
       cx_algorithm_suite = suite, cx_boot_measurement = bm_boot_policy_hash bm\<rparr>)"

definition attested_hybrid_unlock ::
  "('x) qrse_env_scheme \<Rightarrow> unlock_request \<Rightarrow> verifier list \<Rightarrow> version_floor \<Rightarrow> u64 \<Rightarrow> kem \<Rightarrow> kem
     \<Rightarrow> kem_leg \<Rightarrow> kem_leg \<Rightarrow> kms_policy \<Rightarrow> receipt_chain \<Rightarrow> receipt_chain \<times> (unlock_error + kek)" where
  "attested_hybrid_unlock X req verifiers fl monotonic_counter classical_kem pqc_kem
      classical_leg pqc_leg kms chain =
     (let m = ur_manifest req;
          inputs_hash = ext_sha384_hex X (signing_bytes X m) in
      case manifest_verify X m verifiers of
        Inl e \<Rightarrow> (record_unlock_deny X chain m inputs_hash ''manifest_verification'',
                  Err (UlManifestVerification e))
      | Inr verified \<Rightarrow>
      (let verdict = downgrade_check verified fl monotonic_counter in
       if \<not> verdict_is_ok verdict
       then (record_unlock_deny X chain m inputs_hash ''downgrade'', Err (UlDowngrade verdict))
       else case select_suite (vdm_keyslots verified) of
         None \<Rightarrow> (record_unlock_deny X chain m inputs_hash ''no_hybrid_keyslot'', Err UlNoHybridKeyslot)
       | Some suite \<Rightarrow>
       (case kms_evaluate X kms (unlock_key_request req) chain of
          (chain1, KeyDeny reason) \<Rightarrow> (chain1, Err (UlAttestationDenied reason))
        | (chain1, KeyAllow vmk receipt_json) \<Rightarrow>
       (case kem_decapsulate classical_kem (leg_dk classical_leg) (leg_ct classical_leg) of
          Inl e \<Rightarrow> (chain1, Err (UlCrypto e))
        | Inr ss_classical \<Rightarrow>
       (case kem_decapsulate pqc_kem (leg_dk pqc_leg) (leg_ct pqc_leg) of
          Inl e \<Rightarrow> (chain1, Err (UlCrypto e))
        | Inr ss_pqc \<Rightarrow>
       (let transcript = signing_bytes X m in
        case hybrid_combine X ss_classical ss_pqc transcript (unlock_context req suite) KEK_LEN of
          Inl e \<Rightarrow> (chain1, Err (UlCrypto e))
        | Inr k \<Rightarrow>
            (chain_append X chain1 (event_str EvKeyRelease) (qm_volume_id m) ''allow''
               QRSE_UNLOCK_POLICY_ID inputs_hash, Ok k)))))))"

subsection \<open>When a manifest verifies\<close>

definition signature_accepted ::
  "('x) qrse_env_scheme \<Rightarrow> verifier list \<Rightarrow> byte list \<Rightarrow> manifest_signature \<Rightarrow> bool" where
  "signature_accepted X verifiers body s \<longleftrightarrow>
     (\<exists>bytes v. env_hex_decode X (ms_signature_ref s) = Ok bytes \<and> v \<in> set verifiers
        \<and> vf_key_id v = ms_key_id s \<and> vf_algorithm v = ms_algorithm s
        \<and> vf_verify v body \<lparr>sig_algorithm = ms_algorithm s, sig_key_id = ms_key_id s, sig_bytes = bytes\<rparr>)"

definition pq_purposes_of ::
  "('x) qrse_env_scheme \<Rightarrow> verifier list \<Rightarrow> byte list \<Rightarrow> manifest_signature list \<Rightarrow> string list" where
  "pq_purposes_of X vs body ss =
     map ms_purpose (filter (\<lambda>s. signature_accepted X vs body s \<and> is_pq_signature_alg (ms_algorithm s)) ss)"

lemma check_signatures_Ok:
  "(\<exists>c. check_signatures X vs body ss ps b = Ok (qs, c)) \<longleftrightarrow>
     list_all (\<lambda>s. is_ok (env_hex_decode X (ms_signature_ref s))) ss \<and> qs = ps @ pq_purposes_of X vs body ss"
proof (induction ss arbitrary: ps b)
  case Nil
  show ?case by (auto simp: pq_purposes_of_def)
next
  case (Cons s ss)
  show ?case
  proof (cases "env_hex_decode X (ms_signature_ref s)")
    case (Inr bytes)
    then have acc: "signature_accepted X vs body s \<longleftrightarrow> list_ex (\<lambda>v. vf_key_id v = ms_key_id s
        \<and> vf_algorithm v = ms_algorithm s
        \<and> vf_verify v body \<lparr>sig_algorithm = ms_algorithm s, sig_key_id = ms_key_id s, sig_bytes = bytes\<rparr>) vs"
      by (auto simp: signature_accepted_def list_ex_iff)
    show ?thesis
      using Inr Cons.IH by (simp add: acc [symmetric] Let_def pq_purposes_of_def)
  qed simp
qed

lemma manifest_verify_Ok_iff:
  "manifest_verify X m vs = Ok v \<longleftrightarrow>
     qm_format m = QRSD_FORMAT
     \<and> list_all (\<lambda>s. is_ok (env_hex_decode X (ms_signature_ref s))) (qm_signatures m)
     \<and> vdm_manifest v = m \<and> vdm_verified_purposes v = pq_purposes_of X vs (signing_bytes X m) (qm_signatures m)
     \<and> vdm_verified_purposes v \<noteq> []"
proof (cases "check_signatures X vs (signing_bytes X m) (qm_signatures m) [] False")
  case (Inl e)
  then show ?thesis using check_signatures_Ok [of X vs "signing_bytes X m" "qm_signatures m" "[]" False]
    by (auto simp: manifest_verify_def)
next
  case (Inr q)
  then show ?thesis
    using check_signatures_Ok [of X vs "signing_bytes X m" "qm_signatures m" "[]" False "fst q"]
    by (cases q; cases v) (auto simp: manifest_verify_def)
qed

lemma downgrade_Ok_iff:
  "verdict_is_ok (downgrade_check v fl counter) \<longleftrightarrow>
     vfl_tenant_min_manifest_version fl \<le> min_boot_manifest_version v
     \<and> counter \<le> min_boot_manifest_version v
     \<and> (if vfl_require_pqc_signature fl \<and> \<not> vfl_allow_classical_only fl
        then list_ex slot_is_hybrid (vdm_keyslots v)
          \<and> \<not> list_ex (\<lambda>s. slot_is_hybrid s \<and> slot_classical_only s) (vdm_keyslots v)
        else True)"
  by (auto simp: downgrade_check_def verdict_is_ok_def Let_def suite_downgrade_def find_None_list_ex
      not_less dest: find_Some_list_ex split: option.splits)

lemma hybrid_combine_Ok_iff:
  "hybrid_combine X s1 s2 t cx n = Ok k \<longleftrightarrow>
     is_live s1 \<and> is_live s2
     \<and> env_hkdf X (ext_sha384 X t) (s1 @ s2) (COMBINER_LABEL @ context_to_bytes cx) n = Some (kek_bytes k)"
  by (cases k) (auto simp: hybrid_combine_def Let_def split: option.splits)

lemma select_suite_Some:
  assumes "select_suite slots = Some su"
  shows "list_ex slot_is_hybrid slots"
proof (cases "find (\<lambda>s. slot_is_active s \<and> slot_is_hybrid s \<and> \<not> slot_classical_only s) slots")
  case (Some s)
  from find_SomeD [OF Some] show ?thesis by (auto simp: list_ex_iff)
qed (use assms in \<open>simp add: select_suite_def\<close>)

subsection \<open>The paths through the flow\<close>

text \<open>What each outcome adds to the audit chain, as the list of decisions.\<close>

definition unlock_trail :: "unlock_error + kek \<Rightarrow> string list" where
  "unlock_trail r = (case r of
       Inl (UlManifestVerification e) \<Rightarrow> [''deny:manifest_verification'']
     | Inl (UlDowngrade d) \<Rightarrow> [''deny:downgrade'']
     | Inl UlNoHybridKeyslot \<Rightarrow> [''deny:no_hybrid_keyslot'']
     | Inl (UlAttestationDenied reason) \<Rightarrow> [''deny'']
     | Inl (UlCrypto e) \<Rightarrow> [''allow'']
     | Inr k \<Rightarrow> [''allow'', ''allow''])"

lemma kms_allowed:
  assumes "deny_reason_for p req = None"
  obtains vmk j where "kms_evaluate X p req chain =
    (chain_append X chain (event_str EvKeyRelease) (kms_vm_id req) ''allow'' KMS_POLICY_ID (kms_inputs_hash X req),
     KeyAllow vmk j)"
  using assms by (simp add: kms_evaluate_def Let_def)

lemma kms_denied:
  assumes "deny_reason_for p req = Some e"
  shows "kms_evaluate X p req chain =
    (chain_append X chain (event_str EvKeyRelease) (kms_vm_id req) ''deny'' KMS_POLICY_ID (kms_inputs_hash X req),
     KeyDeny e)"
  using assms by (simp add: kms_evaluate_def Let_def)

text \<open>Decapsulation of both legs and the combination, once every gate has passed.\<close>

definition unlock_crypto ::
  "('x) qrse_env_scheme \<Rightarrow> unlock_request \<Rightarrow> kem_suite \<Rightarrow> kem \<Rightarrow> kem \<Rightarrow> kem_leg \<Rightarrow> kem_leg \<Rightarrow> crypto_error + kek" where
  "unlock_crypto X req suite ck pk cl pl =
     (case kem_decapsulate ck (leg_dk cl) (leg_ct cl) of
        Inl e \<Rightarrow> Err e
      | Inr s1 \<Rightarrow>
          (case kem_decapsulate pk (leg_dk pl) (leg_ct pl) of
             Inl e \<Rightarrow> Err e
           | Inr s2 \<Rightarrow> hybrid_combine X s1 s2 (signing_bytes X (ur_manifest req))
                         (unlock_context req suite) KEK_LEN))"

lemma unlock_cases:
  fixes X :: "('x) qrse_env_scheme" and chain :: receipt_chain
  assumes u: "attested_hybrid_unlock X req vs fl counter ck pk cl pl kms chain = (chain', r)"
  obtains (manifest) e h where "manifest_verify X (ur_manifest req) vs = Err e" "r = Err (UlManifestVerification e)"
      "chain' = record_unlock_deny X chain (ur_manifest req) h ''manifest_verification''"
  | (downgrade) v d h where "manifest_verify X (ur_manifest req) vs = Ok v" "\<not> verdict_is_ok (downgrade_check v fl counter)"
      "r = Err (UlDowngrade d)" "chain' = record_unlock_deny X chain (ur_manifest req) h ''downgrade''"
  | (no_slot) v h where "manifest_verify X (ur_manifest req) vs = Ok v"
      "select_suite (vdm_keyslots v) = None" "r = Err UlNoHybridKeyslot"
      "chain' = record_unlock_deny X chain (ur_manifest req) h ''no_hybrid_keyslot''"
  | (attestation) e h where "deny_reason_for kms (unlock_key_request req) = Some e" "r = Err (UlAttestationDenied e)"
      "chain' = chain_append X chain (event_str EvKeyRelease) (qm_volume_id (ur_manifest req)) ''deny'' KMS_POLICY_ID h"
  | (crypto) v suite e h where "manifest_verify X (ur_manifest req) vs = Ok v"
      "verdict_is_ok (downgrade_check v fl counter)" "select_suite (vdm_keyslots v) = Some suite"
      "deny_reason_for kms (unlock_key_request req) = None"
      "unlock_crypto X req suite ck pk cl pl = Err e" "r = Err (UlCrypto e)"
      "chain' = chain_append X chain (event_str EvKeyRelease) (qm_volume_id (ur_manifest req)) ''allow'' KMS_POLICY_ID h"
  | (key) v suite k h h' where "manifest_verify X (ur_manifest req) vs = Ok v"
      "verdict_is_ok (downgrade_check v fl counter)" "select_suite (vdm_keyslots v) = Some suite"
      "deny_reason_for kms (unlock_key_request req) = None"
      "unlock_crypto X req suite ck pk cl pl = Ok k" "r = Ok k"
      "chain' = chain_append X (chain_append X chain (event_str EvKeyRelease) (qm_volume_id (ur_manifest req))
         ''allow'' KMS_POLICY_ID h) (event_str EvKeyRelease) (qm_volume_id (ur_manifest req)) ''allow''
         QRSE_UNLOCK_POLICY_ID h'"
proof (cases "manifest_verify X (ur_manifest req) vs")
  case (Inl e)
  with u manifest show thesis by (auto simp: attested_hybrid_unlock_def Let_def)
next
  case v: (Inr v)
  show thesis
  proof (cases "verdict_is_ok (downgrade_check v fl counter)")
    case False
    with u v downgrade show thesis by (auto simp: attested_hybrid_unlock_def Let_def)
  next
    case ok: True
    have vm: "kms_vm_id (unlock_key_request req) = qm_volume_id (ur_manifest req)"
      by (simp add: unlock_key_request_def Let_def)
    show thesis
    proof (cases "select_suite (vdm_keyslots v)")
      case None
      with u v ok no_slot show thesis by (auto simp: attested_hybrid_unlock_def Let_def)
    next
      case suite: (Some suite)
      show thesis
      proof (cases "deny_reason_for kms (unlock_key_request req)")
        case (Some e)
        with u v ok suite attestation show thesis
          by (auto simp: attested_hybrid_unlock_def Let_def kms_denied [OF Some] vm)
      next
        case None
        then obtain vmk j where kms: "kms_evaluate X kms (unlock_key_request req) chain =
            (chain_append X chain (event_str EvKeyRelease) (qm_volume_id (ur_manifest req)) ''allow'' KMS_POLICY_ID
               (kms_inputs_hash X (unlock_key_request req)), KeyAllow vmk j)"
          by (rule kms_allowed [where X = X and chain = chain]) (simp add: vm)
        show thesis
        proof (cases "unlock_crypto X req suite ck pk cl pl")
          case (Inl e)
          with u v ok suite None kms crypto show thesis
            by (auto simp: attested_hybrid_unlock_def unlock_crypto_def Let_def split: sum.splits)
        next
          case (Inr k)
          with u v ok suite None kms key show thesis
            by (auto simp: attested_hybrid_unlock_def unlock_crypto_def Let_def split: sum.splits)
        qed
      qed
    qed
  qed
qed

lemma unlock_Ok_iff:
  "snd (attested_hybrid_unlock X req vs fl counter ck pk cl pl kms chain) = Ok k \<longleftrightarrow>
     (\<exists>v suite. manifest_verify X (ur_manifest req) vs = Ok v \<and> verdict_is_ok (downgrade_check v fl counter)
        \<and> select_suite (vdm_keyslots v) = Some suite
        \<and> deny_reason_for kms (unlock_key_request req) = None
        \<and> unlock_crypto X req suite ck pk cl pl = Ok k)"
proof -
  obtain chain' r where u: "attested_hybrid_unlock X req vs fl counter ck pk cl pl kms chain = (chain', r)"
    by fastforce
  show ?thesis by (rule unlock_cases [OF u]) (auto simp: u)
qed

lemma unlock_crypto_Ok_iff:
  "unlock_crypto X req suite ck pk cl pl = Ok k \<longleftrightarrow>
     (\<exists>s1 s2. kem_decapsulate ck (leg_dk cl) (leg_ct cl) = Ok s1 \<and> kem_decapsulate pk (leg_dk pl) (leg_ct pl) = Ok s2
        \<and> is_live s1 \<and> is_live s2
        \<and> env_hkdf X (ext_sha384 X (signing_bytes X (ur_manifest req))) (s1 @ s2)
            (COMBINER_LABEL @ context_to_bytes (unlock_context req suite)) KEK_LEN = Some (kek_bytes k))"
  by (auto simp: unlock_crypto_def hybrid_combine_Ok_iff split: sum.splits)

lemma pq_purposes_nonempty:
  "pq_purposes_of X vs body ss \<noteq> [] \<longleftrightarrow>
     (\<exists>s. s \<in> set ss \<and> is_pq_signature_alg (ms_algorithm s) \<and> signature_accepted X vs body s)"
  by (auto simp: pq_purposes_of_def filter_empty_conv)

subsection \<open>The contracts of the primitives\<close>

text \<open>What the flow relies on, whatever the algorithms behind the traits.\<close>

locale kem_contract =
  fixes k :: kem
  assumes decapsulates:
    "kem_decapsulate k (snd (kem_generate_keypair k seed)) (fst (kem_encapsulate k (fst (kem_generate_keypair k seed)) r))
       = Ok (snd (kem_encapsulate k (fst (kem_generate_keypair k seed)) r))"

locale signing_contract =
  fixes s :: signer and v :: verifier
  assumes names: "vf_algorithm v = sgn_algorithm s" "vf_key_id v = sgn_key_id s"
    "sig_algorithm (sgn_sign s message) = sgn_algorithm s" "sig_key_id (sgn_sign s message) = sgn_key_id s"
    and verifies: "vf_verify v message (sgn_sign s message)"
begin

lemma own_signature_accepted:
  assumes "env_hex_decode X (ext_hex X (sig_bytes (sgn_sign s body))) = Ok (sig_bytes (sgn_sign s body))"
  shows "signature_accepted X [v] body
    \<lparr>ms_purpose = p, ms_algorithm = sig_algorithm (sgn_sign s body), ms_key_id = sig_key_id (sgn_sign s body),
     ms_signature_ref = ext_hex X (sig_bytes (sgn_sign s body)), ms_status = st, ms_not_after = na\<rparr>"
proof -
  have eq: "\<lparr>sig_algorithm = sgn_algorithm s, sig_key_id = sgn_key_id s, sig_bytes = sig_bytes (sgn_sign s body)\<rparr>
      = sgn_sign s body"
    using names(3,4) [of body] by (cases "sgn_sign s body") simp
  with assms verifies [of body] show ?thesis
    by (simp add: signature_accepted_def names eq)
qed

end

text \<open>A volume sealed to two public keys and signed.\<close>

definition sealed_leg :: "kem \<Rightarrow> byte list \<Rightarrow> byte list \<Rightarrow> kem_leg" where
  "sealed_leg k seed r = \<lparr>leg_dk = snd (kem_generate_keypair k seed),
     leg_ct = fst (kem_encapsulate k (fst (kem_generate_keypair k seed)) r)\<rparr>"

definition sealed_secret :: "kem \<Rightarrow> byte list \<Rightarrow> byte list \<Rightarrow> shared_secret" where
  "sealed_secret k seed r = snd (kem_encapsulate k (fst (kem_generate_keypair k seed)) r)"

definition version_accepted :: "version_floor \<Rightarrow> u64 \<Rightarrow> qrsd_manifest \<Rightarrow> bool" where
  "version_accepted fl counter m \<longleftrightarrow>
     vfl_tenant_min_manifest_version fl \<le> bp_minimum_boot_manifest_version (qm_boot_policy m)
     \<and> counter \<le> bp_minimum_boot_manifest_version (qm_boot_policy m)
     \<and> \<not> list_ex (\<lambda>s. slot_is_hybrid s \<and> slot_classical_only s) (mk_keyslots (qm_key_hierarchy m))"

lemma signing_bytes_signed [simp]: "signing_bytes X (m\<lparr>qm_signatures := ss\<rparr>) = signing_bytes X m"
  by (simp add: signing_bytes_def manifest_body.truncate_def)

lemma manifest_sign_sel [simp]:
  "signing_bytes X (manifest_sign X m s p) = signing_bytes X m"
  "qm_format (manifest_sign X m s p) = qm_format m"
  "qm_boot_policy (manifest_sign X m s p) = qm_boot_policy m"
  "qm_key_hierarchy (manifest_sign X m s p) = qm_key_hierarchy m"
  by (simp_all add: manifest_sign_def Let_def)

context signing_contract
begin

lemma signed_verifies:
  assumes hex: "\<And>b. env_hex_decode X (ext_hex X b) = Ok b"
    and m: "qm_format m = QRSD_FORMAT" "qm_signatures m = []" "is_pq_signature_alg (sgn_algorithm s)"
  shows "\<exists>w. manifest_verify X (manifest_sign X m s purpose) [v] = Ok w \<and> vdm_manifest w = manifest_sign X m s purpose"
proof -
  let ?m = "manifest_sign X m s purpose"
  have acc: "signature_accepted X [v] (signing_bytes X m) (last (qm_signatures ?m))"
    using own_signature_accepted [OF hex] by (simp add: manifest_sign_def Let_def)
  then have "pq_purposes_of X [v] (signing_bytes X m) (qm_signatures ?m) \<noteq> []"
    unfolding pq_purposes_nonempty using m(3) names(3)
    by (intro exI [of _ "last (qm_signatures ?m)"]) (simp add: manifest_sign_def Let_def)
  then show ?thesis
    using m(1,2) hex unfolding manifest_verify_Ok_iff
    by (intro exI [of _ "\<lparr>vdm_manifest = ?m,
        vdm_verified_purposes = pq_purposes_of X [v] (signing_bytes X m) (qm_signatures ?m)\<rparr>"])
       (simp add: manifest_sign_def Let_def)
qed

end

locale sealed_volume = signing_contract s v + c: kem_contract ck + p: kem_contract pk
  for s v ck pk
begin

lemma sealed_unlocks:
  assumes hex: "\<And>b. env_hex_decode X (ext_hex X b) = Ok b"
    and m: "ur_manifest req = manifest_sign X m s purpose" "qm_format m = QRSD_FORMAT" "qm_signatures m = []"
      "is_pq_signature_alg (sgn_algorithm s)"
    and ok: "version_accepted fl counter m" "select_suite (mk_keyslots (qm_key_hierarchy m)) = Some suite"
      "deny_reason_for kms (unlock_key_request req) = None"
  shows "snd (attested_hybrid_unlock X req [v] fl counter ck pk (sealed_leg ck a ra) (sealed_leg pk b rb) kms chain)
    = (case hybrid_combine X (sealed_secret ck a ra) (sealed_secret pk b rb) (signing_bytes X m)
              (unlock_context req suite) KEK_LEN of Inl e \<Rightarrow> Err (UlCrypto e) | Inr k \<Rightarrow> Ok k)"
proof -
  let ?m = "manifest_sign X m s purpose"
  obtain v' where ver: "manifest_verify X ?m [v] = Ok v'" "vdm_manifest v' = ?m"
    using signed_verifies [OF hex m(2-4)] by blast
  have slots: "vdm_keyslots v' = mk_keyslots (qm_key_hierarchy m)" by (simp add: ver(2) vdm_keyslots_def)
  have down: "verdict_is_ok (downgrade_check v' fl counter)"
    using ok(1) select_suite_Some [OF ok(2)]
    by (simp add: downgrade_Ok_iff version_accepted_def slots) (simp add: ver(2) min_boot_manifest_version_def)
  have crypto: "unlock_crypto X req suite ck pk (sealed_leg ck a ra) (sealed_leg pk b rb) =
      hybrid_combine X (sealed_secret ck a ra) (sealed_secret pk b rb) (signing_bytes X m) (unlock_context req suite) KEK_LEN"
    using c.decapsulates p.decapsulates m(1) by (simp add: unlock_crypto_def sealed_leg_def sealed_secret_def)
  obtain chain' r where u: "attested_hybrid_unlock X req [v] fl counter ck pk (sealed_leg ck a ra) (sealed_leg pk b rb) kms chain = (chain', r)"
    by fastforce
  show ?thesis
    by (rule unlock_cases [OF u]) (use ver(1) down ok(2,3) slots in \<open>auto simp: u m(1) crypto [symmetric]\<close>)
qed

end

subsection \<open>The deterministic primitives keep the contracts\<close>

text \<open>
  What is relied on of the libraries: a digest and a code have 48 bytes, decoding inverts hex
  encoding, and a code verifies against itself.
\<close>

definition qrse_laws :: "('x) qrse_env_scheme \<Rightarrow> bool" where
  "qrse_laws X \<longleftrightarrow> (\<forall>b. length (ext_sha384 X b) = 48) \<and> (\<forall>b. env_hex_decode X (ext_hex X b) = Ok b)
     \<and> (\<forall>k m. length (env_hmac X k m) = 48 \<and> env_hmac_verify_left X k m (env_hmac X k m))"

lemma length_kdf: "qrse_laws X \<Longrightarrow> length (kdf X d ps) = 32"
  by (simp add: kdf_def qrse_laws_def)

lemma kdf_nonempty: "qrse_laws X \<Longrightarrow> kdf X d ps \<noteq> []"
  using length_kdf [of X d ps] by auto

lemma det_kem_contract: "qrse_laws X \<Longrightarrow> kem_contract (det_kem X k)"
  by unfold_locales (simp add: det_kem_def det_decapsulate_def det_generate_keypair_def det_encapsulate_def
      det_root_def Let_def kdf_nonempty)

lemma pad_signature_prefix: "take (length bytes) (pad_signature n pad bytes) = bytes"
proof (induction n pad bytes rule: pad_signature.induct)
  case (1 n pad bytes)
  show ?case
  proof (cases "length bytes < n \<and> pad \<noteq> []")
    case True
    let ?next = "bytes @ take (min (n - length bytes) (length pad)) pad"
    from "1.IH" [OF True] have "take (length bytes) (take (length ?next) (pad_signature n pad ?next)) = bytes"
      by simp
    moreover have "min (length bytes) (length ?next) = length bytes" by simp
    ultimately show ?thesis
      using True by (subst pad_signature.simps) (simp only: take_take simp_thms if_True)
  next
    case False
    then show ?thesis by (subst pad_signature.simps) (simp only: if_False take_all le_refl)
  qed
qed

lemma det_sign_prefix:
  "take (length (det_mac X (ds_algorithm s) (ds_secret s) m)) (sig_bytes (det_sign X s m)) = det_mac X (ds_algorithm s) (ds_secret s) m"
  by (simp add: det_sign_def Let_def pad_signature_prefix)

lemma det_signing_contract:
  assumes "qrse_laws X"
  shows "signing_contract (det_signer X s) (det_verifier X s)"
proof
  fix message
  let ?mac = "det_mac X (ds_algorithm s) (ds_secret s) message"
  have "length ?mac \<le> length (sig_bytes (det_sign X s message))"
    using det_sign_prefix [of X s message] by (metis length_take min.cobounded1)
  moreover have "env_hmac_verify_left X (ds_secret s) (as_bytes (ds_algorithm s) @ as_bytes ''|'' @ message) ?mac"
    using assms by (simp add: qrse_laws_def det_mac_def)
  ultimately show "vf_verify (det_verifier X s) message (sgn_sign (det_signer X s) message)"
    by (simp add: det_verifier_def det_signer_def det_verify_def Let_def det_sign_prefix)
       (simp add: det_sign_def Let_def)
qed (simp_all add: det_verifier_def det_signer_def det_sign_def Let_def)

lemma det_sealed_volume:
  "qrse_laws X \<Longrightarrow> sealed_volume (det_signer X s) (det_verifier X s) (det_kem X c) (det_kem X p)"
  by (intro sealed_volume.intro det_signing_contract det_kem_contract)

subsection \<open>A sample volume\<close>

text \<open>The decoder that inverts \<open>hex\<close>.\<close>

fun unhex :: "string \<Rightarrow> string + byte list" where
  "unhex [] = Ok []"
| "unhex [c] = Err ''odd number of digits''"
| "unhex (c # d # cs) =
     (case (hex_digit_value c, hex_digit_value d, unhex cs) of
        (Some h, Some l, Inr bs) \<Rightarrow> Ok (word_of_nat (16 * h + l) # bs)
      | _ \<Rightarrow> Err ''invalid digit'')"

lemma hex_digit_value_LUT: "i < 16 \<Longrightarrow> hex_digit_value (HEX_LUT ! i) = Some i"
proof -
  have "list_all (\<lambda>i. hex_digit_value (HEX_LUT ! i) = Some i) [0..<16]" by code_simp
  then show "i < 16 \<Longrightarrow> hex_digit_value (HEX_LUT ! i) = Some i" by (simp add: list_all_iff)
qed

lemma byte_nibbles:
  fixes b :: byte
  shows "unat (drop_bit 4 b) < 16" "unat (b AND 0x0F) < 16"
    "word_of_nat (16 * unat (drop_bit 4 b) + unat (b AND 0x0F)) = b"
proof -
  have less: "unat b < 256" using unsigned_less [of b, where 'a = nat] by simp
  have hi: "unat (drop_bit 4 b) = unat b div 16" by (simp add: drop_bit_eq_div unat_div)
  have "b AND 0x0F = take_bit 4 b" by (simp add: take_bit_eq_mask mask_eq_exp_minus_1)
  then have lo: "unat (b AND 0x0F) = unat b mod 16"
    by (simp add: take_bit_eq_mod unat_mod)
  show "unat (drop_bit 4 b) < 16" "unat (b AND 0x0F) < 16"
    unfolding hi lo using less by linarith+
  show "word_of_nat (16 * unat (drop_bit 4 b) + unat (b AND 0x0F)) = b"
    unfolding hi lo by simp
qed

lemma unhex_hex: "unhex (hex bs) = Ok bs"
  by (induction bs) (simp_all add: hex_def hex_byte_def hex_digit_value_LUT byte_nibbles byte_nibbles(3) [simplified])

definition sample_qrse_env :: qrse_env where
  "sample_qrse_env = \<lparr>ext_sha384 = sha384, ext_hex = hex, env_receipt_json = sample_receipt_json,
     env_security_json = sample_security_json, env_policy_parse = (\<lambda>s. Inl s),
     env_launch_json = (\<lambda>r. []), env_key_json = (\<lambda>r. []), env_device_json = (\<lambda>r. []),
     env_flow_json = (\<lambda>r. []), env_capsule_parse = (\<lambda>s. Inl s), env_request_json = (\<lambda>r. []),
     env_receipt_pretty = (\<lambda>r. []), env_hmac = (\<lambda>k m. sha384 (k @ m)),
     env_hmac_verify_left = (\<lambda>k m t. t = take (length t) (sha384 (k @ m))),
     env_hkdf = (\<lambda>salt ikm info n. Some (take n (sha384 (salt @ ikm @ info)))),
     env_hex_decode = unhex, env_body_json = (\<lambda>b. as_bytes (qm_volume_id b)),
     env_manifest_pretty = (\<lambda>m. Inl []), env_manifest_parse = (\<lambda>s. Inl s)\<rparr>"

lemma sample_qrse_laws: "qrse_laws sample_qrse_env"
  by (simp add: qrse_laws_def sample_qrse_env_def unhex_hex)

interpretation sample_volume: sealed_volume "det_signer sample_qrse_env s" "det_verifier sample_qrse_env s"
    "det_kem sample_qrse_env c" "det_kem sample_qrse_env p" for s c p
  by (rule det_sealed_volume [OF sample_qrse_laws])

definition sample_disk_manifest :: qrsd_manifest where
  "sample_disk_manifest = \<lparr>qm_format = ''qrsd-v1'', qm_volume_id = ''vol-1'', qm_created_at = [],
     qm_data_plane = \<lparr>dp_cipher = ''aes-256-xts'', dp_xts_raw_key_bits = 512, dp_sector_size = 4096,
       dp_integrity = \<lparr>ig_mode = ''none'', ig_alternatives = []\<rparr>\<rparr>,
     qm_boot_policy = \<lparr>bp_policy_id = ''pol'', bp_secure_boot_required = True,
       bp_measured_boot_required = True, bp_pcr_profile = [''0''],
       bp_minimum_boot_manifest_version = 7,
       bp_rollback_protection = \<lparr>rbp_type = ''tpm'', rbp_counter_name = ''c''\<rparr>\<rparr>,
     qm_key_hierarchy = \<lparr>mk_volume_master_key_version = 1, mk_active_dek_version = 1,
       mk_keyslots = [\<lparr>kl_slot = 0, kl_status = KsActive, kl_kind = HybridRemoteKms kem_suite_768
         \<lparr>kat_required = True, kat_accepted_tee = [], kat_measurement_policy_ref = []\<rparr>\<rparr>]\<rparr>,
     qm_audit = \<lparr>au_last_rotation = [], au_last_attested_unlock_receipt = [], au_log_chain = []\<rparr>,
     qm_signatures = []\<rparr>"

definition sample_unlock_request :: "qrsd_manifest \<Rightarrow> unlock_request" where
  "sample_unlock_request m = \<lparr>ur_manifest = m,
     ur_boot_measurement = \<lparr>bm_uefi_app_hash = [], bm_kernel_hash = [], bm_boot_policy_hash = ''boot'',
       bm_capsule_manifest_hash = ''cap'', bm_pcrs = [(0, ''p0'')]\<rparr>,
     ur_device_id = ''dev'', ur_hypervisor_version = 3\<rparr>"

definition sample_unlock_kms :: kms_policy where
  "sample_unlock_kms = \<lparr>kp_expected_pcrs = [(0, ''p0'')], kp_min_hypervisor_version = 2,
     kp_allowed_capsule_hashes = [''cap''], kp_expected_boot_policy_hash = ''boot''\<rparr>"

subsection \<open>What a key is bound to\<close>

lemma put_field_inject:
  assumes "length a < 2 ^ 64" "length b < 2 ^ 64"
  shows "put_field a @ xs = put_field b @ ys \<longleftrightarrow> a = b \<and> xs = ys"
proof
  assume eq: "put_field a @ xs = put_field b @ ys"
  then have "(word_of_nat (length a) :: u64) = word_of_nat (length b)"
    by (simp add: put_field_def to_be_bytes_inject)
  then have "length a = length b"
    using assms by (simp add: word_of_nat_eq_iff take_bit_nat_eq_self)
  with eq show "a = b \<and> xs = ys" by (simp add: put_field_def)
qed simp

text \<open>The strings of a context are shorter than the length prefix can count.\<close>

definition context_fits :: "combiner_context \<Rightarrow> bool" where
  "context_fits c \<longleftrightarrow> length (cx_volume_id c) < 2 ^ 64 \<and> length (cx_device_id c) < 2 ^ 64
     \<and> length (cx_policy_id c) < 2 ^ 64 \<and> length (kem_suite_canonical (cx_algorithm_suite c)) < 2 ^ 64
     \<and> length (cx_boot_measurement c) < 2 ^ 64"

lemma context_to_bytes_inject:
  assumes "context_fits c" "context_fits d"
  shows "context_to_bytes c = context_to_bytes d \<longleftrightarrow>
     cx_volume_id c = cx_volume_id d \<and> cx_device_id c = cx_device_id d \<and> cx_policy_id c = cx_policy_id d
     \<and> cx_policy_version c = cx_policy_version d
     \<and> kem_suite_canonical (cx_algorithm_suite c) = kem_suite_canonical (cx_algorithm_suite d)
     \<and> cx_boot_measurement c = cx_boot_measurement d"
  using assms put_field_inject [of "as_bytes (cx_boot_measurement c)" "as_bytes (cx_boot_measurement d)" "[]" "[]"]
  by (simp add: context_fits_def context_to_bytes_def put_field_inject to_be_bytes_inject)

text \<open>Two suites with one canonical form, since the names are joined with a plus sign.\<close>

definition joined_suite :: kem_suite where
  "joined_suite = \<lparr>ks_classical = ''x25519+ml-kem-768'', ks_pqc = ''none'', ks_combiner = ''hkdf-sha384''\<rparr>"
definition split_suite :: kem_suite where
  "split_suite = \<lparr>ks_classical = ''x25519'', ks_pqc = ''ml-kem-768+none'', ks_combiner = ''hkdf-sha384''\<rparr>"

lemma suite_form_ambiguous:
  "joined_suite \<noteq> split_suite" "kem_suite_canonical joined_suite = kem_suite_canonical split_suite"
  by (simp_all add: joined_suite_def split_suite_def kem_suite_canonical_def)

subsection \<open>Properties\<close>

text \<open>C35: There is a key exactly when every gate passes: the manifest has the right format, all
  its signatures decode and one with a post-quantum algorithm is accepted by a verifier for
  its key and algorithm; its version meets the tenant's floor and the device's counter; where
  the floor demands post-quantum, no hybrid slot has lost that leg; an active hybrid slot
  gives the suite; the measurement, the device's hypervisor and the capsule satisfy the
  attestation policy; both legs decapsulate to live secrets; and the key is the expansion of
  both secrets, salted with the digest of the whole signed body, for the volume, device,
  policy, version, suite and measurement.\<close>

theorem unlock_exact:
  "snd (attested_hybrid_unlock X req vs fl counter ck pk cl pl kms chain) = Ok k \<longleftrightarrow>
     (let m = ur_manifest req; body = signing_bytes X m; slots = mk_keyslots (qm_key_hierarchy m);
          version = bp_minimum_boot_manifest_version (qm_boot_policy m); bm = ur_boot_measurement req in
      qm_format m = ''qrsd-v1''
    \<and> list_all (\<lambda>s. is_ok (env_hex_decode X (ms_signature_ref s))) (qm_signatures m)
    \<and> (\<exists>s. s \<in> set (qm_signatures m) \<and> is_pq_signature_alg (ms_algorithm s) \<and> signature_accepted X vs body s)
    \<and> vfl_tenant_min_manifest_version fl \<le> version \<and> counter \<le> version
    \<and> (if vfl_require_pqc_signature fl \<and> \<not> vfl_allow_classical_only fl
       then \<not> list_ex (\<lambda>s. slot_is_hybrid s \<and> slot_classical_only s) slots else True)
    \<and> bm_boot_policy_hash bm = kp_expected_boot_policy_hash kms
    \<and> pcr_satisfies (bm_pcrs bm) (kp_expected_pcrs kms)
    \<and> bm_capsule_manifest_hash bm \<in> set (kp_allowed_capsule_hashes kms)
    \<and> kp_min_hypervisor_version kms \<le> ur_hypervisor_version req
    \<and> (\<exists>suite s1 s2. select_suite slots = Some suite
         \<and> kem_decapsulate ck (leg_dk cl) (leg_ct cl) = Ok s1
         \<and> kem_decapsulate pk (leg_dk pl) (leg_ct pl) = Ok s2
         \<and> is_live s1 \<and> is_live s2
         \<and> env_hkdf X (ext_sha384 X body) (s1 @ s2)
             (COMBINER_LABEL @ context_to_bytes
                \<lparr>cx_volume_id = qm_volume_id m, cx_device_id = ur_device_id req,
                 cx_policy_id = bp_policy_id (qm_boot_policy m), cx_policy_version = version,
                 cx_algorithm_suite = suite, cx_boot_measurement = bm_boot_policy_hash bm\<rparr>) 32
           = Some (kek_bytes k)))"
proof -
  let ?m = "ur_manifest req"
  let ?slots = "mk_keyslots (qm_key_hierarchy ?m)"
  let ?gates = "\<lambda>v. vfl_tenant_min_manifest_version fl \<le> bp_minimum_boot_manifest_version (qm_boot_policy ?m)
      \<and> counter \<le> bp_minimum_boot_manifest_version (qm_boot_policy ?m)
      \<and> (if vfl_require_pqc_signature fl \<and> \<not> vfl_allow_classical_only fl
         then list_ex slot_is_hybrid ?slots \<and> \<not> list_ex (\<lambda>s. slot_is_hybrid s \<and> slot_classical_only s) ?slots
         else True)"
  have verify: "(\<exists>v. manifest_verify X ?m vs = Ok v \<and> P (vdm_manifest v)) \<longleftrightarrow>
      qm_format ?m = QRSD_FORMAT
      \<and> list_all (\<lambda>s. is_ok (env_hex_decode X (ms_signature_ref s))) (qm_signatures ?m)
      \<and> (\<exists>s. s \<in> set (qm_signatures ?m) \<and> is_pq_signature_alg (ms_algorithm s)
            \<and> signature_accepted X vs (signing_bytes X ?m) s) \<and> P ?m" for P
  proof -
    have "(\<exists>v. manifest_verify X ?m vs = Ok v \<and> P (vdm_manifest v)) \<longleftrightarrow>
        qm_format ?m = QRSD_FORMAT
        \<and> list_all (\<lambda>s. is_ok (env_hex_decode X (ms_signature_ref s))) (qm_signatures ?m)
        \<and> pq_purposes_of X vs (signing_bytes X ?m) (qm_signatures ?m) \<noteq> [] \<and> P ?m"
      unfolding manifest_verify_Ok_iff
      by (auto intro: exI [of _ "\<lparr>vdm_manifest = ?m,
        vdm_verified_purposes = pq_purposes_of X vs (signing_bytes X ?m) (qm_signatures ?m)\<rparr>"])
    then show ?thesis by (simp only: pq_purposes_nonempty)
  qed
  have req: "deny_reason_for kms (unlock_key_request req) = None \<longleftrightarrow>
      bm_boot_policy_hash (ur_boot_measurement req) = kp_expected_boot_policy_hash kms
      \<and> pcr_satisfies (bm_pcrs (ur_boot_measurement req)) (kp_expected_pcrs kms)
      \<and> bm_capsule_manifest_hash (ur_boot_measurement req) \<in> set (kp_allowed_capsule_hashes kms)
      \<and> kp_min_hypervisor_version kms \<le> ur_hypervisor_version req"
    by (simp add: deny_reason_None_iff unlock_key_request_def Let_def)
  have "snd (attested_hybrid_unlock X req vs fl counter ck pk cl pl kms chain) = Ok k \<longleftrightarrow>
      (\<exists>v. manifest_verify X ?m vs = Ok v \<and> (\<lambda>m'. ?gates m'
         \<and> (\<exists>suite. select_suite (mk_keyslots (qm_key_hierarchy m')) = Some suite
           \<and> deny_reason_for kms (unlock_key_request req) = None
           \<and> unlock_crypto X req suite ck pk cl pl = Ok k)) (vdm_manifest v))"
    unfolding unlock_Ok_iff downgrade_Ok_iff min_boot_manifest_version_def vdm_keyslots_def
    by (auto simp: manifest_verify_Ok_iff)
  also note verify
  finally show ?thesis
    using select_suite_Some [of ?slots]
    by (auto simp: Let_def QRSD_FORMAT_def req unlock_crypto_Ok_iff unlock_context_def KEK_LEN_def)
qed

text \<open>C37: The audit chain stays valid and tells the outcome. Every path appends key-release
  receipts for the volume, so that a chain that verified still does: one denial that names
  the gate for a manifest, downgrade or keyslot failure, one denial for a failed attestation,
  two allowances for a key. A failure of the cryptography after the attestation leaves the
  allowance alone and no denial.\<close>

theorem unlock_is_audited:
  assumes "chain_verify X chain = Ok ()"
    and "attested_hybrid_unlock X req vs fl counter ck pk cl pl kms chain = (chain', r)"
  shows "chain_verify X chain' = Ok ()
    \<and> (\<exists>new. ch_receipts chain' = ch_receipts chain @ new \<and> map rc_decision new = unlock_trail r
        \<and> list_all (\<lambda>e. rc_event e = ''key_release'' \<and> rc_subject e = qm_volume_id (ur_manifest req)) new)"
proof
  from assms(2) show "chain_verify X chain' = Ok ()"
    by (cases rule: unlock_cases) (simp_all add: record_unlock_deny_def chain_append_verifies assms(1))
  from assms(2) show "\<exists>new. ch_receipts chain' = ch_receipts chain @ new \<and> map rc_decision new = unlock_trail r
      \<and> list_all (\<lambda>e. rc_event e = ''key_release'' \<and> rc_subject e = qm_volume_id (ur_manifest req)) new"
    by (cases rule: unlock_cases)
       (auto simp: unlock_trail_def record_unlock_deny_def event_str_def chain_append_def Let_def)
qed

lemma unlock_is_audited_witness:
  "\<exists>chain' r. attested_hybrid_unlock sample_qrse_env (sample_unlock_request sample_disk_manifest) []
       (floor_strict 5) 6 (det_kem sample_qrse_env kem_x25519) (det_kem sample_qrse_env kem_ml_kem_768)
       \<lparr>leg_dk = [], leg_ct = []\<rparr> \<lparr>leg_dk = [], leg_ct = []\<rparr> sample_unlock_kms receipt_chain_new = (chain', r)
     \<and> chain_verify sample_qrse_env chain' = Ok ()
     \<and> map rc_decision (ch_receipts chain') = [''deny:manifest_verification'']"
proof -
  obtain chain' r where u: "attested_hybrid_unlock sample_qrse_env (sample_unlock_request sample_disk_manifest) []
      (floor_strict 5) 6 (det_kem sample_qrse_env kem_x25519) (det_kem sample_qrse_env kem_ml_kem_768)
      \<lparr>leg_dk = [], leg_ct = []\<rparr> \<lparr>leg_dk = [], leg_ct = []\<rparr> sample_unlock_kms receipt_chain_new = (chain', r)"
    by fastforce
  have "\<nexists>v. manifest_verify sample_qrse_env sample_disk_manifest [] = Ok v"
    by (auto simp: manifest_verify_Ok_iff sample_disk_manifest_def pq_purposes_of_def)
  then obtain e where "manifest_verify sample_qrse_env sample_disk_manifest [] = Err e"
    by (metis sum.exhaust)
  with u have "r = Err (UlManifestVerification e)"
    by (simp add: attested_hybrid_unlock_def Let_def sample_unlock_request_def)
  with unlock_is_audited [OF chain_new_verifies u] u show ?thesis
    by (auto simp: unlock_trail_def receipt_chain_new_def)
qed

text \<open>C36: A sealed volume unlocks. A manifest signed with a post-quantum key, whose version is
  accepted, that has an active hybrid slot and no stripped one, on a device that satisfies
  the attestation policy, opens with the decapsulation keys of the two pairs its legs were
  sealed to: the unlock gives exactly the key the two encapsulated secrets combine to, and
  fails only if the combination does. Of the libraries this needs that digests and codes
  have their sizes, that decoding inverts hex and that a code verifies against itself.\<close>

theorem sealed_volume_unlocks:
  assumes "qrse_laws X" "qm_format m = QRSD_FORMAT" "qm_signatures m = []"
    "is_pq_signature_alg (ds_algorithm s)"
    and "ur_manifest req = manifest_sign X m (det_signer X s) purpose"
    "version_accepted fl counter m" "select_suite (mk_keyslots (qm_key_hierarchy m)) = Some suite"
    "deny_reason_for kms (unlock_key_request req) = None"
  shows "snd (attested_hybrid_unlock X req [det_verifier X s] fl counter (det_kem X c) (det_kem X p)
        (sealed_leg (det_kem X c) seed1 r1) (sealed_leg (det_kem X p) seed2 r2) kms chain)
    = (case hybrid_combine X (sealed_secret (det_kem X c) seed1 r1) (sealed_secret (det_kem X p) seed2 r2)
              (signing_bytes X m) (unlock_context req suite) KEK_LEN of
         Inl e \<Rightarrow> Err (UlCrypto e) | Inr k \<Rightarrow> Ok k)"
  by (rule sealed_volume.sealed_unlocks [OF det_sealed_volume [OF assms(1)] _ assms(5,2,3) _ assms(6-8)])
     (use assms(1,4) in \<open>simp_all add: qrse_laws_def det_signer_def\<close>)

lemma sealed_volume_unlocks_witness:
  "\<exists>m s. snd (attested_hybrid_unlock sample_qrse_env
        (sample_unlock_request (manifest_sign sample_qrse_env m (det_signer sample_qrse_env s) ''disk''))
        [det_verifier sample_qrse_env s] (floor_strict 5) 6
        (det_kem sample_qrse_env kem_x25519) (det_kem sample_qrse_env kem_ml_kem_768)
        (sealed_leg (det_kem sample_qrse_env kem_x25519) [1] [2])
        (sealed_leg (det_kem sample_qrse_env kem_ml_kem_768) [3] [4]) sample_unlock_kms receipt_chain_new)
    = (case hybrid_combine sample_qrse_env (sealed_secret (det_kem sample_qrse_env kem_x25519) [1] [2])
          (sealed_secret (det_kem sample_qrse_env kem_ml_kem_768) [3] [4]) (as_bytes ''vol-1'')
          (unlock_context (sample_unlock_request m) kem_suite_768) 32 of
         Inl e \<Rightarrow> Err (UlCrypto e) | Inr k \<Rightarrow> Ok k)"
proof -
  let ?X = "sample_qrse_env" and ?m = sample_disk_manifest
  define s where "s = signer_ml_dsa_65 ?X ''k1'' [9]"
  let ?req = "sample_unlock_request (manifest_sign ?X ?m (det_signer ?X s) ''disk'')"
  have "is_pq_signature_alg ''ml-dsa-65''" by code_simp
  then have pq: "is_pq_signature_alg (ds_algorithm s)"
    by (simp add: s_def signer_ml_dsa_65_def det_signer_new_def)
  have trim: "str_trim ''ml-kem-768'' \<noteq> []" by code_simp
  have ok: "version_accepted (floor_strict 5) 6 ?m"
    "select_suite (mk_keyslots (qm_key_hierarchy ?m)) = Some kem_suite_768"
    using trim by (simp_all add: version_accepted_def floor_strict_def sample_disk_manifest_def select_suite_def
        slot_is_active_def slot_is_hybrid_def slot_classical_only_def slot_kem_suite_def kem_suite_768_def)
  have kms: "deny_reason_for sample_unlock_kms (unlock_key_request ?req) = None"
    by (simp add: deny_reason_None_iff unlock_key_request_def Let_def sample_unlock_request_def
        sample_unlock_kms_def pcr_satisfies_def bt_get_def)
  have fmt: "qm_format ?m = QRSD_FORMAT" "qm_signatures ?m = []"
    by (simp_all add: sample_disk_manifest_def QRSD_FORMAT_def)
  have ctx: "unlock_context ?req kem_suite_768 = unlock_context (sample_unlock_request ?m) kem_suite_768"
    "signing_bytes ?X ?m = as_bytes ''vol-1''" "KEK_LEN = 32"
    by (simp_all add: unlock_context_def sample_unlock_request_def Let_def manifest_sign_def KEK_LEN_def
        signing_bytes_def manifest_body.truncate_def sample_qrse_env_def sample_disk_manifest_def)
  have man: "ur_manifest ?req = manifest_sign ?X ?m (det_signer ?X s) ''disk''"
    by (simp add: sample_unlock_request_def)
  show ?thesis
    using sealed_volume_unlocks [OF sample_qrse_laws fmt pq man ok kms] unfolding ctx by blast
qed

text \<open>C38: A key is bound to its context. If two combinations, of whatever secrets and transcripts,
  give the same key, then volume, device, policy, policy version and boot measurement are the
  same and so is the canonical form of the suite; or the expansion collides on the two
  different info strings at hand. The encoding of the context loses nothing but what the form
  of the suite loses, as long as every string is shorter than 2 to the 64.\<close>

theorem key_binds_context:
  assumes "hybrid_combine X s1 s2 t c n = Ok k" "hybrid_combine X s1' s2' t' d n = Ok k"
    and "context_fits c" "context_fits d"
  shows "cx_volume_id c = cx_volume_id d \<and> cx_device_id c = cx_device_id d \<and> cx_policy_id c = cx_policy_id d
       \<and> cx_policy_version c = cx_policy_version d
       \<and> kem_suite_canonical (cx_algorithm_suite c) = kem_suite_canonical (cx_algorithm_suite d)
       \<and> cx_boot_measurement c = cx_boot_measurement d
     \<or> context_to_bytes c \<noteq> context_to_bytes d
       \<and> env_hkdf X (ext_sha384 X t) (s1 @ s2) (as_bytes ''storage-unlock-v1'' @ context_to_bytes c) n
           = env_hkdf X (ext_sha384 X t') (s1' @ s2') (as_bytes ''storage-unlock-v1'' @ context_to_bytes d) n"
  using assms(1,2) context_to_bytes_inject [OF assms(3,4)]
  by (simp add: hybrid_combine_Ok_iff COMBINER_LABEL_def)

text \<open>The key for one suite is the key for the other: the form is what is bound, not the suite.\<close>

lemma key_binds_context_witness:
  "\<exists>k. let c = \<lparr>cx_volume_id = ''v'', cx_device_id = ''d'', cx_policy_id = ''p'', cx_policy_version = 7,
                 cx_algorithm_suite = joined_suite, cx_boot_measurement = ''m''\<rparr>;
           d = c\<lparr>cx_algorithm_suite := split_suite\<rparr> in
     hybrid_combine sample_qrse_env [1] [2] [3] c 32 = Ok k \<and> hybrid_combine sample_qrse_env [1] [2] [3] d 32 = Ok k
     \<and> cx_algorithm_suite c \<noteq> cx_algorithm_suite d
     \<and> kem_suite_canonical (cx_algorithm_suite c) = kem_suite_canonical (cx_algorithm_suite d)"
proof -
  define c where "c = \<lparr>cx_volume_id = ''v'', cx_device_id = ''d'', cx_policy_id = ''p'', cx_policy_version = 7,
     cx_algorithm_suite = joined_suite, cx_boot_measurement = ''m''\<rparr>"
  define d where "d = c\<lparr>cx_algorithm_suite := split_suite\<rparr>"
  have bytes: "context_to_bytes d = context_to_bytes c"
    by (simp add: c_def d_def context_to_bytes_def suite_form_ambiguous(2))
  have fits: "context_fits c" "context_fits d"
    by (simp_all add: c_def d_def context_fits_def kem_suite_canonical_def joined_suite_def split_suite_def)
  obtain k where k: "hybrid_combine sample_qrse_env [1] [2] [3] c 32 = Ok k"
    "hybrid_combine sample_qrse_env [1] [2] [3] d 32 = Ok k"
    by (simp add: hybrid_combine_def is_live_def sample_qrse_env_def bytes)
  from key_binds_context [OF k fits] bytes k suite_form_ambiguous(1) show ?thesis
    unfolding c_def [symmetric] by (intro exI [of _ k]) (simp add: c_def d_def)
qed

end
