(* ===== verification/LegacyVm.thy ===== *)
theory LegacyVm
  imports Capsule
begin

text \<open>
  The older lifecycle of \<open>hyper-vm\<close>, \<open>model.rs\<close>: typed states that carry their own chain of
  unsigned receipts, from the definition of an untrusted capsule to its destruction. It uses
  the older halves of the capsule, policy and receipt crates.
\<close>

subsection \<open>States\<close>

datatype legacy_vm_state =
    LsDefined | LsVerified | LsPrepared | LsAwaitingKeyRelease | LsUnlocked | LsAttached | LsRunning
  | LsPaused | LsStopped | LsFailed | LsQuarantined | LsDestroyed

datatype legacy_vm_error =
    LvCapsuleVerificationFailed | LvPolicyDenied | LvInvalidState | LvReceiptChainRejected

record legacy_defined_vm =
  ldv_vm_id :: string
  ldv_capsule :: legacy_manifest
  ldv_receipts :: legacy_chain

text \<open>The structs from verified to running have the same fields.\<close>

record legacy_verified_vm =
  lvv_vm_id :: string
  lvv_capsule :: legacy_verified_manifest
  lvv_receipts :: legacy_chain

type_synonym legacy_prepared_vm = legacy_verified_vm
type_synonym legacy_unlocked_vm = legacy_verified_vm
type_synonym legacy_attached_vm = legacy_verified_vm
type_synonym legacy_running_vm = legacy_verified_vm

record legacy_stopped_vm =
  lsv_vm_id :: string
  lsv_receipts :: legacy_chain

subsection \<open>Operations\<close>

definition legacy_define :: "('x) extern_scheme \<Rightarrow> legacy_manifest \<Rightarrow> legacy_defined_vm" where
  "legacy_define X capsule =
     (let vm = lm_vm_id capsule;
          receipt = legacy_unsigned X (''vm-define:'' @ vm) ''vm_define'' (''vm:'' @ vm) RdObserve None
                      (lm_image_hash capsule) None
      in \<lparr>ldv_vm_id = vm, ldv_capsule = capsule, ldv_receipts = fst (legacy_push X [] receipt)\<rparr>)"

definition legacy_vm_verify ::
  "('x) extern_scheme \<Rightarrow> legacy_defined_vm \<Rightarrow> legacy_verification_request \<Rightarrow> legacy_vm_error + legacy_verified_vm" where
  "legacy_vm_verify X d req =
     (case legacy_capsule_verify X (ldv_capsule d)
             (req\<lparr>lvr_previous_receipt_hash := legacy_last_hash (ldv_receipts d)\<rparr>) of
        Inl e \<Rightarrow> Err LvCapsuleVerificationFailed
      | Inr verified \<Rightarrow>
          (case legacy_push X (ldv_receipts d) (lv_receipt verified) of
             (chain, pushed) \<Rightarrow>
               if \<not> pushed then Err LvReceiptChainRejected
               else Ok \<lparr>lvv_vm_id = ldv_vm_id d, lvv_capsule = verified, lvv_receipts = chain\<rparr>))"

definition legacy_prepare :: "('x) extern_scheme \<Rightarrow> legacy_verified_vm \<Rightarrow> legacy_vm_error + legacy_prepared_vm" where
  "legacy_prepare X v =
     (let receipt = legacy_unsigned X (''vm-prepare:'' @ lvv_vm_id v) ''vm_prepare'' (''vm:'' @ lvv_vm_id v)
            RdAllow None (lr_hash (lv_receipt (lvv_capsule v))) (legacy_last_hash (lvv_receipts v)) in
      case legacy_push X (lvv_receipts v) receipt of
        (chain, pushed) \<Rightarrow> if \<not> pushed then Err LvReceiptChainRejected else Ok (v\<lparr>lvv_receipts := chain\<rparr>))"

definition legacy_unlock :: "('x) extern_scheme \<Rightarrow> legacy_prepared_vm \<Rightarrow> legacy_vm_error + legacy_unlocked_vm" where
  "legacy_unlock X v =
     (let receipt = legacy_unsigned X (''vm-unlock:'' @ lvv_vm_id v) ''vm_key_release'' (''vm:'' @ lvv_vm_id v)
            RdAllow None (show_nat (unat (lsp_key_version (lm_storage (lv_inner (lvv_capsule v))))))
            (legacy_last_hash (lvv_receipts v)) in
      case legacy_push X (lvv_receipts v) receipt of
        (chain, pushed) \<Rightarrow> if \<not> pushed then Err LvReceiptChainRejected else Ok (v\<lparr>lvv_receipts := chain\<rparr>))"

definition legacy_attach :: "('x) extern_scheme \<Rightarrow> legacy_unlocked_vm \<Rightarrow> legacy_vm_error + legacy_attached_vm" where
  "legacy_attach X v =
     (let receipt = legacy_unsigned X (''vm-attach:'' @ lvv_vm_id v) ''vm_attach'' (''vm:'' @ lvv_vm_id v)
            RdAllow None (lm_disk_hash (lv_inner (lvv_capsule v))) (legacy_last_hash (lvv_receipts v)) in
      case legacy_push X (lvv_receipts v) receipt of
        (chain, pushed) \<Rightarrow> if \<not> pushed then Err LvReceiptChainRejected else Ok (v\<lparr>lvv_receipts := chain\<rparr>))"

definition legacy_run ::
  "('x) extern_scheme \<Rightarrow> legacy_attached_vm \<Rightarrow> vm_launch_policy \<Rightarrow> u64 \<Rightarrow> legacy_vm_error + legacy_running_vm" where
  "legacy_run X v policy hypervisor_version =
     (let req = \<lparr>llq_vm_id = lvv_vm_id v, llq_manifest_verified = True,
            llq_capsule_hash = lr_inputs_hash (lv_receipt (lvv_capsule v)),
            llq_hypervisor_version = hypervisor_version, llq_boot_measurements_present = False,
            llq_requests_device_passthrough = (cd_passthrough (lm_devices (lv_inner (lvv_capsule v))) \<noteq> []),
            llq_requests_debug_console = False,
            llq_previous_receipt_hash = legacy_last_hash (lvv_receipts v)\<rparr> in
      case legacy_evaluate_vm_launch X policy req of
        LegacyAllow receipt \<Rightarrow>
          (case legacy_push X (lvv_receipts v) receipt of
             (chain, pushed) \<Rightarrow> if \<not> pushed then Err LvReceiptChainRejected else Ok (v\<lparr>lvv_receipts := chain\<rparr>))
      | LegacyDeny reason \<Rightarrow> Err LvPolicyDenied
      | LegacyRequireApproval challenge \<Rightarrow> Err LvPolicyDenied)"

definition legacy_stop :: "('x) extern_scheme \<Rightarrow> legacy_running_vm \<Rightarrow> legacy_vm_error + legacy_stopped_vm" where
  "legacy_stop X v =
     (let receipt = legacy_unsigned X (''vm-stop:'' @ lvv_vm_id v) ''vm_stop'' (''vm:'' @ lvv_vm_id v)
            RdObserve None (lr_hash (lv_receipt (lvv_capsule v))) (legacy_last_hash (lvv_receipts v)) in
      case legacy_push X (lvv_receipts v) receipt of
        (chain, pushed) \<Rightarrow> if \<not> pushed then Err LvReceiptChainRejected
                           else Ok \<lparr>lsv_vm_id = lvv_vm_id v, lsv_receipts = chain\<rparr>)"

definition legacy_destroy :: "('x) extern_scheme \<Rightarrow> legacy_stopped_vm \<Rightarrow> legacy_vm_error + legacy_chain" where
  "legacy_destroy X t =
     (let receipt = legacy_unsigned X (''vm-destroy:'' @ lsv_vm_id t) ''vm_destroy'' (''vm:'' @ lsv_vm_id t)
            RdObserve None ''destroyed'' (legacy_last_hash (lsv_receipts t)) in
      case legacy_push X (lsv_receipts t) receipt of
        (chain, pushed) \<Rightarrow> if \<not> pushed then Err LvReceiptChainRejected else Ok chain)"

text \<open>A whole life of a machine, each step by \<open>?\<close>.\<close>

definition legacy_life ::
  "('x) extern_scheme \<Rightarrow> legacy_manifest \<Rightarrow> legacy_verification_request \<Rightarrow> vm_launch_policy \<Rightarrow> u64
     \<Rightarrow> legacy_vm_error + legacy_chain" where
  "legacy_life X m req policy hv =
     (case legacy_vm_verify X (legacy_define X m) req of Inl e \<Rightarrow> Err e | Inr v \<Rightarrow>
     (case legacy_prepare X v of Inl e \<Rightarrow> Err e | Inr p \<Rightarrow>
     (case legacy_unlock X p of Inl e \<Rightarrow> Err e | Inr u \<Rightarrow>
     (case legacy_attach X u of Inl e \<Rightarrow> Err e | Inr a \<Rightarrow>
     (case legacy_run X a policy hv of Inl e \<Rightarrow> Err e | Inr r \<Rightarrow>
     (case legacy_stop X r of Inl e \<Rightarrow> Err e | Inr t \<Rightarrow> legacy_destroy X t))))))"

subsection \<open>A fresh receipt is never rejected\<close>

lemma push_unsigned [simp]:
  "legacy_push X c (legacy_unsigned X rid ev subj dec pol inp (legacy_last_hash c)) =
     (c @ [legacy_unsigned X rid ev subj dec pol inp (legacy_last_hash c)], True)"
  by (simp add: legacy_push_def legacy_unsigned_def legacy_verify_hash_def Let_def legacy_compute_hash_def
      legacy_encoding_def)

lemma event_unsigned [simp]: "lr_event (legacy_unsigned X rid ev subj dec pol inp prev) = ev"
  by (simp add: legacy_unsigned_def Let_def)

lemma unsigned_snoc_verifies:
  "legacy_verify X c \<Longrightarrow> legacy_verify X (c @ [legacy_unsigned X rid ev subj dec pol inp (legacy_last_hash c)])"
  using legacy_push_verifies [of X c "legacy_unsigned X rid ev subj dec pol inp (legacy_last_hash c)"]
  by simp

lemma define_eq:
  "ldv_vm_id (legacy_define X m) = lm_vm_id m" "ldv_capsule (legacy_define X m) = m"
  "ldv_receipts (legacy_define X m) = [legacy_unsigned X (''vm-define:'' @ lm_vm_id m) ''vm_define'' (''vm:'' @ lm_vm_id m)
     RdObserve None (lm_image_hash m) None]"
  using push_unsigned [of X "[]"] by (simp_all add: legacy_define_def Let_def legacy_last_hash_def)

lemma define_verifies: "legacy_verify X (ldv_receipts (legacy_define X m))"
proof -
  have nil: "legacy_verify X []" and last: "legacy_last_hash [] = None"
    by (simp_all add: legacy_verify_def legacy_last_hash_def)
  show ?thesis using unsigned_snoc_verifies [OF nil] unfolding define_eq last append_Nil by blast
qed

lemma verify_outcome:
  "legacy_vm_verify X d req =
     (if is_ok (legacy_capsule_verify X (ldv_capsule d) req)
      then Ok \<lparr>lvv_vm_id = ldv_vm_id d,
        lvv_capsule = \<lparr>lv_inner = ldv_capsule d, lv_receipt = legacy_unsigned X (''capsule-verify:'' @ lm_capsule_id (ldv_capsule d))
          ''manifest_verify'' (''vm:'' @ lm_vm_id (ldv_capsule d)) RdAllow None (lvr_computed_capsule_hash req)
          (legacy_last_hash (ldv_receipts d))\<rparr>,
        lvv_receipts = ldv_receipts d @ [legacy_unsigned X (''capsule-verify:'' @ lm_capsule_id (ldv_capsule d))
          ''manifest_verify'' (''vm:'' @ lm_vm_id (ldv_capsule d)) RdAllow None (lvr_computed_capsule_hash req)
          (legacy_last_hash (ldv_receipts d))]\<rparr>
      else Err LvCapsuleVerificationFailed)"
  by (simp add: legacy_vm_verify_def legacy_capsule_verify_def Let_def)

text \<open>The operations that only append a receipt.\<close>

definition extends :: "('x) extern_scheme \<Rightarrow> string \<Rightarrow> legacy_verified_vm \<Rightarrow> legacy_verified_vm \<Rightarrow> bool" where
  "extends X ev v w \<longleftrightarrow> lvv_vm_id w = lvv_vm_id v \<and> lvv_capsule w = lvv_capsule v
     \<and> map lr_event (lvv_receipts w) = map lr_event (lvv_receipts v) @ [ev]
     \<and> (legacy_verify X (lvv_receipts v) \<longrightarrow> legacy_verify X (lvv_receipts w))"

lemma append_steps:
  "\<exists>w. legacy_prepare X v = Ok w \<and> extends X ''vm_prepare'' v w"
  "\<exists>w. legacy_unlock X v = Ok w \<and> extends X ''vm_key_release'' v w"
  "\<exists>w. legacy_attach X v = Ok w \<and> extends X ''vm_attach'' v w"
  by (simp_all add: legacy_prepare_def legacy_unlock_def legacy_attach_def Let_def extends_def unsigned_snoc_verifies)

definition legacy_policy_admits :: "vm_launch_policy \<Rightarrow> legacy_manifest \<Rightarrow> u64 \<Rightarrow> bool" where
  "legacy_policy_admits p m hv \<longleftrightarrow> vlp_minimum_hypervisor_version p \<le> hv \<and> \<not> vlp_require_measured_boot p
     \<and> (cd_passthrough (lm_devices m) = [] \<or> vlp_allow_device_passthrough p)"

lemma run_outcome:
  "if legacy_policy_admits p (lv_inner (lvv_capsule v)) hv
   then \<exists>w. legacy_run X v p hv = Ok w \<and> extends X ''vm_launch_policy'' v w
   else legacy_run X v p hv = Err LvPolicyDenied"
  by (auto simp: legacy_run_def legacy_evaluate_vm_launch_def legacy_policy_admits_def Let_def extends_def
      unsigned_snoc_verifies not_less split: if_splits)

lemma end_steps:
  "\<exists>c. (case legacy_stop X v of Inl e \<Rightarrow> Err e | Inr t \<Rightarrow> legacy_destroy X t) = Ok c
     \<and> map lr_event c = map lr_event (lvv_receipts v) @ [''vm_stop'', ''vm_destroy'']
     \<and> (legacy_verify X (lvv_receipts v) \<longrightarrow> legacy_verify X c)"
  by (simp add: legacy_stop_def legacy_destroy_def Let_def)
     (blast intro: unsigned_snoc_verifies [OF unsigned_snoc_verifies, simplified])

definition legacy_life_events :: "string list" where
  "legacy_life_events = [''vm_define'', ''manifest_verify'', ''vm_prepare'', ''vm_key_release'', ''vm_attach'',
     ''vm_launch_policy'', ''vm_stop'', ''vm_destroy'']"

lemma life_outcome:
  "if is_ok (legacy_capsule_verify X m req)
   then if legacy_policy_admits p m hv
        then \<exists>c. legacy_life X m req p hv = Ok c \<and> legacy_verify X c \<and> map lr_event c = legacy_life_events
        else legacy_life X m req p hv = Err LvPolicyDenied
   else legacy_life X m req p hv = Err LvCapsuleVerificationFailed"
proof (cases "is_ok (legacy_capsule_verify X m req)")
  case True
  then obtain v where v: "legacy_vm_verify X (legacy_define X m) req = Ok v" "lv_inner (lvv_capsule v) = m"
      "legacy_verify X (lvv_receipts v)" "map lr_event (lvv_receipts v) = [''vm_define'', ''manifest_verify'']"
    using unsigned_snoc_verifies [OF define_verifies [of X m]]
    by (simp add: verify_outcome define_eq(1,2)) (simp add: define_eq)
  obtain w1 where w1: "legacy_prepare X v = Ok w1" "extends X ''vm_prepare'' v w1" using append_steps(1) by blast
  obtain w2 where w2: "legacy_unlock X w1 = Ok w2" "extends X ''vm_key_release'' w1 w2" using append_steps(2) by blast
  obtain w3 where w3: "legacy_attach X w2 = Ok w3" "extends X ''vm_attach'' w2 w3" using append_steps(3) by blast
  have m: "lv_inner (lvv_capsule w3) = m" using v w1 w2 w3 by (simp add: extends_def)
  show ?thesis
  proof (cases "legacy_policy_admits p m hv")
    case ok: True
    then obtain w4 where w4: "legacy_run X w3 p hv = Ok w4" "extends X ''vm_launch_policy'' w3 w4"
      using run_outcome [of p w3 hv X] m by auto
    obtain c where c: "(case legacy_stop X w4 of Inl e \<Rightarrow> Err e | Inr t \<Rightarrow> legacy_destroy X t) = Ok c"
      "map lr_event c = map lr_event (lvv_receipts w4) @ [''vm_stop'', ''vm_destroy'']"
      "legacy_verify X (lvv_receipts w4) \<longrightarrow> legacy_verify X c"
      using end_steps by blast
    show ?thesis using True ok v w1 w2 w3 w4 c by (auto simp: legacy_life_def extends_def legacy_life_events_def)
  next
    case False
    then show ?thesis using True v w1 w2 w3 run_outcome [of p w3 hv X] m by (auto simp: legacy_life_def)
  qed
qed (simp add: legacy_life_def verify_outcome define_eq)

subsection \<open>Properties\<close>

text \<open>C34: The older lifecycle, from definition to destruction, never ends with a rejected receipt
  or an invalid state: it completes exactly when the older capsule check accepts and the
  launch policy asks for no measured boot, for no newer hypervisor and forbids no requested
  passthrough; its chain then verifies and holds the eight events in order. The launch
  request says that there are no boot measurements, so no machine runs under a policy that
  requires them, as the secure default does.\<close>

theorem legacy_life_exact:
  "(case legacy_life X m req policy hv of
      Inr chain \<Rightarrow> legacy_verify X chain \<and> map lr_event chain =
        [''vm_define'', ''manifest_verify'', ''vm_prepare'', ''vm_key_release'', ''vm_attach'',
         ''vm_launch_policy'', ''vm_stop'', ''vm_destroy'']
    | Inl e \<Rightarrow> e = LvCapsuleVerificationFailed \<or> e = LvPolicyDenied)
   \<and> (is_ok (legacy_life X m req policy hv) \<longleftrightarrow>
        is_ok (legacy_capsule_verify X m req)
        \<and> vlp_minimum_hypervisor_version policy \<le> hv \<and> vlp_require_measured_boot policy = False
        \<and> (cd_passthrough (lm_devices m) = [] \<or> vlp_allow_device_passthrough policy))
   \<and> is_ok (legacy_life X m req secure_default hv) = False"
  using life_outcome [of X m req policy hv] life_outcome [of X m req secure_default hv]
  by (auto simp: legacy_policy_admits_def legacy_life_events_def secure_default_def split: if_splits)

end
