(* ===== verification/Storage.thy ===== *)
theory Storage
  imports Unlock
begin

text \<open>
  The storage side of the encryption, \<open>hyper-storage\<close>: the LUKS2 profile, suite selection,
  the flat summary of a key hierarchy, and the provisioning of an unsigned manifest. A
  provisioned volume, once signed, goes through the unlock of \<open>Unlock\<close>.
\<close>

subsection \<open>Attestation policy and LUKS2 profile\<close>

record attestation_policy =
  ap_required_pcrs :: "u8 list"
  ap_minimum_boot_policy_version :: u64
  ap_require_secure_boot :: bool

definition LAB_POLICY :: attestation_policy where
  "LAB_POLICY = \<lparr>ap_required_pcrs = [0, 7, 11], ap_minimum_boot_policy_version = 1, ap_require_secure_boot = False\<rparr>"

record luks2_profile =
  lk_cipher :: string
  lk_key_size_bits :: u16
  lk_pbkdf :: string

definition AES_256_XTS_ARGON2ID :: luks2_profile where
  "AES_256_XTS_ARGON2ID = \<lparr>lk_cipher = ''aes-xts-plain64'', lk_key_size_bits = 512, lk_pbkdf = ''argon2id''\<rparr>"

definition DEFAULT_SECTOR_SIZE :: u32 where "DEFAULT_SECTOR_SIZE = 4096"

record argon2id_params =
  ar_memory_kib :: u32
  ar_time_cost :: u32
  ar_parallelism :: u32

definition DEFAULT_ARGON2ID_PARAMS :: argon2id_params where
  "DEFAULT_ARGON2ID_PARAMS = \<lparr>ar_memory_kib = 1048576, ar_time_cost = 3, ar_parallelism = 4\<rparr>"

datatype luks_error = NotArgon2id string

definition data_plane_with_sector :: "luks2_profile \<Rightarrow> u32 \<Rightarrow> data_plane" where
  "data_plane_with_sector p sector_size =
     \<lparr>dp_cipher = ''AES-256-XTS'', dp_xts_raw_key_bits = ucast (lk_key_size_bits p), dp_sector_size = sector_size,
      dp_integrity = \<lparr>ig_mode = ''none'', ig_alternatives = [''dm-integrity'']\<rparr>\<rparr>"

definition profile_data_plane :: "luks2_profile \<Rightarrow> data_plane" where
  "profile_data_plane p = data_plane_with_sector p DEFAULT_SECTOR_SIZE"

definition argon2id_keyslot :: "luks2_profile \<Rightarrow> u32 \<Rightarrow> argon2id_params \<Rightarrow> string \<Rightarrow> luks_error + keyslot" where
  "argon2id_keyslot p slot params key_ref =
     (if \<not> eq_ignore_ascii_case (lk_pbkdf p) ''argon2id'' then Err (NotArgon2id (lk_pbkdf p))
      else Ok (keyslot_new slot KsActive (Argon2idPassphrase
        \<lparr>akdf_algorithm = ''argon2id'', akdf_memory_kib = ar_memory_kib params,
         akdf_time_cost = ar_time_cost params, akdf_parallelism = ar_parallelism params\<rparr>
        \<lparr>wrap_algorithm = ''aes-256-gcm'', wrapped_key_ref = key_ref\<rparr>)))"

subsection \<open>Suites\<close>

record hybrid_kem_suite =
  hk_classical :: string
  hk_pqc :: string
  hk_combiner :: string

definition DEFAULT_TRANSITION_SUITE :: hybrid_kem_suite where
  "DEFAULT_TRANSITION_SUITE = \<lparr>hk_classical = ''x25519'', hk_pqc = ''ml-kem-768'', hk_combiner = ''hkdf-sha384''\<rparr>"
definition HIGH_ASSURANCE_SUITE :: hybrid_kem_suite where
  "HIGH_ASSURANCE_SUITE = \<lparr>hk_classical = ''x25519'', hk_pqc = ''ml-kem-1024'', hk_combiner = ''hkdf-sha384''\<rparr>"

definition to_kem_suite :: "hybrid_kem_suite \<Rightarrow> kem_suite" where
  "to_kem_suite s = \<lparr>ks_classical = hk_classical s, ks_pqc = hk_pqc s, ks_combiner = hk_combiner s\<rparr>"

definition hybrid_suite_canonical :: "hybrid_kem_suite \<Rightarrow> string" where
  "hybrid_suite_canonical s = hk_classical s @ ''+'' @ hk_pqc s @ ''+'' @ hk_combiner s"

lemma to_kem_suite_agrees:
  "to_kem_suite DEFAULT_TRANSITION_SUITE = kem_suite_768" "to_kem_suite HIGH_ASSURANCE_SUITE = kem_suite_1024"
  "kem_suite_canonical (to_kem_suite s) = hybrid_suite_canonical s"
  by (simp_all add: to_kem_suite_def DEFAULT_TRANSITION_SUITE_def HIGH_ASSURANCE_SUITE_def kem_suite_768_def
      kem_suite_1024_def kem_suite_canonical_def hybrid_suite_canonical_def)

text \<open>The placeholder of the key service prints the default suite in its \<open>Debug\<close> format.\<close>

definition debug_hybrid_suite :: "hybrid_kem_suite \<Rightarrow> string" where
  "debug_hybrid_suite s = ''HybridKemSuite { classical: '' @ debug_str (hk_classical s) @ '', pqc: ''
     @ debug_str (hk_pqc s) @ '', combiner: '' @ debug_str (hk_combiner s) @ '' }''"

definition kms_prototype_main :: "string list" where
  "kms_prototype_main = [''hyper-slate KMS prototype placeholder'',
     ''default transition suite: '' @ debug_hybrid_suite DEFAULT_TRANSITION_SUITE]"

definition legacy_combiner_context :: "string \<Rightarrow> string \<Rightarrow> u64 \<Rightarrow> string" where
  "legacy_combiner_context volume_id device_id policy_version =
     ''chainnew-hyper-slate:v1:'' @ volume_id @ '':'' @ device_id @ '':'' @ show_u64 policy_version"

definition build_combiner_context ::
  "string \<Rightarrow> string \<Rightarrow> string \<Rightarrow> u64 \<Rightarrow> hybrid_kem_suite \<Rightarrow> string \<Rightarrow> combiner_context" where
  "build_combiner_context volume_id device_id policy_id policy_version suite boot_measurement =
     \<lparr>cx_volume_id = volume_id, cx_device_id = device_id, cx_policy_id = policy_id,
      cx_policy_version = policy_version, cx_algorithm_suite = to_kem_suite suite,
      cx_boot_measurement = boot_measurement\<rparr>"

subsection \<open>The flat summary\<close>

record flat_keyslot =
  fk_id :: u32
  fk_kind :: string
  fk_status :: string

record storage_key_hierarchy =
  sk_volume_id :: string
  sk_dek_version :: u64
  sk_vmk_version :: u64
  sk_keyslots :: "flat_keyslot list"

definition keyslot_status_label :: "keyslot_status \<Rightarrow> string" where
  "keyslot_status_label st = (case st of KsActive \<Rightarrow> ''active''
     | KsDisabledUntilBreakGlass \<Rightarrow> ''disabled_until_break_glass'' | KsRetired \<Rightarrow> ''retired'')"

definition keyslot_kind_label :: "keyslot_kind \<Rightarrow> string" where
  "keyslot_kind_label k = (case k of Argon2idPassphrase kd w \<Rightarrow> ''argon2id_passphrase''
     | Tpm2Sealed pcrs pin pol \<Rightarrow> ''tpm2_sealed'' | HybridRemoteKms ks a \<Rightarrow> ''hybrid_remote_kms''
     | ThresholdRecovery scheme m n \<Rightarrow> ''threshold_recovery'')"

definition flatten_keyslot :: "keyslot \<Rightarrow> flat_keyslot" where
  "flatten_keyslot k = \<lparr>fk_id = kl_slot k, fk_kind = keyslot_kind_label (kl_kind k),
     fk_status = keyslot_status_label (kl_status k)\<rparr>"

definition from_manifest :: "string \<Rightarrow> manifest_key_hierarchy \<Rightarrow> storage_key_hierarchy" where
  "from_manifest volume_id mh = \<lparr>sk_volume_id = volume_id, sk_dek_version = mk_active_dek_version mh,
     sk_vmk_version = mk_volume_master_key_version mh, sk_keyslots = map flatten_keyslot (mk_keyslots mh)\<rparr>"

definition to_manifest :: "storage_key_hierarchy \<Rightarrow> keyslot list \<Rightarrow> manifest_key_hierarchy" where
  "to_manifest s keyslots = \<lparr>mk_volume_master_key_version = sk_vmk_version s,
     mk_active_dek_version = sk_dek_version s, mk_keyslots = keyslots\<rparr>"

definition wrapping_chain_for :: "keyslot \<Rightarrow> key_class list" where
  "wrapping_chain_for slot = wrapping_chain slot"

lemma to_from_manifest: "to_manifest (from_manifest v mh) (mk_keyslots mh) = mh"
  by (simp add: to_manifest_def from_manifest_def)

subsection \<open>Provisioning\<close>

record volume_provisioning =
  pv_volume_id :: string
  pv_created_at :: string
  pv_profile :: luks2_profile
  pv_suite :: kem_suite
  pv_attestation :: attestation_policy
  pv_boot_policy_id :: string
  pv_measurement_policy_ref :: string
  pv_accepted_tee :: "string list"
  pv_argon2id :: argon2id_params
  pv_wrapped_key_ref :: string
  pv_vmk_version :: u64
  pv_dek_version :: u64
  pv_min_boot_manifest_version :: u64
  pv_audit :: manifest_audit

definition provisioning_new :: "string \<Rightarrow> string \<Rightarrow> luks2_profile \<Rightarrow> kem_suite \<Rightarrow> volume_provisioning" where
  "provisioning_new volume_id created_at profile suite =
     \<lparr>pv_volume_id = volume_id, pv_created_at = created_at, pv_profile = profile, pv_suite = suite,
      pv_attestation = LAB_POLICY, pv_boot_policy_id = ''pol-boot-v1'',
      pv_measurement_policy_ref = ''pol-meas-v1'', pv_accepted_tee = [''amd-sev-snp''],
      pv_argon2id = DEFAULT_ARGON2ID_PARAMS, pv_wrapped_key_ref = ''blob:slot0'', pv_vmk_version = 1,
      pv_dek_version = 1, pv_min_boot_manifest_version = 1,
      pv_audit = \<lparr>au_last_rotation = [], au_last_attested_unlock_receipt = [], au_log_chain = []\<rparr>\<rparr>"

definition provisioning_boot_policy :: "volume_provisioning \<Rightarrow> boot_policy" where
  "provisioning_boot_policy p =
     \<lparr>bp_policy_id = pv_boot_policy_id p, bp_secure_boot_required = ap_require_secure_boot (pv_attestation p),
      bp_measured_boot_required = True,
      bp_pcr_profile = map (\<lambda>i. ''pcr'' @ show_nat (unat i)) (ap_required_pcrs (pv_attestation p)),
      bp_minimum_boot_manifest_version = pv_min_boot_manifest_version p,
      bp_rollback_protection = \<lparr>rbp_type = ''tpm-nv-counter'', rbp_counter_name = ''qrsd.rollback''\<rparr>\<rparr>"

definition hybrid_keyslot :: "volume_provisioning \<Rightarrow> u32 \<Rightarrow> keyslot" where
  "hybrid_keyslot p slot = keyslot_new slot KsActive (HybridRemoteKms (pv_suite p)
     \<lparr>kat_required = True, kat_accepted_tee = pv_accepted_tee p,
      kat_measurement_policy_ref = pv_measurement_policy_ref p\<rparr>)"

definition provisioning_manifest :: "volume_provisioning \<Rightarrow> luks_error + qrsd_manifest" where
  "provisioning_manifest p =
     (case argon2id_keyslot (pv_profile p) 0 (pv_argon2id p) (pv_wrapped_key_ref p) of
        Inl e \<Rightarrow> Err e
      | Inr argon \<Rightarrow>
          (let keyslots = [argon, hybrid_keyslot p 1] in
           Ok \<lparr>qm_format = QRSD_FORMAT, qm_volume_id = pv_volume_id p, qm_created_at = pv_created_at p,
               qm_data_plane = profile_data_plane (pv_profile p),
               qm_boot_policy = provisioning_boot_policy p,
               qm_key_hierarchy = \<lparr>mk_volume_master_key_version = pv_vmk_version p,
                 mk_active_dek_version = pv_dek_version p, mk_keyslots = keyslots\<rparr>,
               qm_audit = pv_audit p, qm_signatures = []\<rparr>))"

subsection \<open>What is provisioned unlocks\<close>

lemma provisioned_manifest:
  assumes "provisioning_manifest p = Ok m"
  shows "qm_format m = QRSD_FORMAT" "qm_signatures m = []" "qm_volume_id m = pv_volume_id p"
    "bp_minimum_boot_manifest_version (qm_boot_policy m) = pv_min_boot_manifest_version p"
    "list_ex (\<lambda>s. slot_is_hybrid s \<and> slot_classical_only s) (mk_keyslots (qm_key_hierarchy m))
       \<longleftrightarrow> str_trim (ks_pqc (pv_suite p)) = []"
    "select_suite (mk_keyslots (qm_key_hierarchy m)) =
       (if str_trim (ks_pqc (pv_suite p)) = [] then None else Some (pv_suite p))"
  using assms
  by (auto simp: provisioning_manifest_def argon2id_keyslot_def Let_def provisioning_boot_policy_def
      hybrid_keyslot_def keyslot_new_def slot_is_hybrid_def slot_classical_only_def select_suite_def
      slot_is_active_def slot_kem_suite_def split: if_splits)

lemma provisioning_ok_iff: "is_ok (provisioning_manifest p) \<longleftrightarrow> eq_ignore_ascii_case (lk_pbkdf (pv_profile p)) ''argon2id''"
  by (simp add: provisioning_manifest_def argon2id_keyslot_def Let_def)

subsection \<open>Properties\<close>

text \<open>C39: What is provisioned can be unlocked. A plan with an Argon2id profile, and no other, gives
  a manifest; signed with a post-quantum key, at a version that the floor and the device's
  counter accept, on a device that satisfies the attestation policy, it unlocks to the key
  that the secrets of its two legs combine to under the planned suite. If the suite of the
  plan has a blank post-quantum name, it never unlocks: the downgrade check or the search
  for a hybrid slot refuses it.\<close>

theorem provisioned_volume_unlocks:
  assumes "qrse_laws X" "provisioning_manifest p = Ok m" "is_pq_signature_alg (ds_algorithm s)"
    and "ur_manifest req = manifest_sign X m (det_signer X s) purpose"
    and "vfl_tenant_min_manifest_version fl \<le> pv_min_boot_manifest_version p"
      "counter \<le> pv_min_boot_manifest_version p"
    and "deny_reason_for kms (unlock_key_request req) = None"
  shows "eq_ignore_ascii_case (lk_pbkdf (pv_profile p)) ''argon2id''
    \<and> (let r = snd (attested_hybrid_unlock X req [det_verifier X s] fl counter (det_kem X c) (det_kem X q)
          (sealed_leg (det_kem X c) seed1 r1) (sealed_leg (det_kem X q) seed2 r2) kms chain) in
       if str_trim (ks_pqc (pv_suite p)) = []
       then r = Err UlNoHybridKeyslot \<or> (\<exists>d. r = Err (UlDowngrade d))
       else r = (case hybrid_combine X (sealed_secret (det_kem X c) seed1 r1) (sealed_secret (det_kem X q) seed2 r2)
                   (signing_bytes X m) (unlock_context req (pv_suite p)) 32 of
              Inl e \<Rightarrow> Err (UlCrypto e) | Inr k \<Rightarrow> Ok k))"
proof -
  note vol = det_sealed_volume [OF assms(1), of s c q] and man = provisioned_manifest [OF assms(2)]
  have hex: "env_hex_decode X (ext_hex X b) = Ok b" for b using assms(1) by (simp add: qrse_laws_def)
  have alg: "is_pq_signature_alg (sgn_algorithm (det_signer X s))" using assms(3) by (simp add: det_signer_def)
  let ?u = "attested_hybrid_unlock X req [det_verifier X s] fl counter (det_kem X c) (det_kem X q)
      (sealed_leg (det_kem X c) seed1 r1) (sealed_leg (det_kem X q) seed2 r2) kms chain"
  have "eq_ignore_ascii_case (lk_pbkdf (pv_profile p)) ''argon2id''"
    using assms(2) provisioning_ok_iff [of p] by simp
  moreover have "snd ?u = Err UlNoHybridKeyslot \<or> (\<exists>d. snd ?u = Err (UlDowngrade d))"
    if blank: "str_trim (ks_pqc (pv_suite p)) = []"
  proof -
    obtain w where w: "manifest_verify X (ur_manifest req) [det_verifier X s] = Ok w" "vdm_manifest w = ur_manifest req"
      using signing_contract.signed_verifies [OF det_signing_contract [OF assms(1)] hex man(1,2) alg] assms(4) by metis
    then have none: "select_suite (vdm_keyslots w) = None"
      using man(6) blank assms(4) by (simp add: vdm_keyslots_def)
    obtain chain' r where u: "?u = (chain', r)" by fastforce
    show ?thesis
      by (rule unlock_cases [OF u])
         (use w none u in \<open>auto simp: attested_hybrid_unlock_def Let_def split: if_splits\<close>)
  qed
  moreover have "snd ?u = (case hybrid_combine X (sealed_secret (det_kem X c) seed1 r1) (sealed_secret (det_kem X q) seed2 r2)
        (signing_bytes X m) (unlock_context req (pv_suite p)) KEK_LEN of Inl e \<Rightarrow> Err (UlCrypto e) | Inr k \<Rightarrow> Ok k)"
    if "str_trim (ks_pqc (pv_suite p)) \<noteq> []"
    by (rule sealed_volume.sealed_unlocks [OF vol hex assms(4) man(1,2) alg _ _ assms(7)])
       (use that man(4-6) assms(5,6) in \<open>simp_all add: version_accepted_def\<close>)
  ultimately show ?thesis by (simp add: KEK_LEN_def)
qed

lemma provisioned_volume_unlocks_witness:
  "\<exists>m s req. provisioning_manifest (provisioning_new ''vol-1'' [] AES_256_XTS_ARGON2ID kem_suite_768) = Ok m
     \<and> snd (attested_hybrid_unlock sample_qrse_env req [det_verifier sample_qrse_env s] (floor_strict 1) 0
          (det_kem sample_qrse_env kem_x25519) (det_kem sample_qrse_env kem_ml_kem_768)
          (sealed_leg (det_kem sample_qrse_env kem_x25519) [1] [2])
          (sealed_leg (det_kem sample_qrse_env kem_ml_kem_768) [3] [4]) sample_unlock_kms receipt_chain_new)
      = (case hybrid_combine sample_qrse_env (sealed_secret (det_kem sample_qrse_env kem_x25519) [1] [2])
            (sealed_secret (det_kem sample_qrse_env kem_ml_kem_768) [3] [4]) (signing_bytes sample_qrse_env m)
            (unlock_context req kem_suite_768) 32 of Inl e \<Rightarrow> Err (UlCrypto e) | Inr k \<Rightarrow> Ok k)"
proof -
  let ?X = "sample_qrse_env"
  define p where "p = provisioning_new ''vol-1'' [] AES_256_XTS_ARGON2ID kem_suite_768"
  have "eq_ignore_ascii_case ''argon2id'' ''argon2id''" by (simp add: eq_ignore_ascii_case_def)
  then obtain m where m: "provisioning_manifest p = Ok m"
    using provisioning_ok_iff [of p] by (auto simp: p_def provisioning_new_def AES_256_XTS_ARGON2ID_def is_ok_iff)
  define s where "s = signer_ml_dsa_65 ?X ''k1'' [9]"
  let ?req = "sample_unlock_request (manifest_sign ?X m (det_signer ?X s) ''disk'')"
  have "is_pq_signature_alg ''ml-dsa-65''" by code_simp
  then have pq: "is_pq_signature_alg (ds_algorithm s)"
    by (simp add: s_def signer_ml_dsa_65_def det_signer_new_def)
  have trim: "str_trim ''ml-kem-768'' \<noteq> []" by code_simp
  have suite: "pv_suite p = kem_suite_768" "ks_pqc kem_suite_768 = ''ml-kem-768''"
    by (simp_all add: p_def provisioning_new_def kem_suite_768_def)
  have floor: "vfl_tenant_min_manifest_version (floor_strict 1) \<le> pv_min_boot_manifest_version p"
    "0 \<le> pv_min_boot_manifest_version p"
    by (simp_all add: p_def provisioning_new_def floor_strict_def)
  have kms: "deny_reason_for sample_unlock_kms (unlock_key_request ?req) = None"
    by (simp add: deny_reason_None_iff unlock_key_request_def Let_def sample_unlock_request_def
        sample_unlock_kms_def pcr_satisfies_def bt_get_def)
  have man: "ur_manifest ?req = manifest_sign ?X m (det_signer ?X s) ''disk''"
    by (simp add: sample_unlock_request_def)
  from provisioned_volume_unlocks [OF sample_qrse_laws m pq man floor kms] trim suite
  have "snd (attested_hybrid_unlock ?X ?req [det_verifier ?X s] (floor_strict 1) 0
          (det_kem ?X kem_x25519) (det_kem ?X kem_ml_kem_768)
          (sealed_leg (det_kem ?X kem_x25519) [1] [2])
          (sealed_leg (det_kem ?X kem_ml_kem_768) [3] [4]) sample_unlock_kms receipt_chain_new)
      = (case hybrid_combine ?X (sealed_secret (det_kem ?X kem_x25519) [1] [2])
            (sealed_secret (det_kem ?X kem_ml_kem_768) [3] [4]) (signing_bytes ?X m)
            (unlock_context ?req kem_suite_768) 32 of Inl e \<Rightarrow> Err (UlCrypto e) | Inr k \<Rightarrow> Ok k)"
    unfolding Let_def by presburger
  with m show ?thesis unfolding p_def by blast
qed

end
