(* ===== verification/Cli.thy ===== *)
theory Cli
  imports Control Unlock
begin

text \<open>
  The command line tools \<open>hyperctl\<close> and \<open>qrsectl\<close> after argument parsing: one definition per
  subcommand, on the text of the files they read, to what they print and the exit code. JSON
  values are a datatype; its printer and the file system are parameters.
\<close>

subsection \<open>\<open>hyperctl\<close>\<close>

datatype hyperctl_command =
    HcSlateDoctor
  | HcVmDefine string
  | HcVmVerify string
  | HcVmLaunch string
  | HcVmPause string
  | HcVmSnapshot string string
  | HcVmStop string
  | HcVmDestroy string bool
  | HcPolicyInspect
  | HcReceiptsVerify "string option"

text \<open>\<open>map_err(|e| e.to_string())\<close> on the result of a command.\<close>

definition control_text :: "control \<times> (control_error + string) \<Rightarrow> string + string" where
  "control_text q = (case snd q of Inl e \<Rightarrow> Err (control_error_text e) | Inr s \<Rightarrow> Ok s)"

type_synonym file_reader = "string \<Rightarrow> string + string"

definition hyperctl_run ::
  "('x) control_env_scheme \<Rightarrow> file_reader \<Rightarrow> hyperctl_command \<Rightarrow> string + string" where
  "hyperctl_run X read_file cmd =
     (let control = control_new_local in
      case cmd of
        HcSlateDoctor \<Rightarrow> Ok (slate_doctor X control)
      | HcVmDefine file \<Rightarrow>
          (case read_file file of
             Inl e \<Rightarrow> Err (''cannot read '' @ file @ '': '' @ e)
           | Inr json \<Rightarrow> control_text (vm_define X control json))
      | HcVmVerify vm \<Rightarrow> control_text (vm_verify X control vm)
      | HcVmLaunch vm \<Rightarrow> control_text (vm_launch X control vm)
      | HcVmPause vm \<Rightarrow> control_text (vm_pause X control vm)
      | HcVmSnapshot vm name \<Rightarrow> control_text (vm_snapshot X control vm name)
      | HcVmStop vm \<Rightarrow> control_text (vm_stop X control vm)
      | HcVmDestroy vm wipe \<Rightarrow> control_text (vm_destroy X control vm wipe)
      | HcPolicyInspect \<Rightarrow> Ok (policy_inspect X control)
      | HcReceiptsVerify vm \<Rightarrow>
          (case receipts_verify X control vm of Inl e \<Rightarrow> Err (control_error_text e) | Inr s \<Rightarrow> Ok s))"

text \<open>Standard output, standard error and exit code.\<close>

definition hyperctl_main :: "string + string \<Rightarrow> string \<times> string \<times> int" where
  "hyperctl_main r = (case r of Inr out \<Rightarrow> (out, [], 0) | Inl e \<Rightarrow> ([], ''hyperctl: '' @ e, 1))"

subsection \<open>JSON values and error texts\<close>

datatype json =
    JBool bool
  | JNum nat
  | JStr string
  | JArr "json list"
  | JObj "(string \<times> json) list"

definition crypto_error_text :: "crypto_error \<Rightarrow> string" where
  "crypto_error_text e = (case e of
       EmptySharedSecret \<Rightarrow> ''empty or zero shared secret''
     | Decapsulation \<Rightarrow> ''decapsulation failed: malformed ciphertext''
     | BadKeyLength expected got \<Rightarrow> ''key material has wrong length: expected '' @ show_nat expected
         @ '', got '' @ show_nat got
     | HkdfFailed \<Rightarrow> ''hkdf expand failed''
     | UnsupportedAlgorithm a \<Rightarrow> ''algorithm `'' @ a @ ''` is not supported'')"

definition manifest_error_text :: "manifest_error \<Rightarrow> string" where
  "manifest_error_text e = (case e of
       ManJson m \<Rightarrow> ''json error: '' @ m
     | ManBadFormat expected found \<Rightarrow> ''wrong manifest format: expected '' @ expected @ '', found '' @ found
     | ManNoValidSignature \<Rightarrow> ''no valid signature over the manifest body''
     | ManInsufficientPostQuantum \<Rightarrow> ''manifest is only classically signed (transition): a post-quantum (ml-dsa/slh-dsa) signature is required''
     | ManBadSignatureEncoding key_id detail \<Rightarrow> ''signature '' @ key_id @ '' has a malformed signature_ref: '' @ detail)"

subsection \<open>\<open>qrsectl\<close>\<close>

record cli_error =
  ce_code :: int
  ce_message :: string

definition cli_usage :: "string \<Rightarrow> cli_error" where
  "cli_usage m = \<lparr>ce_code = 1, ce_message = m\<rparr>"

text \<open>\<open>split_once('=')\<close>.\<close>

definition split_once :: "char \<Rightarrow> string \<Rightarrow> (string \<times> string) option" where
  "split_once c s = (case dropWhile (\<lambda>x. x \<noteq> c) s of
     [] \<Rightarrow> None | _ # rest \<Rightarrow> Some (takeWhile (\<lambda>x. x \<noteq> c) s, rest))"

fun parse_trust :: "string list \<Rightarrow> cli_error + (string \<times> string) list" where
  "parse_trust [] = Ok []"
| "parse_trust (e # es) =
     (case split_once (CHR ''='') e of
        None \<Rightarrow> Err (cli_usage (''malformed --trust `'' @ e @ ''` (expected key_id=seed)''))
      | Some kv \<Rightarrow> (case parse_trust es of Inl x \<Rightarrow> Err x | Inr kvs \<Rightarrow> Ok (kv # kvs)))"

definition build_verifiers ::
  "('x) qrse_env_scheme \<Rightarrow> qrsd_manifest \<Rightarrow> (string \<times> string) list \<Rightarrow> verifier list" where
  "build_verifiers X m trust = concat (map (\<lambda>s.
     (case find (\<lambda>(k, v). k = ms_key_id s) trust of
        Some (k, seed) \<Rightarrow> [det_verifier X (det_signer_new X (ms_algorithm s) (ms_key_id s) (as_bytes seed) 1)]
      | None \<Rightarrow> [])) (qm_signatures m))"

definition read_manifest ::
  "('x) qrse_env_scheme \<Rightarrow> file_reader \<Rightarrow> string \<Rightarrow> cli_error + qrsd_manifest" where
  "read_manifest X read_file file =
     (case read_file file of
        Inl e \<Rightarrow> Err (cli_usage (''cannot read '' @ file @ '': '' @ e))
      | Inr json \<Rightarrow>
          (case manifest_from_json X json of
             Inl e \<Rightarrow> Err (cli_usage (''cannot parse '' @ file @ '': '' @ manifest_error_text e))
           | Inr m \<Rightarrow> Ok m))"

definition status_str :: "keyslot_status \<Rightarrow> string" where
  "status_str st = (case st of KsActive \<Rightarrow> ''active''
     | KsDisabledUntilBreakGlass \<Rightarrow> ''disabled_until_break_glass'' | KsRetired \<Rightarrow> ''retired'')"

definition kind_str :: "keyslot_kind \<Rightarrow> string" where
  "kind_str k = (case k of Argon2idPassphrase kd w \<Rightarrow> ''argon2id_passphrase''
     | Tpm2Sealed pcrs pin pol \<Rightarrow> ''tpm2_sealed'' | HybridRemoteKms ks a \<Rightarrow> ''hybrid_remote_kms''
     | ThresholdRecovery scheme m n \<Rightarrow> ''threshold_recovery'')"

definition keyslot_summary :: "keyslot \<Rightarrow> json" where
  "keyslot_summary slot = JObj
     ([(''slot'', JNum (unat (kl_slot slot))), (''status'', JStr (status_str (kl_status slot))),
       (''kind'', JStr (kind_str (kl_kind slot))), (''is_hybrid'', JBool (slot_is_hybrid slot)),
       (''classical_only'', JBool (slot_classical_only slot))]
      @ (case slot_kem_suite slot of Some s \<Rightarrow> [(''kem_suite'', JStr (kem_suite_canonical s))] | None \<Rightarrow> []))"

text \<open>The tool repeats two helpers of the libraries; they agree with them.\<close>

definition to_hex :: "byte list \<Rightarrow> string" where
  "to_hex bytes = fold (\<lambda>b s. (s @ [HEX_LUT ! unat (drop_bit 4 b)]) @ [HEX_LUT ! unat (b AND 0x0F)]) bytes []"

lemma to_hex_eq: "to_hex bytes = hex bytes"
proof -
  have "fold (\<lambda>b s. (s @ [HEX_LUT ! unat (drop_bit 4 b)]) @ [HEX_LUT ! unat (b AND 0x0F)]) bytes s = s @ hex bytes" for s
    by (induction bytes arbitrary: s) (simp_all add: hex_def hex_byte_def)
  then show ?thesis by (simp add: to_hex_def)
qed

definition cli_is_pq :: "string \<Rightarrow> bool" where
  "cli_is_pq alg = (let a = to_ascii_lowercase alg in starts_with a ''ml-dsa'' \<or> starts_with a ''slh-dsa'')"

lemma cli_is_pq_eq: "cli_is_pq = is_pq_signature_alg"
  by (simp add: fun_eq_iff cli_is_pq_def is_pq_signature_alg_def)

definition cli_manifest_verify ::
  "('x) qrse_env_scheme \<Rightarrow> (json \<Rightarrow> string) \<Rightarrow> file_reader \<Rightarrow> string \<Rightarrow> string list \<Rightarrow> cli_error + string" where
  "cli_manifest_verify X pretty read_file file trust_args =
     (case read_manifest X read_file file of Inl e \<Rightarrow> Err e | Inr m \<Rightarrow>
     (case parse_trust trust_args of Inl e \<Rightarrow> Err e | Inr trust \<Rightarrow>
     (let signatures = JArr (map (\<lambda>s. JObj
            [(''purpose'', JStr (ms_purpose s)), (''algorithm'', JStr (ms_algorithm s)),
             (''key_id'', JStr (ms_key_id s)), (''post_quantum'', JBool (cli_is_pq (ms_algorithm s))),
             (''have_trust'', JBool (list_ex (\<lambda>(k, v). k = ms_key_id s) trust))]) (qm_signatures m)) in
      case manifest_verify X m (build_verifiers X m trust) of
        Inr v \<Rightarrow> Ok (pretty (JObj
          [(''result'', JStr ''pq_verified''), (''volume_id'', JStr (qm_volume_id m)),
           (''verified_purposes'', JArr (map JStr (vdm_verified_purposes v))),
           (''min_boot_manifest_version'', JNum (unat (min_boot_manifest_version v))),
           (''signatures'', signatures)]))
      | Inl ManInsufficientPostQuantum \<Rightarrow> Err \<lparr>ce_code = 2, ce_message = pretty (JObj
          [(''result'', JStr ''transition_classical_only''), (''denied'', JBool True),
           (''reason'', JStr ''manifest is only classically signed; a post-quantum (ml-dsa/slh-dsa) signature is required''),
           (''volume_id'', JStr (qm_volume_id m)), (''signatures'', signatures)])\<rparr>
      | Inl e \<Rightarrow> Err \<lparr>ce_code = 2, ce_message = pretty (JObj
          [(''result'', JStr ''denied''), (''denied'', JBool True), (''reason'', JStr (manifest_error_text e)),
           (''volume_id'', JStr (qm_volume_id m)), (''signatures'', signatures)])\<rparr>)))"

definition cli_manifest_inspect ::
  "('x) qrse_env_scheme \<Rightarrow> (json \<Rightarrow> string) \<Rightarrow> file_reader \<Rightarrow> string \<Rightarrow> cli_error + string" where
  "cli_manifest_inspect X pretty read_file file =
     (case read_manifest X read_file file of Inl e \<Rightarrow> Err e | Inr m \<Rightarrow>
     (let keyslots = JArr (map keyslot_summary (mk_keyslots (qm_key_hierarchy m)));
          signatures = JArr (map (\<lambda>s. JObj
            [(''purpose'', JStr (ms_purpose s)), (''algorithm'', JStr (ms_algorithm s)),
             (''key_id'', JStr (ms_key_id s)), (''post_quantum'', JBool (cli_is_pq (ms_algorithm s)))])
            (qm_signatures m));
          any_pq = list_ex (\<lambda>s. cli_is_pq (ms_algorithm s)) (qm_signatures m);
          d = qm_data_plane m; b = qm_boot_policy m; h = qm_key_hierarchy m in
      Ok (pretty (JObj
        [(''format'', JStr (qm_format m)), (''volume_id'', JStr (qm_volume_id m)),
         (''created_at'', JStr (qm_created_at m)),
         (''data_plane'', JObj [(''cipher'', JStr (dp_cipher d)),
            (''xts_raw_key_bits'', JNum (unat (dp_xts_raw_key_bits d))),
            (''sector_size'', JNum (unat (dp_sector_size d))),
            (''integrity_mode'', JStr (ig_mode (dp_integrity d)))]),
         (''boot_policy'', JObj [(''policy_id'', JStr (bp_policy_id b)),
            (''secure_boot_required'', JBool (bp_secure_boot_required b)),
            (''measured_boot_required'', JBool (bp_measured_boot_required b)),
            (''pcr_profile'', JArr (map JStr (bp_pcr_profile b))),
            (''minimum_boot_manifest_version'', JNum (unat (bp_minimum_boot_manifest_version b)))]),
         (''key_hierarchy'', JObj [(''volume_master_key_version'', JNum (unat (mk_volume_master_key_version h))),
            (''active_dek_version'', JNum (unat (mk_active_dek_version h))), (''keyslots'', keyslots)]),
         (''signatures'', signatures), (''carries_pq_signature'', JBool any_pq)]))))"

definition demo_context :: combiner_context where
  "demo_context = \<lparr>cx_volume_id = ''urn:uuid:vol-demo'', cx_device_id = ''pn52-lab-001'',
     cx_policy_id = ''policy-prod'', cx_policy_version = 42, cx_algorithm_suite = kem_suite_768,
     cx_boot_measurement = ''sha384:bootmeas-demo''\<rparr>"

definition cli_combiner_demo ::
  "('x) qrse_env_scheme \<Rightarrow> (json \<Rightarrow> string) \<Rightarrow> cli_error + string" where
  "cli_combiner_demo X pretty =
     (let classical = det_kem X kem_x25519; pqc = det_kem X kem_ml_kem_768;
          (ek_c, dk_c) = kem_generate_keypair classical (as_bytes ''qrsectl-demo-classical'');
          (ct_c, ss_classical) = kem_encapsulate classical ek_c (as_bytes ''qrsectl-demo-enc'');
          (ek_p, dk_p) = kem_generate_keypair pqc (as_bytes ''qrsectl-demo-pqc'');
          (ct_p, ss_pqc) = kem_encapsulate pqc ek_p (as_bytes ''qrsectl-demo-enc'');
          base_ctx = demo_context;
          transcript = context_to_bytes base_ctx in
      case hybrid_combine X ss_classical ss_pqc transcript base_ctx 32 of
        Inl e \<Rightarrow> Err (cli_usage (''combine failed: '' @ crypto_error_text e))
      | Inr k \<Rightarrow>
     (let bumped_ctx = base_ctx\<lparr>cx_policy_version := 43\<rparr>;
          bumped_transcript = context_to_bytes bumped_ctx in
      case hybrid_combine X ss_classical ss_pqc bumped_transcript bumped_ctx 32 of
        Inl e \<Rightarrow> Err (cli_usage (''combine failed: '' @ crypto_error_text e))
      | Inr kek_bumped \<Rightarrow>
          Ok (pretty (JObj
            [(''combiner'', JStr (ks_combiner kem_suite_768)), (''kdf'', JStr ''hkdf-sha384''),
             (''classical_leg'', JStr (kem_algorithm classical)), (''pqc_leg'', JStr (kem_algorithm pqc)),
             (''suite'', JStr (kem_suite_canonical (cx_algorithm_suite base_ctx))),
             (''kek_len_bytes'', JNum (length (kek_bytes k))),
             (''kek_policy_v42'', JStr (to_hex (kek_bytes k))),
             (''kek_policy_v43'', JStr (to_hex (kek_bytes kek_bumped))),
             (''bound_to_context'', JBool (k \<noteq> kek_bumped)),
             (''note'', JStr ''changing policy_version (or any context field) yields a different KEK'')]))))"

definition verdict_json :: "downgrade_verdict \<Rightarrow> json" where
  "verdict_json v = (case v of
       VerdictOk \<Rightarrow> JObj [(''verdict'', JStr ''ok'')]
     | RejectedStaleVersion found fl \<Rightarrow> JObj [(''verdict'', JStr ''rejected_stale_version''),
         (''found'', JNum (unat found)), (''floor'', JNum (unat fl))]
     | RejectedClassicalOnly \<Rightarrow> JObj [(''verdict'', JStr ''rejected_classical_only'')]
     | RejectedSuiteDowngrade from_suite to_suite \<Rightarrow> JObj [(''verdict'', JStr ''rejected_suite_downgrade''),
         (''from'', JStr from_suite), (''to'', JStr to_suite)])"

definition cli_downgrade_check ::
  "('x) qrse_env_scheme \<Rightarrow> (json \<Rightarrow> string) \<Rightarrow> file_reader \<Rightarrow> string \<Rightarrow> u64 \<Rightarrow> u64 \<Rightarrow> bool \<Rightarrow> string list
     \<Rightarrow> cli_error + string" where
  "cli_downgrade_check X pretty read_file file fl counter allow_classical_only trust_args =
     (case read_manifest X read_file file of Inl e \<Rightarrow> Err e | Inr m \<Rightarrow>
     (case parse_trust trust_args of Inl e \<Rightarrow> Err e | Inr trust \<Rightarrow>
     (case manifest_verify X m (build_verifiers X m trust) of
        Inl e \<Rightarrow> Err \<lparr>ce_code = 2, ce_message = pretty (JObj
          [(''result'', JStr ''verify_denied''), (''denied'', JBool True),
           (''reason'', JStr (manifest_error_text e))])\<rparr>
      | Inr verified \<Rightarrow>
     (let floor_policy = \<lparr>vfl_tenant_min_manifest_version = fl, vfl_require_pqc_signature = True,
            vfl_allow_classical_only = allow_classical_only\<rparr>;
          verdict = downgrade_check verified floor_policy counter;
          out = pretty (JObj
            [(''volume_id'', JStr (qm_volume_id m)), (''tenant_floor'', JNum (unat fl)),
             (''monotonic_counter'', JNum (unat counter)),
             (''allow_classical_only'', JBool allow_classical_only),
             (''ok'', JBool (verdict_is_ok verdict)), (''result'', verdict_json verdict)]) in
      if verdict_is_ok verdict then Ok out else Err \<lparr>ce_code = 3, ce_message = out\<rparr>))))"

definition cli_suites :: "(json \<Rightarrow> string) \<Rightarrow> cli_error + string" where
  "cli_suites pretty = Ok (pretty (JObj [(''suites'', JArr (map (\<lambda>(name, s). JObj
     [(''profile'', JStr name), (''classical'', JStr (ks_classical s)), (''pqc'', JStr (ks_pqc s)),
      (''combiner'', JStr (ks_combiner s)), (''canonical'', JStr (kem_suite_canonical s))])
     [(''transition_768'', kem_suite_768), (''high_assurance_1024'', kem_suite_1024)]))]))"

datatype qrsectl_command =
    QcManifestVerify string "string list"
  | QcManifestInspect string
  | QcCombinerDemo
  | QcDowngradeCheck string u64 u64 bool "string list"
  | QcSuites

definition qrsectl_run ::
  "('x) qrse_env_scheme \<Rightarrow> (json \<Rightarrow> string) \<Rightarrow> file_reader \<Rightarrow> qrsectl_command \<Rightarrow> cli_error + string" where
  "qrsectl_run X pretty read_file cmd = (case cmd of
       QcManifestVerify file trust \<Rightarrow> cli_manifest_verify X pretty read_file file trust
     | QcManifestInspect file \<Rightarrow> cli_manifest_inspect X pretty read_file file
     | QcCombinerDemo \<Rightarrow> cli_combiner_demo X pretty
     | QcDowngradeCheck file fl counter allow trust \<Rightarrow>
         cli_downgrade_check X pretty read_file file fl counter allow trust
     | QcSuites \<Rightarrow> cli_suites pretty)"

definition qrsectl_main :: "cli_error + string \<Rightarrow> string \<times> string \<times> int" where
  "qrsectl_main r = (case r of Inr out \<Rightarrow> (out, [], 0) | Inl e \<Rightarrow> ([], ce_message e, ce_code e))"

definition exit_code :: "string \<times> string \<times> int \<Rightarrow> int" where
  "exit_code out = snd (snd out)"

subsection \<open>What the exit codes say\<close>

text \<open>The trust entries are read left to right, and the first for a key counts.\<close>

lemma find_by_key: "find (\<lambda>(k, v). k = key) kvs = map_option (\<lambda>v. (key, v)) (map_of kvs key)"
  by (induction kvs) auto

definition trusted_signature ::
  "('x) qrse_env_scheme \<Rightarrow> (string \<Rightarrow> string option) \<Rightarrow> byte list \<Rightarrow> manifest_signature \<Rightarrow> bool" where
  "trusted_signature X trust body s \<longleftrightarrow>
     (case (trust (ms_key_id s), env_hex_decode X (ms_signature_ref s)) of
        (Some seed, Inr bytes) \<Rightarrow>
          det_verify X (ms_algorithm s) (ms_key_id s)
            (kdf X ''qrse:sig:sk'' [as_bytes (ms_algorithm s), as_bytes (ms_key_id s), as_bytes seed]) body
            \<lparr>sig_algorithm = ms_algorithm s, sig_key_id = ms_key_id s, sig_bytes = bytes\<rparr>
      | _ \<Rightarrow> False)"

definition seed_verifier :: "('x) qrse_env_scheme \<Rightarrow> manifest_signature \<Rightarrow> string \<Rightarrow> verifier" where
  "seed_verifier X s seed = det_verifier X (det_signer_new X (ms_algorithm s) (ms_key_id s) (as_bytes seed) 1)"

lemma seed_verifier_sel [simp]:
  "vf_key_id (seed_verifier X s seed) = ms_key_id s"
  "vf_algorithm (seed_verifier X s seed) = ms_algorithm s"
  "vf_verify (seed_verifier X s seed) = det_verify X (ms_algorithm s) (ms_key_id s)
     (kdf X ''qrse:sig:sk'' [as_bytes (ms_algorithm s), as_bytes (ms_key_id s), as_bytes seed])"
  by (simp_all add: seed_verifier_def det_verifier_def det_signer_new_def)

lemma build_verifiers_eq:
  "build_verifiers X m kvs = concat (map (\<lambda>s.
     (case map_of kvs (ms_key_id s) of Some seed \<Rightarrow> [seed_verifier X s seed] | None \<Rightarrow> [])) (qm_signatures m))"
  unfolding build_verifiers_def find_by_key seed_verifier_def
  by (intro arg_cong [where f = concat] map_cong refl) (simp split: option.split)

lemma set_build_verifiers:
  "set (build_verifiers X m kvs) =
     {seed_verifier X s seed | s seed. s \<in> set (qm_signatures m) \<and> map_of kvs (ms_key_id s) = Some seed}"
proof -
  have "set (case q of Some seed \<Rightarrow> [f seed] | None \<Rightarrow> []) = f ` set_option q" for f :: "string \<Rightarrow> verifier" and q
    by (cases q) auto
  then show ?thesis by (auto simp: build_verifiers_eq)
qed

lemma signature_accepted_build:
  assumes "s \<in> set (qm_signatures m)"
  shows "signature_accepted X (build_verifiers X m kvs) body s \<longleftrightarrow> trusted_signature X (map_of kvs) body s"
  using assms
  by (fastforce simp: signature_accepted_def set_build_verifiers trusted_signature_def split: option.splits sum.splits)

text \<open>What a run has read, and whether a trusted post-quantum key signed it.\<close>

definition cli_inputs ::
  "('x) qrse_env_scheme \<Rightarrow> file_reader \<Rightarrow> string \<Rightarrow> string list \<Rightarrow> (qrsd_manifest \<times> (string \<Rightarrow> string option)) option" where
  "cli_inputs X read_file file trust_args =
     (case read_file file of Inl e \<Rightarrow> None | Inr text \<Rightarrow>
     (case env_manifest_parse X text of Inl e \<Rightarrow> None | Inr m \<Rightarrow>
       if list_all (\<lambda>e. CHR ''='' \<in> set e) trust_args
       then Some (m, map_of (map (\<lambda>e. (takeWhile (\<lambda>c. c \<noteq> CHR ''='') e, tl (dropWhile (\<lambda>c. c \<noteq> CHR ''='') e))) trust_args))
       else None))"

definition trusted_post_quantum ::
  "('x) qrse_env_scheme \<Rightarrow> qrsd_manifest \<Rightarrow> (string \<Rightarrow> string option) \<Rightarrow> bool" where
  "trusted_post_quantum X m trust \<longleftrightarrow>
     qm_format m = ''qrsd-v1''
     \<and> list_all (\<lambda>s. is_ok (env_hex_decode X (ms_signature_ref s))) (qm_signatures m)
     \<and> list_ex (\<lambda>s. is_pq_signature_alg (ms_algorithm s) \<and> trusted_signature X trust (signing_bytes X m) s)
         (qm_signatures m)"

definition up_to_date :: "qrsd_manifest \<Rightarrow> u64 \<Rightarrow> u64 \<Rightarrow> bool \<Rightarrow> bool" where
  "up_to_date m fl counter allow_classical_only \<longleftrightarrow>
     (let version = bp_minimum_boot_manifest_version (qm_boot_policy m); slots = mk_keyslots (qm_key_hierarchy m) in
      fl \<le> version \<and> counter \<le> version
      \<and> (allow_classical_only \<or> list_ex slot_is_hybrid slots
           \<and> \<not> list_ex (\<lambda>s. slot_is_hybrid s \<and> slot_classical_only s) slots))"

lemma split_once_eq:
  "split_once c e = (if c \<in> set e then Some (takeWhile (\<lambda>x. x \<noteq> c) e, tl (dropWhile (\<lambda>x. x \<noteq> c) e)) else None)"
proof (cases "c \<in> set e")
  case True
  then have "dropWhile (\<lambda>x. x \<noteq> c) e \<noteq> []" by (simp only: dropWhile_eq_Nil_conv) blast
  with True show ?thesis by (cases "dropWhile (\<lambda>x. x \<noteq> c) e") (simp_all only: split_once_def list.case list.sel if_True simp_thms)
next
  case False
  then have "dropWhile (\<lambda>x. x \<noteq> c) e = []" by (simp only: dropWhile_eq_Nil_conv) blast
  with False show ?thesis by (simp only: split_once_def list.case if_False)
qed

lemma parse_trust_Ok:
  "list_all (\<lambda>e. CHR ''='' \<in> set e) es \<Longrightarrow>
     parse_trust es = Ok (map (\<lambda>e. (takeWhile (\<lambda>c. c \<noteq> CHR ''='') e, tl (dropWhile (\<lambda>c. c \<noteq> CHR ''='') e))) es)"
  by (induction es) (simp_all add: split_once_eq)

lemma parse_trust_OkD: "parse_trust es = Ok kvs \<Longrightarrow> list_all (\<lambda>e. CHR ''='' \<in> set e) es"
  by (induction es arbitrary: kvs) (auto simp: split_once_eq split: sum.splits if_splits)

lemma parse_trust_code: "parse_trust es = Err e \<Longrightarrow> ce_code e = 1"
  by (induction es) (auto simp: cli_usage_def split: sum.splits option.splits)

lemma read_manifest_cases:
  obtains (bad) e where "read_manifest X rf path = Err e" "ce_code e = 1" "cli_inputs X rf path args = None"
  | (args) m e where "read_manifest X rf path = Ok m" "parse_trust args = Err e" "ce_code e = 1"
      "cli_inputs X rf path args = None"
  | (ok) m kvs where "read_manifest X rf path = Ok m" "parse_trust args = Ok kvs"
      "cli_inputs X rf path args = Some (m, map_of kvs)"
proof (cases "read_manifest X rf path")
  case (Inl e)
  then show thesis
    by (intro bad) (auto simp: read_manifest_def manifest_from_json_def cli_usage_def cli_inputs_def split: sum.splits)
next
  case m: (Inr m)
  then obtain doc where "rf path = Ok doc" "env_manifest_parse X doc = Ok m"
    by (auto simp: read_manifest_def manifest_from_json_def split: sum.splits)
  note inputs = this
  show thesis
  proof (cases "parse_trust args")
    case (Inl e)
    then have "\<not> list_all (\<lambda>e. CHR ''='' \<in> set e) args"
      using parse_trust_Ok [of args] by auto
    with args [OF m Inl parse_trust_code [OF Inl]] show thesis by (simp add: inputs cli_inputs_def)
  next
    case (Inr kvs)
    from parse_trust_OkD [OF this] parse_trust_Ok [of args] ok [OF m this] Inr show thesis
      by (simp add: inputs cli_inputs_def)
  qed
qed

lemma manifest_verify_trusted:
  "(\<exists>v. manifest_verify X m (build_verifiers X m kvs) = Ok v) \<longleftrightarrow> trusted_post_quantum X m (map_of kvs)"
proof -
  have "(\<exists>v. manifest_verify X m (build_verifiers X m kvs) = Ok v) \<longleftrightarrow>
      qm_format m = QRSD_FORMAT \<and> list_all (\<lambda>s. is_ok (env_hex_decode X (ms_signature_ref s))) (qm_signatures m)
      \<and> pq_purposes_of X (build_verifiers X m kvs) (signing_bytes X m) (qm_signatures m) \<noteq> []"
    unfolding manifest_verify_Ok_iff
    by (auto intro: exI [of _ "\<lparr>vdm_manifest = m, vdm_verified_purposes =
      pq_purposes_of X (build_verifiers X m kvs) (signing_bytes X m) (qm_signatures m)\<rparr>"])
  then show ?thesis
    by (auto simp: pq_purposes_nonempty trusted_post_quantum_def QRSD_FORMAT_def list_ex_iff signature_accepted_build)
qed

lemma verify_exit:
  "exit_code (qrsectl_main (cli_manifest_verify X pretty rf path args)) =
     (case cli_inputs X rf path args of None \<Rightarrow> 1
      | Some (m, trust) \<Rightarrow> if trusted_post_quantum X m trust then 0 else 2)"
proof (cases rule: read_manifest_cases [of X rf path args])
  case (ok m kvs)
  then show ?thesis
    using manifest_verify_trusted [of X m kvs]
    by (auto simp: cli_manifest_verify_def Let_def qrsectl_main_def exit_code_def split: sum.splits manifest_error.splits)
qed (simp_all add: cli_manifest_verify_def qrsectl_main_def exit_code_def)

lemma downgrade_exit:
  "exit_code (qrsectl_main (cli_downgrade_check X pretty rf path fl counter allow args)) =
     (case cli_inputs X rf path args of None \<Rightarrow> 1
      | Some (m, trust) \<Rightarrow> if \<not> trusted_post_quantum X m trust then 2
          else if up_to_date m fl counter allow then 0 else 3)"
proof (cases rule: read_manifest_cases [of X rf path args])
  case (ok m kvs)
  show ?thesis
  proof (cases "manifest_verify X m (build_verifiers X m kvs)")
    case (Inl e)
    with ok manifest_verify_trusted [of X m kvs] show ?thesis
      by (auto simp: cli_downgrade_check_def qrsectl_main_def exit_code_def)
  next
    case (Inr v)
    then have v: "vdm_manifest v = m" by (simp add: manifest_verify_Ok_iff)
    from Inr ok manifest_verify_trusted [of X m kvs] show ?thesis
      by (auto simp: cli_downgrade_check_def qrsectl_main_def exit_code_def Let_def downgrade_Ok_iff up_to_date_def
          min_boot_manifest_version_def vdm_keyslots_def v)
  qed
qed (simp_all add: cli_downgrade_check_def qrsectl_main_def exit_code_def)

subsection \<open>Properties\<close>

text \<open>C40: The exit codes of the two gates of \<open>qrsectl\<close> fail closed. Both exit with 1 when the path
  cannot be read or parsed or a trust argument has no equals sign. Otherwise verification
  exits with 0 exactly when the manifest has the right format, all its signatures decode and
  one with a post-quantum algorithm checks under the key derived from the first trust entry
  for its key id, and with 2 if not; the downgrade check exits with 2 in the same cases, then
  with 0 exactly when the version is neither below the tenant's floor nor below the device's
  counter and, unless classical-only is allowed, there is a hybrid slot and none has lost its
  post-quantum leg, and with 3 if not.\<close>

theorem qrsectl_gates_exact:
  "exit_code (qrsectl_main (qrsectl_run X pretty rf (QcManifestVerify path args))) =
     (case cli_inputs X rf path args of None \<Rightarrow> 1
      | Some (m, trust) \<Rightarrow> if trusted_post_quantum X m trust then 0 else 2)
   \<and> exit_code (qrsectl_main (qrsectl_run X pretty rf (QcDowngradeCheck path fl counter allow args))) =
     (case cli_inputs X rf path args of None \<Rightarrow> 1
      | Some (m, trust) \<Rightarrow> if \<not> trusted_post_quantum X m trust then 2
          else if up_to_date m fl counter allow then 0 else 3)"
  by (simp add: qrsectl_run_def verify_exit downgrade_exit)

text \<open>Each run of \<open>hyperctl\<close> has a control plane of its own, so no command that names a machine can
  find it: verifying, launching, pausing, snapshotting, stopping or destroying one exits with 1
  and says that the machine is unknown, and the receipts of a run are those of an empty chain.\<close>

theorem hyperctl_is_stateless:
  "hyperctl_main (hyperctl_run X rf (HcVmVerify vm)) = ([], ''hyperctl: unknown vm id: '' @ vm, 1)"
  "hyperctl_main (hyperctl_run X rf (HcVmLaunch vm)) = ([], ''hyperctl: unknown vm id: '' @ vm, 1)"
  "hyperctl_main (hyperctl_run X rf (HcVmPause vm)) = ([], ''hyperctl: unknown vm id: '' @ vm, 1)"
  "hyperctl_main (hyperctl_run X rf (HcVmSnapshot vm name)) = ([], ''hyperctl: unknown vm id: '' @ vm, 1)"
  "hyperctl_main (hyperctl_run X rf (HcVmStop vm)) = ([], ''hyperctl: unknown vm id: '' @ vm, 1)"
  "hyperctl_main (hyperctl_run X rf (HcVmDestroy vm wipe)) = ([], ''hyperctl: unknown vm id: '' @ vm, 1)"
proof -
  have empty: "ct_registry control_new_local = []"
    by (simp add: control_new_local_def control_new_def)
  note facts = hyperctl_run_def hyperctl_main_def control_text_def registry_take_def bt_get_def empty control_error_text_def
  show "hyperctl_main (hyperctl_run X rf (HcVmVerify vm)) = ([], ''hyperctl: unknown vm id: '' @ vm, 1)"
    by (simp add: facts vm_verify_def)
  show "hyperctl_main (hyperctl_run X rf (HcVmLaunch vm)) = ([], ''hyperctl: unknown vm id: '' @ vm, 1)"
    by (simp add: facts vm_launch_def)
  show "hyperctl_main (hyperctl_run X rf (HcVmPause vm)) = ([], ''hyperctl: unknown vm id: '' @ vm, 1)"
    by (simp add: facts vm_pause_def)
  show "hyperctl_main (hyperctl_run X rf (HcVmSnapshot vm name)) = ([], ''hyperctl: unknown vm id: '' @ vm, 1)"
    by (simp add: facts vm_snapshot_def)
  show "hyperctl_main (hyperctl_run X rf (HcVmStop vm)) = ([], ''hyperctl: unknown vm id: '' @ vm, 1)"
    by (simp add: facts vm_stop_def)
  show "hyperctl_main (hyperctl_run X rf (HcVmDestroy vm wipe)) = ([], ''hyperctl: unknown vm id: '' @ vm, 1)"
    by (simp add: facts vm_destroy_def)
qed

end
