(* ===== verification/Sample.thy ===== *)
theory Sample
  imports Cli
begin

text \<open>
  The generator of the sample manifest, \<open>hyper-qrse/examples/gen_sample.rs\<close>, together with
  the commands its documentation gives for checking what it wrote.
\<close>

subsection \<open>The generator\<close>

definition sample_keyslots :: "keyslot list" where
  "sample_keyslots =
     [keyslot_new 0 KsActive (Argon2idPassphrase
        \<lparr>akdf_algorithm = ''argon2id'', akdf_memory_kib = 1048576, akdf_time_cost = 4, akdf_parallelism = 4\<rparr>
        \<lparr>wrap_algorithm = ''aes-256-kw'', wrapped_key_ref = ''blob:slot0''\<rparr>),
      keyslot_new 1 KsActive (Tpm2Sealed [''7'', ''11''] True True),
      keyslot_new 2 KsActive (HybridRemoteKms kem_suite_768
        \<lparr>kat_required = True, kat_accepted_tee = [''tpm2'', ''amd-sev-snp-vtpm''],
         kat_measurement_policy_ref = ''manifest-prod-v42''\<rparr>),
      keyslot_new 3 KsDisabledUntilBreakGlass (ThresholdRecovery ''shamir'' 3 5)]"

definition unsigned_sample :: qrsd_manifest where
  "unsigned_sample = \<lparr>qm_format = QRSD_FORMAT,
     qm_volume_id = ''urn:uuid:7f0e2a9b-3c17-4e99-94aa-000000000001'',
     qm_created_at = ''2026-06-27T00:00:00Z'',
     qm_data_plane = \<lparr>dp_cipher = ''AES-256-XTS'', dp_xts_raw_key_bits = 512, dp_sector_size = 4096,
       dp_integrity = \<lparr>ig_mode = ''none'', ig_alternatives = [''dm-verity'', ''fs-verity'', ''dm-integrity-aead'']\<rparr>\<rparr>,
     qm_boot_policy = \<lparr>bp_policy_id = ''policy-prod-laptop-v4'', bp_secure_boot_required = True,
       bp_measured_boot_required = True, bp_pcr_profile = [''7'', ''11''], bp_minimum_boot_manifest_version = 42,
       bp_rollback_protection = \<lparr>rbp_type = ''tpm-nv-counter-or-kms-monotonic'',
         rbp_counter_name = ''boot_policy_counter''\<rparr>\<rparr>,
     qm_key_hierarchy = \<lparr>mk_volume_master_key_version = 3, mk_active_dek_version = 8,
       mk_keyslots = sample_keyslots\<rparr>,
     qm_audit = \<lparr>au_last_rotation = ''2026-06-27T00:00:00Z'',
       au_last_attested_unlock_receipt = ''rcpt-000000-0000000000000000'',
       au_log_chain = ''sha384:'' @ replicate 94 (CHR ''0'')\<rparr>,
     qm_signatures = []\<rparr>"

definition sample_manifest :: "('x) qrse_env_scheme \<Rightarrow> qrsd_manifest" where
  "sample_manifest X =
     (let pq = det_signer X (signer_ml_dsa_65 X ''disk-pq'' (as_bytes ''qrse-sample-seed''));
          m = manifest_sign X unsigned_sample pq ''disk-manifest'';
          classical = det_signer X (signer_ecdsa_p384 X ''disk-classical'' (as_bytes ''qrse-sample-seed''))
      in manifest_sign X m classical ''classical-compatibility'')"

text \<open>\<open>main\<close>, with \<open>None\<close> for the panic of \<open>expect\<close>.\<close>

definition gen_sample :: "('x) qrse_env_scheme \<Rightarrow> string option" where
  "gen_sample X = (case manifest_to_json X (sample_manifest X) of Inl e \<Rightarrow> None | Inr s \<Rightarrow> Some (s @ [CHR 0x0A]))"

subsection \<open>Checking the sample\<close>

text \<open>The entry that signing appends.\<close>

definition signed_entry :: "('x) qrse_env_scheme \<Rightarrow> qrsd_manifest \<Rightarrow> deterministic_signer \<Rightarrow> string \<Rightarrow> manifest_signature" where
  "signed_entry X m s purpose = \<lparr>ms_purpose = purpose, ms_algorithm = ds_algorithm s, ms_key_id = ds_key_id s,
     ms_signature_ref = ext_hex X (sig_bytes (det_sign X s (signing_bytes X m))), ms_status = None, ms_not_after = None\<rparr>"

lemma signatures_sign:
  "qm_signatures (manifest_sign X m (det_signer X s) purpose) = qm_signatures m @ [signed_entry X m s purpose]"
  by (simp add: manifest_sign_def signed_entry_def det_signer_def det_sign_def Let_def)

lemma signed_entry_trusted:
  assumes "qrse_laws X" "trust k = Some seed" and s: "s = det_signer_new X alg k (as_bytes seed) n"
  shows "trusted_signature X trust (signing_bytes X m) (signed_entry X m s purpose)"
proof -
  let ?body = "signing_bytes X m"
  have sel: "ds_algorithm s = alg" "ds_key_id s = k"
    "ds_secret s = kdf X ''qrse:sig:sk'' [as_bytes alg, as_bytes k, as_bytes seed]"
    by (simp_all add: s det_signer_new_def)
  have "vf_verify (det_verifier X s) ?body (det_sign X s ?body)"
    using signing_contract.verifies [OF det_signing_contract [OF assms(1)], of s ?body]
    by (simp add: det_signer_def)
  then have "det_verify X alg k (kdf X ''qrse:sig:sk'' [as_bytes alg, as_bytes k, as_bytes seed]) ?body (det_sign X s ?body)"
    by (simp add: det_verifier_def sel)
  moreover have "\<lparr>sig_algorithm = alg, sig_key_id = k, sig_bytes = sig_bytes (det_sign X s ?body)\<rparr> = det_sign X s ?body"
    by (simp add: det_sign_def Let_def sel)
  moreover have "env_hex_decode X (ext_hex X (sig_bytes (det_sign X s ?body))) = Ok (sig_bytes (det_sign X s ?body))"
    using assms(1) by (simp add: qrse_laws_def)
  ultimately show ?thesis
    by (simp only: trusted_signature_def signed_entry_def manifest_signature.select_convs assms(2) sel
        prod.case option.case sum.case)
qed

lemma sample_signatures:
  "qm_signatures (sample_manifest X) =
     [signed_entry X unsigned_sample (signer_ml_dsa_65 X ''disk-pq'' (as_bytes ''qrse-sample-seed'')) ''disk-manifest'',
      signed_entry X unsigned_sample (signer_ecdsa_p384 X ''disk-classical'' (as_bytes ''qrse-sample-seed''))
        ''classical-compatibility'']"
proof -
  have "signed_entry X (manifest_sign X unsigned_sample s p) s' p' = signed_entry X unsigned_sample s' p'" for s p s' p'
    by (simp add: signed_entry_def)
  moreover have "qm_signatures unsigned_sample = []" by (simp add: unsigned_sample_def)
  ultimately show ?thesis by (simp add: sample_manifest_def Let_def signatures_sign)
qed

lemma sample_sel:
  "qm_format (sample_manifest X) = ''qrsd-v1''" "signing_bytes X (sample_manifest X) = signing_bytes X unsigned_sample"
  "mk_keyslots (qm_key_hierarchy (sample_manifest X)) = sample_keyslots"
  "bp_minimum_boot_manifest_version (qm_boot_policy (sample_manifest X)) = 42"
proof -
  show "qm_format (sample_manifest X) = ''qrsd-v1''" "signing_bytes X (sample_manifest X) = signing_bytes X unsigned_sample"
    "mk_keyslots (qm_key_hierarchy (sample_manifest X)) = sample_keyslots"
    "bp_minimum_boot_manifest_version (qm_boot_policy (sample_manifest X)) = 42"
    by (simp_all add: sample_manifest_def Let_def) (simp_all add: unsigned_sample_def QRSD_FORMAT_def)
qed

lemma sample_algorithms:
  "is_pq_signature_alg ''ml-dsa-65''" "\<not> is_pq_signature_alg ''ecdsa-p384''"
  by code_simp+

lemma sample_trusted:
  assumes "qrse_laws X"
  shows "trusted_post_quantum X (sample_manifest X) trust \<longleftrightarrow>
     trusted_signature X trust (signing_bytes X unsigned_sample)
       (signed_entry X unsigned_sample (signer_ml_dsa_65 X ''disk-pq'' (as_bytes ''qrse-sample-seed'')) ''disk-manifest'')"
proof -
  have "is_ok (env_hex_decode X (ms_signature_ref (signed_entry X m s p)))" for m s p
    using assms by (simp add: qrse_laws_def signed_entry_def)
  moreover have "ms_algorithm (signed_entry X m s p) = ds_algorithm s" for m s p by (simp add: signed_entry_def)
  ultimately show ?thesis
    by (simp add: trusted_post_quantum_def sample_sel sample_signatures signer_ml_dsa_65_def signer_ecdsa_p384_def
        det_signer_new_def sample_algorithms)
qed

lemma sample_up_to_date:
  "up_to_date (sample_manifest X) fl counter allow \<longleftrightarrow> fl \<le> 42 \<and> counter \<le> 42"
proof -
  have "str_trim ''ml-kem-768'' \<noteq> []" by code_simp
  then have "list_ex slot_is_hybrid sample_keyslots"
    "\<not> list_ex (\<lambda>s. slot_is_hybrid s \<and> slot_classical_only s) sample_keyslots"
    by (simp_all add: sample_keyslots_def keyslot_new_def slot_is_hybrid_def slot_classical_only_def kem_suite_768_def)
  then show ?thesis by (simp add: up_to_date_def sample_sel Let_def)
qed

subsection \<open>Properties\<close>

text \<open>The documented round trip of the sample. What the generator writes, read back by
  \<open>qrsectl\<close>, verifies with the documented trust argument, is denied with no trust or with
  trust in the classical key only, and passes the downgrade check exactly for floors and
  counters up to 42. Of the libraries this needs that parsing the generated text gives the
  manifest back and the laws of \<open>Unlock\<close>.\<close>

theorem generated_sample_verifies:
  assumes "qrse_laws X" "gen_sample X = Some doc"
    and "rf path = Ok doc" "env_manifest_parse X doc = Ok (sample_manifest X)"
  shows "exit_code (qrsectl_main (qrsectl_run X pretty rf (QcManifestVerify path [''disk-pq=qrse-sample-seed'']))) = 0
    \<and> exit_code (qrsectl_main (qrsectl_run X pretty rf (QcManifestVerify path []))) = 2
    \<and> exit_code (qrsectl_main (qrsectl_run X pretty rf (QcManifestVerify path [''disk-classical=qrse-sample-seed'']))) = 2
    \<and> exit_code (qrsectl_main (qrsectl_run X pretty rf
        (QcDowngradeCheck path fl counter allow [''disk-pq=qrse-sample-seed'']))) =
        (if fl \<le> 42 \<and> counter \<le> 42 then 0 else 3)"
proof -
  have inputs: "cli_inputs X rf path [''disk-pq=qrse-sample-seed''] =
      Some (sample_manifest X, [''disk-pq'' \<mapsto> ''qrse-sample-seed''])"
    "cli_inputs X rf path [''disk-classical=qrse-sample-seed''] =
      Some (sample_manifest X, [''disk-classical'' \<mapsto> ''qrse-sample-seed''])"
    "cli_inputs X rf path [] = Some (sample_manifest X, Map.empty)"
    using assms(3,4) by (simp_all add: cli_inputs_def)
  let ?entry = "signed_entry X unsigned_sample (signer_ml_dsa_65 X ''disk-pq'' (as_bytes ''qrse-sample-seed'')) ''disk-manifest''"
  have "trusted_signature X [''disk-pq'' \<mapsto> ''qrse-sample-seed''] (signing_bytes X unsigned_sample) ?entry"
    by (rule signed_entry_trusted [OF assms(1)]) (simp_all add: signer_ml_dsa_65_def)
  moreover have "\<not> trusted_signature X trust b ?entry" if "trust ''disk-pq'' = None" for trust b
    using that by (simp add: trusted_signature_def signed_entry_def signer_ml_dsa_65_def det_signer_new_def)
  ultimately show ?thesis
    by (simp add: qrsectl_run_def verify_exit downgrade_exit inputs sample_trusted [OF assms(1)] sample_up_to_date)
qed

text \<open>An environment whose parser knows one text.\<close>

definition sample_json_env :: qrse_env where
  "sample_json_env = sample_qrse_env\<lparr>env_manifest_pretty := \<lambda>m. Inr ''{}'',
     env_manifest_parse := \<lambda>s. Inr (sample_manifest sample_qrse_env)\<rparr>"

lemma generated_sample_verifies_witness:
  "exit_code (qrsectl_main (qrsectl_run sample_json_env (\<lambda>j. []) (\<lambda>f. Ok (''{}'' @ [CHR 0x0A]))
     (QcManifestVerify ''sample.json'' [''disk-pq=qrse-sample-seed'']))) = 0"
proof -
  have laws: "qrse_laws sample_json_env"
    using sample_qrse_laws by (simp add: qrse_laws_def sample_json_env_def)
  have gen: "gen_sample sample_json_env = Some (''{}'' @ [CHR 0x0A])"
    by (simp add: gen_sample_def manifest_to_json_def sample_json_env_def)
  have fields: "ext_sha384 sample_json_env = ext_sha384 sample_qrse_env" "ext_hex sample_json_env = ext_hex sample_qrse_env"
    "env_hmac sample_json_env = env_hmac sample_qrse_env" "env_body_json sample_json_env = env_body_json sample_qrse_env"
    by (simp_all add: sample_json_env_def)
  have prims: "kdf sample_json_env = kdf sample_qrse_env" "det_mac sample_json_env = det_mac sample_qrse_env"
    "signing_bytes sample_json_env = signing_bytes sample_qrse_env"
    by (simp_all only: fun_eq_iff kdf_def det_mac_def signing_bytes_def fields simp_thms)
  have sign: "det_sign sample_json_env = det_sign sample_qrse_env"
    by (simp only: fun_eq_iff det_sign_def prims simp_thms)
  have same: "sample_manifest sample_json_env = sample_manifest sample_qrse_env"
    by (simp only: sample_manifest_def manifest_sign_def det_signer_def sign signer_ml_dsa_65_def
        signer_ecdsa_p384_def det_signer_new_def fields prims)
  show ?thesis
    using generated_sample_verifies [OF laws gen] same by (simp add: sample_json_env_def)
qed

end
