(* ===== verification/Platform.thy ===== *)
theory Platform
  imports Prelude
begin

text \<open>
  The platform side: inventory parsers of \<open>hyper-pn52\<close> and its doctor tool, PCI addresses,
  serial port and CPU capabilities of \<open>hyper-x86\<close>, model specific registers and control
  block of \<open>hyper-amd-svm\<close>, and the data types of \<open>hyper-slate-core\<close>. The instructions
  behind \<open>asm!\<close> act on a machine state that is a parameter.
\<close>

unbundle bit_operations_syntax

subsection \<open>Core data types\<close>

definition SCHEMA_VERSION :: u32 where "SCHEMA_VERSION = 1"

datatype boot_epoch = BeUefiBootServices | BeAfterExitBootServices | BeHypervisorHost | BeGuest

record measurement_ref =
  mref_pcr :: u8
  mref_digest_len :: nat

datatype core_key_class =
    CkDataEncryptionKey | CkVolumeMasterKey | CkKeyEncryptionKey | CkDeviceKey | CkUserKey | CkRecoveryKey
  | CkHardwareSealedKey | CkRemoteKmsKey | CkHybridPqcWrappedKey | CkThresholdShare

record key_version =
  kv_key_id :: string
  kv_version :: u64

datatype core_policy_decision = CpAllow | CpDeny | CpRequireRecovery | CpRequireHumanApproval

record core_manifest_signature =
  cms_alg :: string
  cms_key_id :: string
  cms_sig_ref :: string
  cms_status :: string

record boot_policy_manifest =
  bpm_schema_version :: u32
  bpm_policy_id :: string
  bpm_minimum_version :: u64
  bpm_secure_boot_required :: bool
  bpm_measured_boot_required :: bool
  bpm_accepted_pcrs :: "u8 list"
  bpm_boot_manifest_hash :: string
  bpm_signatures :: "core_manifest_signature list"

record keyslot_manifest =
  ksm_slot :: u32
  ksm_kind :: string
  ksm_status :: string
  ksm_algorithm_suite :: "string option"

record volume_manifest =
  vom_schema_version :: u32
  vom_volume_id :: string
  vom_cipher :: string
  vom_sector_size :: u32
  vom_keyslots :: "keyslot_manifest list"

subsection \<open>PCI configuration addresses\<close>

record bdf =
  bdf_bus :: u8
  bdf_device :: u8
  bdf_function :: u8

definition bdf_new :: "u8 \<Rightarrow> u8 \<Rightarrow> u8 \<Rightarrow> bdf" where
  "bdf_new bus device function = \<lparr>bdf_bus = bus, bdf_device = device, bdf_function = function\<rparr>"

definition config_addr :: "bdf \<Rightarrow> u8 \<Rightarrow> u32" where
  "config_addr b offset =
     0x80000000 OR push_bit 16 (ucast (bdf_bus b)) OR push_bit 11 (ucast (bdf_device b))
       OR push_bit 8 (ucast (bdf_function b)) OR (ucast offset AND 0xfc)"

subsection \<open>CPU capabilities and memory regions\<close>

record cpu_caps =
  cc_svm :: bool
  cc_invariant_tsc :: bool
  cc_x2apic :: bool

record cpuid_result =
  cpuid_ecx :: u32
  cpuid_edx :: u32

text \<open>\<open>cpuid\<close> gives the registers of a leaf.\<close>

definition detect_cpu_caps :: "(u32 \<Rightarrow> cpuid_result) \<Rightarrow> cpu_caps" where
  "detect_cpu_caps cpuid =
     (let leaf1 = cpuid 1; ext1 = cpuid 0x80000001; ext7 = cpuid 0x80000007 in
      \<lparr>cc_svm = (cpuid_ecx ext1 AND push_bit 2 1 \<noteq> 0),
       cc_invariant_tsc = (cpuid_edx ext7 AND push_bit 8 1 \<noteq> 0),
       cc_x2apic = (cpuid_ecx leaf1 AND push_bit 21 1 \<noteq> 0)\<rparr>)"

datatype memory_kind = MkUsable | MkReserved | MkMmio | MkAcpi | MkBootServices | MkRuntimeServices

record memory_region =
  mreg_start :: u64
  mreg_len :: u64
  mreg_kind :: memory_kind

subsection \<open>The serial port\<close>

text \<open>\<open>inb\<close> and \<open>outb\<close> on the state of the ports; reading may change it.\<close>

record 'h port_ops =
  inb :: "'h \<Rightarrow> u16 \<Rightarrow> 'h \<times> u8"
  outb :: "'h \<Rightarrow> u16 \<Rightarrow> u8 \<Rightarrow> 'h"

definition COM1 :: u16 where "COM1 = 0x3F8"

definition init_16550 :: "'h port_ops \<Rightarrow> 'h \<Rightarrow> u16 \<Rightarrow> 'h" where
  "init_16550 ops h base =
     (let h = outb ops h (base + 1) 0x00; h = outb ops h (base + 3) 0x80;
          h = outb ops h (base + 0) 0x03; h = outb ops h (base + 1) 0x00;
          h = outb ops h (base + 3) 0x03; h = outb ops h (base + 2) 0xC7
      in outb ops h (base + 4) 0x0B)"

text \<open>The loop polls without a limit, so not returning is \<open>None\<close>.\<close>

partial_function (option) write_byte :: "'h port_ops \<Rightarrow> u16 \<Rightarrow> u8 \<Rightarrow> 'h \<Rightarrow> 'h option" where
  "write_byte ops base b h =
     (let (h1, status) = inb ops h (base + 5) in
      if status AND 0x20 = 0 then write_byte ops base b h1 else Some (outb ops h1 base b))"

text \<open>Halting: wait for an interrupt, again and again.\<close>

partial_function (option) halt_forever :: "('h \<Rightarrow> 'h) \<Rightarrow> 'h \<Rightarrow> 'a option" where
  "halt_forever hlt h = halt_forever hlt (hlt h)"

lemma halt_forever_never_returns: "halt_forever hlt h = (None :: 'a option)"
proof (cases "halt_forever hlt h :: 'a option")
  case (Some y)
  have False by (rule halt_forever.raw_induct [OF _ Some])
  then show ?thesis ..
qed simp

subsection \<open>Model specific registers\<close>

text \<open>\<open>rdmsr\<close> gives the high and the low half, \<open>wrmsr\<close> takes them.\<close>

record 'm msr_ops =
  msr_read :: "'m \<Rightarrow> u32 \<Rightarrow> u32 \<times> u32"
  msr_write :: "'m \<Rightarrow> u32 \<Rightarrow> u32 \<Rightarrow> u32 \<Rightarrow> 'm"

definition EFER :: u32 where "EFER = 0xC0000080"
definition VM_HSAVE_PA :: u32 where "VM_HSAVE_PA = 0xC0010117"
definition EFER_SVME :: u64 where "EFER_SVME = push_bit 12 1"

definition rdmsr :: "'m msr_ops \<Rightarrow> 'm \<Rightarrow> u32 \<Rightarrow> u64" where
  "rdmsr ops m msr = (case msr_read ops m msr of (high, low) \<Rightarrow> push_bit 32 (ucast high) OR ucast low)"

definition wrmsr :: "'m msr_ops \<Rightarrow> 'm \<Rightarrow> u32 \<Rightarrow> u64 \<Rightarrow> 'm" where
  "wrmsr ops m msr val =
     (let high = ucast (drop_bit 32 val); low = ucast val in msr_write ops m msr high low)"

definition enable_svm :: "'m msr_ops \<Rightarrow> 'm \<Rightarrow> u64 \<Rightarrow> 'm" where
  "enable_svm ops m host_save_pa =
     (let efer = rdmsr ops m EFER;
          efer = efer OR EFER_SVME;
          m = wrmsr ops m EFER efer
      in wrmsr ops m VM_HSAVE_PA host_save_pa)"

datatype svm_error = SvmNotSupported | SvmVmrunFailed | SvmInvalidVmcb

subsection \<open>Control block, nested root and IVRS\<close>

text \<open>The fields of the packed control area with their sizes in bytes.\<close>

definition vmcb_control_area :: "(string \<times> nat) list" where
  "vmcb_control_area =
     [(''intercept_cr_read'', 4), (''intercept_cr_write'', 4), (''intercept_dr_read'', 4), (''intercept_dr_write'', 4),
      (''intercept_exceptions'', 4), (''intercept_instr1'', 4), (''intercept_instr2'', 4), (''intercept_instr3'', 4),
      (''reserved_20'', 4), (''pause_filter_threshold'', 2), (''pause_filter_count'', 2), (''iopm_base_pa'', 8),
      (''msrpm_base_pa'', 8), (''tsc_offset'', 8), (''guest_asid'', 4), (''tlb_control'', 1), (''reserved_45'', 3),
      (''int_ctl'', 4), (''int_vector'', 4), (''exit_code'', 8), (''exit_info1'', 8), (''exit_info2'', 8),
      (''exit_int_info'', 8), (''np_enable'', 8)]"

definition VMEXIT_HLT :: u64 where "VMEXIT_HLT = 0x40"
definition VMEXIT_NPF :: u64 where "VMEXIT_NPF = 0x400"

record npt_root =
  pml4_pa :: u64

definition identity_map_plan :: "u64 \<Rightarrow> u64 \<Rightarrow> npt_root" where
  "identity_map_plan start len = \<lparr>pml4_pa = 0\<rparr>"

record ivrs_header =
  ivrs_length :: u32
  ivrs_revision :: u8
  ivrs_checksum :: u8

definition looks_like_ivrs :: "byte list \<Rightarrow> bool" where
  "looks_like_ivrs bytes \<longleftrightarrow> 4 \<le> length bytes \<and> take 4 bytes = as_bytes ''IVRS''"

subsection \<open>The inventory\<close>

record acpi_table_info =
  at_signature :: string
  at_present :: bool

definition detect_table_signatures :: "string \<Rightarrow> acpi_table_info list" where
  "detect_table_signatures txt = map (\<lambda>sig. \<lparr>at_signature = sig, at_present = str_contains txt sig\<rparr>)
     [''RSDP'', ''XSDT'', ''FACP'', ''APIC'', ''MCFG'', ''HPET'', ''IVRS'', ''TPM2'']"

record pci_device =
  pd_bdf :: string
  pd_class_name :: string
  pd_vendor_device :: string
  pd_driver :: "string option"
  pd_iommu_group :: "u32 option"

definition parse_lspci_tree :: "string \<Rightarrow> string list" where
  "parse_lspci_tree txt = filter (\<lambda>l. l \<noteq> []) (map str_trim (str_lines txt))"

record pn52_cpu_info =
  pc_sku :: string
  pc_family :: "u32 option"
  pc_model :: "u32 option"
  pc_cores :: "u32 option"
  pc_threads :: "u32 option"
  pc_svm :: bool
  pc_invariant_tsc :: bool

definition pn52_cpu_default :: pn52_cpu_info where
  "pn52_cpu_default = \<lparr>pc_sku = [], pc_family = None, pc_model = None, pc_cores = None, pc_threads = None,
     pc_svm = False, pc_invariant_tsc = False\<rparr>"

definition parse_u32 :: "string \<Rightarrow> u32 option" where
  "parse_u32 s = map_option word_of_nat (parse_unsigned 32 s)"

text \<open>One round of the loop over the lines.\<close>

definition lscpu_line :: "pn52_cpu_info \<Rightarrow> string \<Rightarrow> pn52_cpu_info" where
  "lscpu_line out line =
     (let out = (case strip_prefix ''Model name:'' line of Some v \<Rightarrow> out\<lparr>pc_sku := str_trim v\<rparr> | None \<Rightarrow> out);
          out = (case strip_prefix ''CPU(s):'' line of Some v \<Rightarrow> out\<lparr>pc_threads := parse_u32 (str_trim v)\<rparr> | None \<Rightarrow> out)
      in case strip_prefix ''Core(s) per socket:'' line of
           Some v \<Rightarrow> out\<lparr>pc_cores := parse_u32 (str_trim v)\<rparr> | None \<Rightarrow> out)"

definition parse_lscpu :: "string \<Rightarrow> pn52_cpu_info" where
  "parse_lscpu txt = foldl lscpu_line pn52_cpu_default (str_lines txt)"

datatype secure_boot_state = SbEnabled | SbDisabled | SbSetupMode | SbUnknown

record pn52_security_report =
  sr_secure_boot :: secure_boot_state
  sr_ftpm_present :: bool
  sr_pcr_banks :: "string list"
  sr_spi_write_protected :: "bool option"
  sr_amd_psb_fused :: "bool option"

definition parse_mokutil_state :: "string \<Rightarrow> secure_boot_state" where
  "parse_mokutil_state txt =
     (let lower = to_ascii_lowercase txt in
      if str_contains lower ''secureboot enabled'' then SbEnabled
      else if str_contains lower ''secureboot disabled'' then SbDisabled
      else SbUnknown)"

record pn52_inventory =
  inv_schema_version :: u32
  inv_captured_at_utc :: string
  inv_cpu :: "pn52_cpu_info option"
  inv_pci_devices :: "pci_device list"
  inv_acpi_tables :: "acpi_table_info list"
  inv_security :: "pn52_security_report option"

definition show_bool :: "bool \<Rightarrow> string" where
  "show_bool b = (if b then ''true'' else ''false'')"

text \<open>The firmware probe: the lines it logs before it returns success.\<close>

definition uefi_probe_main :: "(u32 \<Rightarrow> cpuid_result) \<Rightarrow> string list" where
  "uefi_probe_main cpuid =
     (let caps = detect_cpu_caps cpuid in
      [''chain.new hyper-slate UEFI probe starting'',
       ''cpu caps: svm='' @ show_bool (cc_svm caps) @ '' invariant_tsc='' @ show_bool (cc_invariant_tsc caps)
         @ '' x2apic='' @ show_bool (cc_x2apic caps)])"

definition markdown_report :: "pn52_inventory \<Rightarrow> string" where
  "markdown_report iv =
     (let nl = [CHR 0x0A] in
      ''# PN52 inventory report'' @ nl @ nl
      @ ''schema_version: '' @ show_nat (unat (inv_schema_version iv)) @ nl @ nl
      @ (case inv_cpu iv of
           Some cpu \<Rightarrow> ''## CPU'' @ nl @ nl @ ''- sku: `'' @ pc_sku cpu @ ''`'' @ nl @ ''- svm: `'' @ show_bool (pc_svm cpu)
             @ ''`'' @ nl @ ''- invariant_tsc: `'' @ show_bool (pc_invariant_tsc cpu) @ ''`'' @ nl @ nl
         | None \<Rightarrow> [])
      @ ''## PCI'' @ nl @ nl @ show_nat (length (inv_pci_devices iv)) @ '' devices parsed.'' @ nl)"

subsection \<open>The doctor\<close>

datatype doctor_command = DcReport string | DcSafetyGate

definition show_threads :: "u32 option \<Rightarrow> string" where
  "show_threads t = (case t of None \<Rightarrow> ''None'' | Some n \<Rightarrow> ''Some('' @ show_nat (unat n) @ '')'')"

text \<open>Output, error output and exit code; \<open>join\<close> and the file system are parameters.\<close>

definition doctor_main ::
  "(string \<Rightarrow> string \<Rightarrow> string) \<Rightarrow> (string \<Rightarrow> string option) \<Rightarrow> doctor_command \<Rightarrow> string \<times> string \<times> int" where
  "doctor_main join_path read_file cmd =
     (case cmd of
        DcReport dir \<Rightarrow>
          (let lscpu = (case read_file (join_path dir ''dmi/lscpu.txt'') of Some t \<Rightarrow> t | None \<Rightarrow> []);
               cpu = parse_lscpu lscpu; nl = [CHR 0x0A] in
           (''# PN52 Doctor Report'' @ nl @ nl
            @ ''CPU: '' @ (if pc_sku cpu = [] then ''unknown'' else pc_sku cpu) @ nl
            @ ''Threads: '' @ show_threads (pc_threads cpu) @ nl
            @ ''Next: parse lspci/acpi/secureboot and emit full JSON.'' @ nl, [], 0))
      | DcSafetyGate \<Rightarrow>
          ([], ''Firmware write safety gate: DENY by default. Use read-only pipeline only.'' @ [CHR 0x0A], 10))"

subsection \<open>Addresses\<close>

lemma bit_small:
  fixes w :: "'a::len word"
  assumes "w < 2 ^ k" "k \<le> n"
  shows "\<not> bit w n"
proof -
  have "drop_bit k w = 0" using assms(1) by (simp add: drop_bit_eq_div div_word_less)
  then have "\<not> bit (drop_bit k w) (n - k)" by simp
  then show ?thesis using assms(2) by (simp add: bit_drop_bit_eq)
qed

lemma byte_eqI: "(\<forall>n \<in> {0, 1, 2, 3, 4, 5, 6, 7}. bit v n = bit w n) \<Longrightarrow> (v :: u8) = w"
  by (rule bit_word_eqI) (auto simp: less_Suc_eq numeral_eq_Suc)

lemma config_addr_fields:
  assumes "bdf_device b < 32" "bdf_function b < 8"
  shows "ucast (drop_bit 16 (config_addr b offset)) = bdf_bus b"
    and "ucast (drop_bit 11 (config_addr b offset)) AND 0x1F = bdf_device b"
    and "ucast (drop_bit 8 (config_addr b offset)) AND 7 = bdf_function b"
    and "ucast (config_addr b offset) = offset AND 0xFC"
proof -
  have d: "\<not> bit (bdf_device b) n" if "5 \<le> n" for n
    using that assms(1) by (intro bit_small [of "bdf_device b" 5]) auto
  have f: "\<not> bit (bdf_function b) n" if "3 \<le> n" for n
    using that assms(2) by (intro bit_small [of "bdf_function b" 3]) auto
  show "ucast (drop_bit 16 (config_addr b offset)) = bdf_bus b"
    by (rule byte_eqI) (auto simp: config_addr_def bit_simps d f)
  show "ucast (drop_bit 11 (config_addr b offset)) AND 0x1F = bdf_device b"
    by (rule byte_eqI) (auto simp: config_addr_def bit_simps d f)
  show "ucast (drop_bit 8 (config_addr b offset)) AND 7 = bdf_function b"
    by (rule byte_eqI) (auto simp: config_addr_def bit_simps d f)
  show "ucast (config_addr b offset) = offset AND 0xFC"
    by (rule byte_eqI) (auto simp: config_addr_def bit_simps d f)
qed

text \<open>Without the bounds, which the constructor does not check, addresses run into each other.\<close>

lemma config_addr_aliases: "config_addr (bdf_new 0 32 0) offset = config_addr (bdf_new 1 0 0) offset"
  by (simp add: config_addr_def bdf_new_def)

subsection \<open>The serial port waits until it may send\<close>

fun polled :: "'h port_ops \<Rightarrow> u16 \<Rightarrow> nat \<Rightarrow> 'h \<Rightarrow> 'h" where
  "polled ops base 0 h = h"
| "polled ops base (Suc n) h = polled ops base n (fst (inb ops h (base + 5)))"

definition may_send :: "'h port_ops \<Rightarrow> u16 \<Rightarrow> 'h \<Rightarrow> bool" where
  "may_send ops base h \<longleftrightarrow> snd (inb ops h (base + 5)) AND 0x20 \<noteq> 0"

lemma write_byte_step:
  "write_byte ops base b h =
     (let h1 = fst (inb ops h (base + 5)) in
      if may_send ops base h then Some (outb ops h1 base b) else write_byte ops base b h1)"
  by (subst write_byte.simps) (simp add: may_send_def Let_def case_prod_beta)

lemma write_byte_ready:
  assumes "may_send ops base (polled ops base n h)" "\<And>k. k < n \<Longrightarrow> \<not> may_send ops base (polled ops base k h)"
  shows "write_byte ops base b h = Some (outb ops (polled ops base (Suc n) h) base b)"
  using assms
proof (induction n arbitrary: h)
  case (Suc n)
  have "\<not> may_send ops base h" using Suc.prems(2) [of 0] by simp
  moreover have "write_byte ops base b (fst (inb ops h (base + 5))) =
      Some (outb ops (polled ops base (Suc n) (fst (inb ops h (base + 5)))) base b)"
    using Suc.prems(1) Suc.prems(2) [of "Suc _"] by (intro Suc.IH) auto
  ultimately show ?case by (subst write_byte_step) (simp add: Let_def)
qed (simp add: write_byte_step Let_def)

lemma write_byte_returns:
  assumes "write_byte ops base b h = Some h'"
  shows "\<exists>n. may_send ops base (polled ops base n h)"
proof (rule write_byte.raw_induct [where P = "\<lambda>ops base b h h'. \<exists>n. may_send ops base (polled ops base n h)", OF _ assms])
  fix send :: "'a port_ops \<Rightarrow> u16 \<Rightarrow> u8 \<Rightarrow> 'a \<Rightarrow> 'a option" and ops base b h h'
  assume IH: "\<And>ops base b h h'. send ops base b h = Some h' \<Longrightarrow> \<exists>n. may_send ops base (polled ops base n h)"
    and body: "(let (h1, status) = inb ops h (base + 5) in
      if status AND 0x20 = 0 then send ops base b h1 else Some (outb ops h1 base b)) = Some h'"
  show "\<exists>n. may_send ops base (polled ops base n h)"
  proof (cases "may_send ops base h")
    case True
    then show ?thesis by (intro exI [of _ 0]) simp
  next
    case False
    with body have "send ops base b (fst (inb ops h (base + 5))) = Some h'"
      by (simp add: may_send_def Let_def case_prod_beta)
    from IH [OF this] obtain n where "may_send ops base (polled ops base n (fst (inb ops h (base + 5))))" by blast
    then show ?thesis by (intro exI [of _ "Suc n"]) simp
  qed
qed

subsection \<open>Registers\<close>

text \<open>A register keeps the two halves last written to it.\<close>

definition msr_laws :: "'m msr_ops \<Rightarrow> bool" where
  "msr_laws ops \<longleftrightarrow> (\<forall>m r high low r'. msr_read ops (msr_write ops m r high low) r' =
     (if r' = r then (high, low) else msr_read ops m r'))"

lemma join_halves: "push_bit 32 (ucast (ucast (drop_bit 32 v) :: u32)) OR ucast (ucast v :: u32) = (v :: u64)"
  by (rule bit_word_eqI) (auto simp: bit_simps)

lemma rdmsr_wrmsr:
  "msr_laws ops \<Longrightarrow> rdmsr ops (wrmsr ops m r v) r' = (if r' = r then v else rdmsr ops m r')"
  by (simp add: rdmsr_def wrmsr_def msr_laws_def Let_def join_halves)

subsection \<open>The control area\<close>

fun packed_offset :: "(string \<times> nat) list \<Rightarrow> string \<Rightarrow> nat option" where
  "packed_offset [] f = None"
| "packed_offset ((g, n) # fs) f = (if f = g then Some 0 else map_option (\<lambda>k. n + k) (packed_offset fs f))"

text \<open>The two reserved fields are named after their offsets; the page holds the area.\<close>

lemma vmcb_layout:
  "packed_offset vmcb_control_area ''reserved_20'' = Some 0x20"
  "packed_offset vmcb_control_area ''reserved_45'' = Some 0x45"
  "packed_offset vmcb_control_area ''iopm_base_pa'' = Some 0x28"
  "packed_offset vmcb_control_area ''exit_code'' = Some 0x50"
  "packed_offset vmcb_control_area ''np_enable'' = Some 0x70"
  "sum_list (map snd vmcb_control_area) = 120"
  by (simp_all add: vmcb_control_area_def)

subsection \<open>What the inventory knows\<close>

text \<open>The values of the lines with a prefix, in order.\<close>

definition field_values :: "string \<Rightarrow> string \<Rightarrow> string list" where
  "field_values p txt = map (\<lambda>l. str_trim (drop (length p) l)) (filter (\<lambda>l. starts_with l p) (str_lines txt))"

lemma foldl_last:
  assumes "\<And>a l. get (step a l) = (if P l then f l else get a)"
  shows "get (foldl step a ls) = (if filter P ls = [] then get a else f (last (filter P ls)))"
  by (induction ls rule: rev_induct) (simp_all add: assms)

lemma lscpu_line_sel:
  "pc_sku (lscpu_line a l) = (if starts_with l ''Model name:'' then str_trim (drop (length ''Model name:'') l) else pc_sku a)"
  "pc_threads (lscpu_line a l) =
     (if starts_with l ''CPU(s):'' then parse_u32 (str_trim (drop (length ''CPU(s):'') l)) else pc_threads a)"
  "pc_cores (lscpu_line a l) = (if starts_with l ''Core(s) per socket:''
     then parse_u32 (str_trim (drop (length ''Core(s) per socket:'') l)) else pc_cores a)"
  "pc_family (lscpu_line a l) = pc_family a" "pc_model (lscpu_line a l) = pc_model a"
  "pc_svm (lscpu_line a l) = pc_svm a" "pc_invariant_tsc (lscpu_line a l) = pc_invariant_tsc a"
  by (simp_all add: lscpu_line_def strip_prefix_def Let_def)

lemma lscpu_const:
  "pc_family (foldl lscpu_line a ls) = pc_family a" "pc_model (foldl lscpu_line a ls) = pc_model a"
  "pc_svm (foldl lscpu_line a ls) = pc_svm a" "pc_invariant_tsc (foldl lscpu_line a ls) = pc_invariant_tsc a"
  by (induction ls arbitrary: a) (simp_all add: lscpu_line_sel)

subsection \<open>Properties\<close>

text \<open>A configuration address gives its device, function and bus back, as long as the device
  is below 32 and the function below 8, so that two different functions never share one.\<close>

theorem config_addr_injective:
  assumes "bdf_device b < 32" "bdf_function b < 8" "bdf_device c < 32" "bdf_function c < 8"
  shows "config_addr b offset = config_addr c offset' \<longleftrightarrow> b = c \<and> offset AND 0xFC = offset' AND 0xFC"
proof
  assume eq: "config_addr b offset = config_addr c offset'"
  have "bdf_bus b = bdf_bus c" "bdf_device b = bdf_device c" "bdf_function b = bdf_function c"
    using config_addr_fields [OF assms(1,2), of offset] config_addr_fields [OF assms(3,4), of offset'] eq by simp_all
  moreover have "offset AND 0xFC = offset' AND 0xFC"
    using config_addr_fields(4) [OF assms(1,2), of offset] config_addr_fields(4) [OF assms(3,4), of offset'] eq by simp
  ultimately show "b = c \<and> offset AND 0xFC = offset' AND 0xFC" by simp
next
  assume "b = c \<and> offset AND 0xFC = offset' AND 0xFC"
  moreover have "(ucast offset AND 0xFC :: u32) = ucast (offset AND 0xFC)" for offset :: u8
    by (rule bit_word_eqI) (auto simp: bit_simps dest: bit_imp_le_length)
  ultimately show "config_addr b offset = config_addr c offset'" by (simp add: config_addr_def)
qed

text \<open>Sending a byte returns exactly when the port ever says, at some poll of the line status,
  that it may; then the byte went out once, after the first such poll.\<close>

theorem write_byte_exact:
  "write_byte ops base b h =
     (if \<exists>n. may_send ops base (polled ops base n h)
      then Some (outb ops (polled ops base (Suc (LEAST n. may_send ops base (polled ops base n h))) h) base b)
      else None)"
proof (cases "\<exists>n. may_send ops base (polled ops base n h)")
  case True
  let ?n = "LEAST n. may_send ops base (polled ops base n h)"
  have "write_byte ops base b h = Some (outb ops (polled ops base (Suc ?n) h) base b)"
    using LeastI_ex [OF True] not_less_Least by (rule write_byte_ready)
  with True show ?thesis by (simp only: if_True)
next
  case False
  then show ?thesis using write_byte_returns [of ops base b h] by (cases "write_byte ops base b h") auto
qed

text \<open>Enabling SVM sets that bit of the feature register and the save area, keeps every other bit
  and register.\<close>

theorem enable_svm_exact:
  assumes "msr_laws ops"
  shows "rdmsr ops (enable_svm ops m pa) r =
     (if r = 0xC0010117 then pa else if r = 0xC0000080 then rdmsr ops m 0xC0000080 OR 0x1000 else rdmsr ops m r)"
  by (simp add: enable_svm_def Let_def rdmsr_wrmsr [OF assms] EFER_def VM_HSAVE_PA_def EFER_SVME_def)

lemma enable_svm_exact_witness:
  "let ops = \<lparr>msr_read = \<lambda>m r. m r, msr_write = \<lambda>m r high low. m(r := (high, low))\<rparr>;
       m = enable_svm ops (\<lambda>r. (0, 1)) 0x5000
   in rdmsr ops m 0xC0000080 = 0x1001 \<and> rdmsr ops m 0xC0010117 = 0x5000"
proof -
  define ops where "ops = \<lparr>msr_read = \<lambda>m r. m r, msr_write = \<lambda>m r high low. m(r := (high :: u32, low :: u32))\<rparr>"
  have laws: "msr_laws ops" by (simp add: msr_laws_def ops_def)
  have old: "rdmsr ops (\<lambda>r. (0, 1)) 0xC0000080 = 1" by (simp add: rdmsr_def ops_def)
  show ?thesis
    unfolding ops_def [symmetric] Let_def by (simp add: enable_svm_exact [OF laws] old)
qed

text \<open>The CPU parser keeps the last line of each kind, and of the fields only three: whatever the
  text says, SVM and the invariant counter are reported as absent.\<close>

theorem parse_lscpu_exact:
  "pc_sku (parse_lscpu txt) = (let vs = field_values ''Model name:'' txt in if vs = [] then [] else last vs)
   \<and> pc_threads (parse_lscpu txt) = (let vs = field_values ''CPU(s):'' txt in if vs = [] then None else parse_u32 (last vs))
   \<and> pc_cores (parse_lscpu txt) =
       (let vs = field_values ''Core(s) per socket:'' txt in if vs = [] then None else parse_u32 (last vs))
   \<and> pc_family (parse_lscpu txt) = None \<and> pc_model (parse_lscpu txt) = None
   \<and> pc_svm (parse_lscpu txt) = False \<and> pc_invariant_tsc (parse_lscpu txt) = False"
  unfolding parse_lscpu_def lscpu_const field_values_def Let_def
    foldl_last [where get = pc_sku, OF lscpu_line_sel(1)] foldl_last [where get = pc_threads, OF lscpu_line_sel(2)]
    foldl_last [where get = pc_cores, OF lscpu_line_sel(3)]
  by (simp add: pn52_cpu_default_def last_map)

end
