(* ===== verification/Spec2Isabelle.thy ===== *)
theory Spec2Isabelle
  imports Prelude Mm Vcpu Devices Sha384 Virtio Receipts Policy Capsule Attest Messages Vm Lifecycle
    System Control ControlPlane MachineLife StageMachine Transitions Net Qrse Unlock LegacyVm Storage Cli Sample Platform
begin

text \<open>
  A verification library for the chain.new hyper-slate runtime: a deny-by-default virtual
  machine monitor whose guests run only after a signed capsule, a policy, a memory quota and
  an attested key release have admitted them, and whose every decision is a receipt on a
  hash chain.

  \<^bold>\<open>Parts and how they interact.\<close> The control plane (\<open>hyper-control\<close>) keeps named machines and
  drives them through the lifecycle runtime (\<open>hyper-vm\<close>). The runtime asks the capsule gate
  (\<open>hyper-capsule\<close>) and the policy engine (\<open>hyper-policy\<close>) whether a machine may launch, takes
  its memory from the nested page table (\<open>hyper-mm\<close>), its key from the attested key service
  (\<open>hyper-attest\<close>), its devices from the device graph (\<open>hyper-devices\<close>, with the devices of
  \<open>hyper-virtio\<close>), schedules its vCPUs (\<open>hyper-vcpu\<close>), and appends every outcome to the
  receipt chain (\<open>hyper-receipts\<close>). Beside it stand the virtual switch (\<open>hyper-net\<close>) and the
  control plane of storage encryption (\<open>hyper-qrse\<close>), which unlocks a volume through the
  same key service and chain, the provisioning of such volumes (\<open>hyper-storage\<close>), the command
  line tools \<open>hyperctl\<close> and \<open>qrsectl\<close> (\<open>src/apps\<close>), and the crates for the machine underneath.

  \<^bold>\<open>Theories and sources\<close> (paths under \<open>src/crates\<close>).
  \<^item> \<open>Prelude\<close>: machine integers, saturating arithmetic, strings as bytes, formatting and
    parsing of numbers, \<open>BTreeMap\<close> as a sorted association list with the locale \<open>ordered_map\<close>.
  \<^item> \<open>Mm\<close> (\<open>hyper-mm/src/lib.rs\<close>): the in-memory table, the page zeroizer, the enforcing
    wrapper, quota, traps and memory map. Locale \<open>npt\<close> for the trait \<open>Npt\<close>.
  \<^item> \<open>Vcpu\<close> (\<open>hyper-vcpu/src/lib.rs\<close>): exit dispatch, run loop, scheduler. Locale \<open>svm_backend\<close>.
  \<^item> \<open>Devices\<close> (\<open>hyper-devices/src/lib.rs\<close>): routes, device graph, test device. Locale
    \<open>virtual_device\<close>, which \<open>Virtio\<close> interprets for the devices of \<open>hyper-virtio/src\<close>.
  \<^item> \<open>Sha384\<close> (\<open>hyper-virtio/src/hash.rs\<close>): the digest, word for word.
  \<^item> \<open>Receipts\<close> (\<open>hyper-receipts/src\<close>): receipt chain, security log and the older chain, all
    interpretations of the locale \<open>hash_chain\<close>.
  \<^item> \<open>Policy\<close>, \<open>Capsule\<close>, \<open>Attest\<close>: the crates of these names, with the older halves that
    their \<open>lib.rs\<close> files also contain.
  \<^item> \<open>Messages\<close>: the error texts that reasons and messages quote.
  \<^item> \<open>Vm\<close> (\<open>hyper-vm/src/runtime.rs\<close>, \<open>spec.rs\<close>, \<open>error.rs\<close>): one definition per lifecycle
    operation, on the runtime and the typed state it consumes. \<open>Lifecycle\<close> has the exact
    conditions and results of each operation, \<open>System\<close> the step relation of a runtime with
    any number of machines and its invariants. \<open>Transitions\<close> has the sequences of calls a
    client can make, on numbered machines, and the state diagram of
    \<open>src/docs/09_virtual_framework.md\<close> as a table of the operations.
  \<^item> \<open>Control\<close> (\<open>hyper-control/src/control.rs\<close>, \<open>error.rs\<close>): one definition per command;
    \<open>ControlPlane\<close> relates sequences of commands to \<open>System\<close>; \<open>MachineLife\<close> follows one
    machine through all of them; \<open>StageMachine\<close> abstracts the control plane to a small
    deterministic machine over stages and log entries.
  \<^item> \<open>Net\<close> (\<open>hyper-net/src\<close>): policies, sandboxes, the rate-limited switch.
  \<^item> \<open>Qrse\<close>, \<open>Unlock\<close> (\<open>hyper-qrse/src\<close>): primitives, keyslots, signed manifest, downgrade
    protection, key hierarchy, and the attested hybrid unlock. Locales \<open>kem_contract\<close>,
    \<open>signing_contract\<close> and \<open>sealed_volume\<close> for what the flow needs of its trait objects.
  \<^item> \<open>LegacyVm\<close> (\<open>hyper-vm/src/model.rs\<close>): the older lifecycle, on the older halves of
    \<open>Capsule\<close>, \<open>Policy\<close> and \<open>Receipts\<close>.
  \<^item> \<open>Storage\<close> (\<open>hyper-storage/src\<close>): the disk profile, suites, flat key summary and the planner
    of an unsigned manifest, which \<open>Unlock\<close> can open once it is signed.
  \<^item> \<open>Cli\<close> (\<open>src/apps/hyperctl\<close>, \<open>src/apps/qrsectl\<close>): one definition per subcommand, from the
    texts of the files it reads to what it prints and its exit code.
  \<^item> \<open>Sample\<close> (\<open>hyper-qrse/examples/gen_sample.rs\<close>): the generator of the sample manifest and
    the documented commands on what it writes.
  \<^item> \<open>Platform\<close> (\<open>hyper-pn52/src\<close>, \<open>hyper-x86/src\<close>, \<open>hyper-amd-svm/src\<close>,
    \<open>hyper-slate-core/src\<close>, \<open>src/apps/hyper-pn52-doctor\<close> and \<open>hyper-uefi-probe\<close>): inventory parsers, PCI addresses,
    serial port, model specific registers, the control block and the core data types.

  \<^bold>\<open>How code becomes definitions.\<close> A struct is a record, an enum a datatype, a method that
  takes \<open>&mut self\<close> a function that returns the new state first. \<open>Result\<close> is a sum with the
  error on the left (\<open>Err\<close>, \<open>Ok\<close>). Integers keep their width; \<open>+\<close> wraps, and the saturating
  and checked operations are written out. A typed state that an operation consumes is simply
  not part of its result. Trait objects are records of functions. A panic that the callers
  exclude is noted where it is; a constructor that panics on bad input returns an option.

  \<^bold>\<open>What the lemmas show.\<close> \<open>Mm\<close>: live mappings are disjoint, aligned, never writable and
  executable, and outside the reserved range; unmapped frames are poisoned until zeroed.
  \<open>Vcpu\<close>: every unknown exit kills, a storm of exits ends the loop, the scheduler is strict
  by priority and fair within one. \<open>Devices\<close>, \<open>Virtio\<close>: routing is exact, a failed
  registration or access changes nothing, the guest reads only verified bytes. \<open>Receipts\<close>: a
  chain that verifies with a known head has known contents, or exhibits a collision.
  \<open>Policy\<close>, \<open>Capsule\<close>, \<open>Attest\<close>: each decision is characterised exactly. \<open>Lifecycle\<close>,
  \<open>System\<close>: every transition is on the chain, destroying scrubs everything, and two
  machines of one runtime share host memory, which the code does not prevent.
  \<open>Transitions\<close>: a running machine has passed every gate with the capsule of its own
  definition, and any sequence of calls leaves exactly the states and the receipts that the
  diagram computes; the states of \<open>System\<close> are those that calls lead to. The diagram differs
  from the documented one where the code does: no resume, no quarantine, a snapshot that
  ends the machine, and refusals of the launch gate and the quota without a receipt.
  \<open>ControlPlane\<close>: the commands add no way around the runtime, a refused command leaves no
  trace, and a descriptor vouches for its own keys. \<open>MachineLife\<close>: a descriptor goes through
  its whole life exactly when its capsule passes every gate. \<open>StageMachine\<close>: every sequence
  of commands has exactly the outcomes, the stages and the log that the small machine
  computes. \<open>Net\<close>: when a flow is allowed,
  exactly, and that a window admits exactly its limit; the switch decides the host-only and
  the attested mode like NAT and compares address blocks as text, which is less than the
  comments on them say. \<open>Unlock\<close>: a key comes out exactly
  when every gate passes, a sealed volume unlocks to the key it was sealed with, and equal
  keys come from equal contexts. \<open>LegacyVm\<close>: a whole life completes exactly when capsule
  check and policy accept. \<open>Storage\<close>: what is provisioned unlocks. \<open>Cli\<close>: the exit codes of
  \<open>qrsectl\<close> equal a reference decision; no \<open>hyperctl\<close> run finds a machine. \<open>Sample\<close>: the
  generated manifest passes the documented checks. \<open>Platform\<close>: addresses are injective in
  their range, sending a byte returns exactly when the port ever gets ready, enabling SVM
  changes what it should and nothing else, and the inventory never reports SVM.

  \<^bold>\<open>Bounds and termination.\<close> No definition uses fuel, but for the run loop, whose count of
  steps is an argument of the source. Sending a byte on the serial port polls without a limit
  and is a partial function. Guest memory is bounded by 251654144 MiB, the space
  below the reserved host range; the device count by 2 to the 51, beyond which the addresses
  of \<open>attach\<close> would wrap. The other loops recur on lists or end by a measure.

  \<^bold>\<open>The environment.\<close> The crates \<open>sha2\<close>, \<open>hmac\<close>, \<open>hkdf\<close>, \<open>hex\<close> and \<open>serde_json\<close> are not in
  the repository. Their functions are the fields of records that extend each other:
  \<open>extern\<close>, \<open>receipt_env\<close>, \<open>policy_env\<close>, \<open>capsule_env\<close>, \<open>attest_env\<close>, \<open>control_env\<close>,
  \<open>network_env\<close> and \<open>qrse_env\<close>. Theorems hold for all of them, except where a named
  hypothesis says what is used: injective encoders in \<open>Receipts\<close>, and \<open>qrse_laws\<close> (sizes,
  hex decoding inverts encoding, a code verifies against itself) in \<open>Unlock\<close>. Collision
  resistance is nowhere assumed; where it matters the conclusion exhibits a collision between
  inputs that are at hand, never just some collision. The file system and the printer of
  JSON values are arguments of the command line tools, the port and register instructions
  arguments of the definitions in \<open>Platform\<close>.

  \<^bold>\<open>Not modelled.\<close> JSON printing and parsing, argument parsing, the derived \<open>Debug\<close> formats
  that nothing quotes, clearing memory on drop, and thread safety markers. The bodies of the
  inline assembly (\<open>vmrun\<close>, \<open>hlt\<close>, port and register instructions) act on hardware; where
  the code uses their results they are parameters. A VM exit is what the backend reports: no
  instruction of a guest is executed here.
\<close>

end
